(* ===== verification/Prelude.thy ===== *)
theory Prelude
  imports Main "HOL-Library.Sublist" "HOL-Library.Multiset"
begin

text \<open>
  Shared ground of the development: the Go built-ins and standard-library string functions
  the program calls, 64-bit integers and time stamps as \<open>int\<close> with the wrap-around written
  out, and the generic list, map and string lemmas the component theories rest on.

  A Go \<open>string\<close> is a byte sequence and is modelled by \<open>string\<close> (a list of \<open>char\<close>, and an
  Isabelle \<open>char\<close> is a byte).  \<open>ToLower\<close>, \<open>TrimSpace\<close> and \<open>EqualFold\<close> are the functions of
  package strings on ASCII text (the program applies them to host names, header tokens and
  configuration words); bytes above 127 are left as they are.
\<close>

named_theorems go_defs "definitions of the Go built-ins used by the component proofs"
named_theorems go_str "rewrite rules for the string functions"

subsection \<open>Integers and time\<close>

text \<open>Go's \<open>int\<close> and \<open>int64\<close> on the program's 64-bit targets.\<close>

definition int64_min :: int where "int64_min = - (2 ^ 63)"
definition int64_max :: int where "int64_max = 2 ^ 63 - 1"

definition wrap64 :: "int \<Rightarrow> int" where
  "wrap64 x = (x + 2 ^ 63) mod 2 ^ 64 - 2 ^ 63"

text \<open>
  \<open>time.Time\<close> is an instant in nanoseconds since the Unix epoch, \<open>time.Duration\<close> a signed
  64-bit count of nanoseconds.  The zero \<open>time.Time\<close> is January 1 of year 1.
\<close>

type_synonym time = int
type_synonym duration = int

definition second :: duration where "second = 1000000000"
definition minute :: duration where "minute = 60 * second"
definition hour :: duration where "hour = 60 * minute"

definition zero_time :: time where "zero_time = - 62135596800 * 1000000000"

definition IsZero :: "time \<Rightarrow> bool" where "IsZero t \<longleftrightarrow> t = zero_time"

lemmas duration_defs = second_def minute_def hour_def

lemma wrap64_in_range: "int64_min \<le> x \<Longrightarrow> x \<le> int64_max \<Longrightarrow> wrap64 x = x"
  by (simp add: wrap64_def int64_min_def int64_max_def)

lemma wrap64_bounds: "int64_min \<le> wrap64 x \<and> wrap64 x \<le> int64_max"
  by (simp add: wrap64_def int64_min_def int64_max_def)

subsection \<open>Bytes and characters\<close>

abbreviation byte_of :: "char \<Rightarrow> nat" where "byte_of c \<equiv> of_char c"

definition is_digit :: "char \<Rightarrow> bool" where
  "is_digit c \<longleftrightarrow> 48 \<le> byte_of c \<and> byte_of c \<le> 57"

definition is_space :: "char \<Rightarrow> bool" where
  "is_space c \<longleftrightarrow> (9 \<le> byte_of c \<and> byte_of c \<le> 13) \<or> byte_of c = 32"

definition lower_char :: "char \<Rightarrow> char" where
  "lower_char c = (if 65 \<le> byte_of c \<and> byte_of c \<le> 90 then char_of (byte_of c + 32) else c)"

definition upper_char :: "char \<Rightarrow> char" where
  "upper_char c = (if 97 \<le> byte_of c \<and> byte_of c \<le> 122 then char_of (byte_of c - 32) else c)"

definition LF :: char where "LF = char_of (10::nat)"
definition CR :: char where "CR = char_of (13::nat)"
definition DQ :: char where "DQ = char_of (34::nat)"
definition SQ :: char where "SQ = char_of (39::nat)"
definition BSL :: char where "BSL = char_of (92::nat)"

lemma lower_char_idem [simp]: "lower_char (lower_char c) = lower_char c"
proof -
  have "byte_of c < 256" by (metis of_char_mod_256 mod_less_divisor zero_less_numeral)
  then show ?thesis by (auto simp: lower_char_def)
qed

subsection \<open>Package strings\<close>

definition HasPrefix :: "string \<Rightarrow> string \<Rightarrow> bool" where
  "HasPrefix s p \<longleftrightarrow> take (length p) s = p"

definition HasSuffix :: "string \<Rightarrow> string \<Rightarrow> bool" where
  "HasSuffix s p \<longleftrightarrow> length p \<le> length s \<and> drop (length s - length p) s = p"

definition TrimPrefix :: "string \<Rightarrow> string \<Rightarrow> string" where
  "TrimPrefix s p = (if HasPrefix s p then drop (length p) s else s)"

definition TrimSuffix :: "string \<Rightarrow> string \<Rightarrow> string" where
  "TrimSuffix s p = (if HasSuffix s p then take (length s - length p) s else s)"

fun Contains :: "string \<Rightarrow> string \<Rightarrow> bool" where
  "Contains [] sub = (sub = [])"
| "Contains (c # s) sub = (HasPrefix (c # s) sub \<or> Contains s sub)"

definition ToLower :: "string \<Rightarrow> string" where
  "ToLower s = map lower_char s"

definition TrimSpace :: "string \<Rightarrow> string" where
  "TrimSpace s = rev (dropWhile is_space (rev (dropWhile is_space s)))"

definition EqualFold :: "string \<Rightarrow> string \<Rightarrow> bool" where
  "EqualFold s t \<longleftrightarrow> ToLower s = ToLower t"

text \<open>\<open>strings.Split\<close> on a one-byte separator, and \<open>strings.SplitN\<close> with limit 2.\<close>

fun Split :: "char \<Rightarrow> string \<Rightarrow> string list" where
  "Split c [] = [[]]"
| "Split c (x # xs) =
     (if x = c then [] # Split c xs
      else (case Split c xs of [] \<Rightarrow> [[x]] | w # ws \<Rightarrow> (x # w) # ws))"

definition SplitN2 :: "char \<Rightarrow> string \<Rightarrow> string list" where
  "SplitN2 c s =
     (if c \<in> set s then [takeWhile (\<lambda>x. x \<noteq> c) s, tl (dropWhile (\<lambda>x. x \<noteq> c) s)] else [s])"

fun Join :: "string list \<Rightarrow> string \<Rightarrow> string" where
  "Join [] sep = []"
| "Join [s] sep = s"
| "Join (s # t # ss) sep = s @ sep @ Join (t # ss) sep"

text \<open>\<open>strings.NewReplacer\<close> with one-byte old strings: every byte is replaced once.\<close>

definition replace_bytes :: "(char \<rightharpoonup> string) \<Rightarrow> string \<Rightarrow> string" where
  "replace_bytes f s = concat (map (\<lambda>c. case f c of None \<Rightarrow> [c] | Some t \<Rightarrow> t) s)"

lemma HasPrefix_iff: "HasPrefix s p \<longleftrightarrow> (\<exists>t. s = p @ t)"
proof
  assume "HasPrefix s p"
  then have "s = p @ drop (length p) s" unfolding HasPrefix_def by (metis append_take_drop_id)
  then show "\<exists>t. s = p @ t" ..
qed (auto simp: HasPrefix_def)

lemma HasSuffix_iff: "HasSuffix s p \<longleftrightarrow> (\<exists>t. s = t @ p)"
proof
  assume "HasSuffix s p"
  then have "s = take (length s - length p) s @ p"
    unfolding HasSuffix_def by (metis append_take_drop_id)
  then show "\<exists>t. s = t @ p" ..
qed (auto simp: HasSuffix_def)

lemma HasPrefix_append [simp]: "HasPrefix (p @ t) p" by (auto simp: HasPrefix_iff)
lemma HasSuffix_append [simp]: "HasSuffix (t @ p) p" by (auto simp: HasSuffix_iff)
lemma TrimPrefix_append [simp]: "TrimPrefix (p @ t) p = t" by (simp add: TrimPrefix_def)

lemma Contains_iff: "Contains s sub \<longleftrightarrow> (\<exists>u v. s = u @ sub @ v)"
proof (induction s)
  case (Cons c s)
  show ?case
  proof
    assume "Contains (c # s) sub"
    then consider "HasPrefix (c # s) sub" | "Contains s sub" by auto
    then show "\<exists>u v. c # s = u @ sub @ v"
    proof cases
      case 1
      then show ?thesis by (metis HasPrefix_iff append_Nil)
    next
      case 2
      then show ?thesis using Cons.IH by (metis append_Cons)
    qed
  next
    assume "\<exists>u v. c # s = u @ sub @ v"
    then obtain u v where e: "c # s = u @ sub @ v" by blast
    show "Contains (c # s) sub"
    proof (cases u)
      case Nil
      then have "HasPrefix (c # s) sub" using e by (auto simp: HasPrefix_iff)
      then show ?thesis by simp
    next
      case (Cons d u')
      then have "s = u' @ sub @ v" using e by simp
      then show ?thesis using Cons.IH by auto
    qed
  qed
qed auto

lemma Split_neq_Nil [simp]: "Split c s \<noteq> []"
  by (induction s) (auto split: list.splits)

lemma Split_no_sep: "c \<notin> set s \<Longrightarrow> Split c s = [s]"
  by (induction s) auto

lemma Split_append: "c \<notin> set s \<Longrightarrow> Split c (s @ c # t) = s # Split c t"
  by (induction s) auto

lemma Split_sep_free: "w \<in> set (Split c s) \<Longrightarrow> c \<notin> set w"
proof (induction s arbitrary: w)
  case (Cons x s)
  show ?case
  proof (cases "x = c")
    case True
    then show ?thesis using Cons by auto
  next
    case False
    obtain v vs where v: "Split c s = v # vs" by (meson Split_neq_Nil neq_Nil_conv)
    then show ?thesis using Cons False by auto
  qed
qed auto

lemma Split_snoc: "c \<notin> set t \<Longrightarrow> Split c (s @ c # t) = Split c s @ [t]"
proof (induction s)
  case Nil
  then show ?case by (simp add: Split_no_sep)
next
  case (Cons x s)
  obtain v vs where v: "Split c s = v # vs" by (meson Split_neq_Nil neq_Nil_conv)
  then show ?case using Cons by auto
qed

lemma SplitN2_append: "c \<notin> set s \<Longrightarrow> SplitN2 c (s @ c # t) = [s, t]"
  by (simp add: SplitN2_def takeWhile_append dropWhile_append)

lemma SplitN2_cases:
  obtains (one) "c \<notin> set s" "SplitN2 c s = [s]"
  | (two) a b where "s = a @ c # b" "c \<notin> set a" "SplitN2 c s = [a, b]"
proof (cases "c \<in> set s")
  case True
  then obtain a b where "s = a @ c # b" "c \<notin> set a" by (meson split_list_first)
  then show ?thesis using that(2) SplitN2_append by metis
next
  case False
  then show ?thesis using that(1) by (simp add: SplitN2_def)
qed

lemma SplitN2_first: "SplitN2 c s = [a, b] \<Longrightarrow> s = a @ c # b \<and> c \<notin> set a"
  by (cases rule: SplitN2_cases [of c s]) auto

lemma ToLower_append [simp]: "ToLower (s @ t) = ToLower s @ ToLower t"
  by (simp add: ToLower_def)

lemma ToLower_idem [simp]: "ToLower (ToLower s) = ToLower s"
  by (simp add: ToLower_def)

lemma TrimSpace_no_space: "\<forall>c \<in> set s. \<not> is_space c \<Longrightarrow> TrimSpace s = s"
proof -
  assume a: "\<forall>c \<in> set s. \<not> is_space c"
  then have "dropWhile is_space s = s" "dropWhile is_space (rev s) = rev s"
    by (metis dropWhile_eq_self_iff list.set_sel(1), metis dropWhile_eq_self_iff hd_in_set set_rev)
  then show ?thesis by (simp add: TrimSpace_def)
qed

lemma replace_bytes_Nil [simp]: "replace_bytes f [] = []" by (simp add: replace_bytes_def)

lemma replace_bytes_Cons:
  "replace_bytes f (c # s) = (case f c of None \<Rightarrow> [c] | Some t \<Rightarrow> t) @ replace_bytes f s"
  by (simp add: replace_bytes_def)

subsection \<open>Filtering a slice in place\<close>

text \<open>
  The idiom \<open>active := times[:0]; for _, t := range times { if p(t) { active = append(active, t) } }\<close>
  (and its spelling with an explicit write index) overwrites the slice while it is being read.
  The loop is modelled on the backing array, with the write index \<open>n\<close> and the read index \<open>i\<close>.
\<close>

function compact_loop :: "('a \<Rightarrow> bool) \<Rightarrow> 'a list \<Rightarrow> nat \<Rightarrow> nat \<Rightarrow> 'a list \<times> nat" where
  "compact_loop p xs n i =
     (if i < length xs
      then (if p (xs ! i) then compact_loop p (xs[n := xs ! i]) (Suc n) (Suc i)
            else compact_loop p xs n (Suc i))
      else (xs, n))"
  by pat_completeness auto
termination
  by (relation "measure (\<lambda>(p, xs, n, i). length xs - i)") auto

declare compact_loop.simps [simp del]

definition compact_slice :: "('a \<Rightarrow> bool) \<Rightarrow> 'a list \<Rightarrow> 'a list" where
  "compact_slice p xs = (case compact_loop p xs 0 0 of (ys, n) \<Rightarrow> take n ys)"

lemma compact_loop_filter:
  assumes "n \<le> i" "i \<le> length xs" "compact_loop p xs n i = (ys, m)"
  shows "m \<le> length ys \<and> take m ys = take n xs @ filter p (drop i xs)"
  using assms
proof (induction p xs n i rule: compact_loop.induct)
  case (1 p xs n i)
  show ?case
  proof (cases "i < length xs")
    case False
    then have "ys = xs" "m = n" using "1.prems"(3) by (simp_all add: compact_loop.simps [of p xs n i])
    then show ?thesis using False "1.prems"(1,2) by simp
  next
    case True
    then have d: "drop i xs = xs ! i # drop (Suc i) xs" by (simp add: Cons_nth_drop_Suc)
    show ?thesis
    proof (cases "p (xs ! i)")
      case p: True
      have "m \<le> length ys \<and> take m ys =
          take (Suc n) (xs[n := xs ! i]) @ filter p (drop (Suc i) (xs[n := xs ! i]))"
        using "1.IH"(1) True p "1.prems" by (simp add: compact_loop.simps [of p xs n i])
      moreover have "take (Suc n) (xs[n := xs ! i]) = take n xs @ [xs ! i]"
        using True "1.prems"(1) by (simp add: take_Suc_conv_app_nth)
      moreover have "drop (Suc i) (xs[n := xs ! i]) = drop (Suc i) xs"
        using "1.prems"(1) by (simp add: drop_update_cancel)
      ultimately show ?thesis using d p by simp
    next
      case False
      then show ?thesis using "1.IH"(2) True "1.prems" d by (simp add: compact_loop.simps [of p xs n i])
    qed
  qed
qed

lemma compact_slice_filter [simp]: "compact_slice p xs = filter p xs"
  using compact_loop_filter [of 0 0 xs p] by (auto simp: compact_slice_def split: prod.splits)

end
