(* ===== verification/Downtime.thy ===== *)
theory Downtime
  imports Strconv
begin

text \<open>
  Weekly downtime schedules (src/pkg/userdb/downtime.go): parsing of \<open>HH:MM\<close>, validation of
  a schedule with the overlap check, and the test whether an instant lies in a blocked window.

  A Go map is modelled by an association list with distinct keys; the order of the list is
  the order in which one \<open>range\<close> over the map happens to visit it, so a statement about every
  order is a statement about every permutation of the list.  The local wall clock reading of an
  instant (\<open>now.Weekday\<close>, \<open>now.Hour\<close>, \<open>now.Minute\<close>) is a record.
\<close>

record DowntimeWindow =
  Start :: string
  End :: string

type_synonym DowntimeSchedule = "(string \<times> DowntimeWindow list) list"

record wall_clock =
  Weekday :: int
  Hour :: int
  Minute :: int

datatype parse_error = InvalidTimeFormat string | InvalidHour string | InvalidMinute string

datatype schedule_error =
    InvalidDayKey string
  | DayParse string parse_error
  | ZeroLength string string string
  | Overlapping string

subsection \<open>The operations\<close>

definition parseHHMM :: "string \<Rightarrow> parse_error + int" where
  "parseHHMM s =
     (case SplitN2 (CHR '':'') s of
        [a, b] \<Rightarrow>
          (case Atoi a of
             None \<Rightarrow> Inl (InvalidHour s)
           | Some h \<Rightarrow>
               if h < 0 \<or> h > 23 then Inl (InvalidHour s)
               else (case Atoi b of
                       None \<Rightarrow> Inl (InvalidMinute s)
                     | Some m \<Rightarrow>
                         if m < 0 \<or> m > 59 then Inl (InvalidMinute s) else Inr (h * 60 + m)))
      | _ \<Rightarrow> Inl (InvalidTimeFormat s))"

text \<open>The callers that write \<open>s, _ := parseHHMM(x)\<close> get 0 when the text does not parse.\<close>

definition minutes_or_0 :: "string \<Rightarrow> int" where
  "minutes_or_0 s = (case parseHHMM s of Inl _ \<Rightarrow> 0 | Inr m \<Rightarrow> m)"

record interval =
  i_start :: int
  i_end :: int
  i_idx :: nat

definition expand_window :: "nat \<Rightarrow> DowntimeWindow \<Rightarrow> interval list" where
  "expand_window i w =
     (let s = minutes_or_0 (Start w); e = minutes_or_0 (End w)
      in if s < e then [\<lparr>i_start = s, i_end = e, i_idx = i\<rparr>]
         else \<lparr>i_start = s, i_end = 1440, i_idx = i\<rparr> #
              (if e > 0 then [\<lparr>i_start = 0, i_end = e, i_idx = i\<rparr>] else []))"

fun expand_windows :: "nat \<Rightarrow> DowntimeWindow list \<Rightarrow> interval list" where
  "expand_windows i [] = []"
| "expand_windows i (w # ws) = expand_window i w @ expand_windows (Suc i) ws"

fun adjacent_clash :: "interval list \<Rightarrow> bool" where
  "adjacent_clash (a # b # rest) = (i_start b < i_end a \<or> adjacent_clash (b # rest))"
| "adjacent_clash _ = False"

definition checkOverlaps :: "string \<Rightarrow> DowntimeWindow list \<Rightarrow> schedule_error + unit" where
  "checkOverlaps dayKey windows =
     (if length windows < 2 then Inr ()
      else let intervals = sort_key i_start (expand_windows 0 windows)
           in if adjacent_clash intervals then Inl (Overlapping dayKey) else Inr ())"

fun validate_windows :: "string \<Rightarrow> DowntimeWindow list \<Rightarrow> schedule_error + unit" where
  "validate_windows dayKey [] = Inr ()"
| "validate_windows dayKey (w # ws) =
     (case parseHHMM (Start w) of
        Inl e \<Rightarrow> Inl (DayParse dayKey e)
      | Inr startMin \<Rightarrow>
          (case parseHHMM (End w) of
             Inl e \<Rightarrow> Inl (DayParse dayKey e)
           | Inr endMin \<Rightarrow>
               if startMin = endMin then Inl (ZeroLength dayKey (Start w) (End w))
               else validate_windows dayKey ws))"

fun ValidateSchedule :: "DowntimeSchedule \<Rightarrow> schedule_error + unit" where
  "ValidateSchedule [] = Inr ()"
| "ValidateSchedule ((dayKey, windows) # rest) =
     (case Atoi dayKey of
        None \<Rightarrow> Inl (InvalidDayKey dayKey)
      | Some day \<Rightarrow>
          if day < 0 \<or> day > 6 then Inl (InvalidDayKey dayKey)
          else (case validate_windows dayKey windows of
                  Inl e \<Rightarrow> Inl e
                | Inr _ \<Rightarrow>
                    (case checkOverlaps dayKey windows of
                       Inl e \<Rightarrow> Inl e
                     | Inr _ \<Rightarrow> ValidateSchedule rest)))"

text \<open>\<open>schedule[key]\<close> of a Go map: the nil slice for a missing key.\<close>

definition schedule_get :: "DowntimeSchedule \<Rightarrow> string \<Rightarrow> DowntimeWindow list" where
  "schedule_get sched k = (case map_of sched k of None \<Rightarrow> [] | Some ws \<Rightarrow> ws)"

fun blocked_today :: "int \<Rightarrow> DowntimeWindow list \<Rightarrow> bool" where
  "blocked_today nowMin [] = False"
| "blocked_today nowMin (w # ws) =
     (let s = minutes_or_0 (Start w); e = minutes_or_0 (End w)
      in if s < e then (if nowMin \<ge> s \<and> nowMin < e then True else blocked_today nowMin ws)
         else (if nowMin \<ge> s then True else blocked_today nowMin ws))"

fun blocked_spill :: "int \<Rightarrow> DowntimeWindow list \<Rightarrow> bool" where
  "blocked_spill nowMin [] = False"
| "blocked_spill nowMin (w # ws) =
     (let s = minutes_or_0 (Start w); e = minutes_or_0 (End w)
      in if s \<ge> e then (if nowMin < e then True else blocked_spill nowMin ws)
         else blocked_spill nowMin ws)"

definition isInDowntime :: "DowntimeSchedule \<Rightarrow> wall_clock \<Rightarrow> bool" where
  "isInDowntime schedule now =
     (if length schedule = 0 then False
      else let nowMin = Hour now * 60 + Minute now;
               today = Itoa (Weekday now);
               yesterday = Itoa ((Weekday now + 6) mod 7)
           in if blocked_today nowMin (schedule_get schedule today) then True
              else blocked_spill nowMin (schedule_get schedule yesterday))"

subsection \<open>Parsing\<close>

lemma parseHHMM_bounds: "parseHHMM s = Inr m \<Longrightarrow> 0 \<le> m \<and> m < 1440"
  by (auto simp: parseHHMM_def split: list.splits option.splits if_splits)

lemma minutes_or_0_bounds: "0 \<le> minutes_or_0 s" "minutes_or_0 s < 1440"
  using parseHHMM_bounds by (auto simp: minutes_or_0_def split: sum.splits)

lemma minutes_or_0_Inr [simp]: "parseHHMM s = Inr m \<Longrightarrow> minutes_or_0 s = m"
  by (simp add: minutes_or_0_def)

definition clock_string :: "int \<Rightarrow> string" where
  "clock_string m = Itoa (m div 60) @ '':'' @ Itoa (m mod 60)"

lemma Itoa_no_colon: "0 \<le> i \<Longrightarrow> CHR '':'' \<notin> set (Itoa i)"
  using nat_str_digits [of "nat i"] by (auto simp: Itoa_def list_all_iff)

lemma parseHHMM_clock_string:
  assumes "0 \<le> m" "m < 1440"
  shows "parseHHMM (clock_string m) = Inr m"
proof -
  have h: "0 \<le> m div 60" "m div 60 \<le> 23" "0 \<le> m mod 60" "m mod 60 \<le> 59" using assms by auto
  have a: "Atoi (Itoa (m div 60)) = Some (m div 60)" "Atoi (Itoa (m mod 60)) = Some (m mod 60)"
    using h by (auto intro!: Atoi_Itoa simp: int64_min_def int64_max_def)
  have "SplitN2 (CHR '':'') (clock_string m) = [Itoa (m div 60), Itoa (m mod 60)]"
    using SplitN2_append Itoa_no_colon h by (simp add: clock_string_def)
  then show ?thesis using a h by (simp add: parseHHMM_def)
qed

subsection \<open>The overlap check decides disjointness\<close>

text \<open>The minutes of a day a window blocks, counting an overnight window's morning part too.\<close>

definition window_minutes :: "DowntimeWindow \<Rightarrow> int set" where
  "window_minutes w =
     (let s = minutes_or_0 (Start w); e = minutes_or_0 (End w)
      in if s < e then {s..<e} else {s..<1440} \<union> {0..<e})"

definition disjoint_windows :: "DowntimeWindow list \<Rightarrow> bool" where
  "disjoint_windows ws \<longleftrightarrow> sorted_wrt (\<lambda>v w. window_minutes v \<inter> window_minutes w = {}) ws"

abbreviation ivl :: "interval \<Rightarrow> int set" where "ivl a \<equiv> {i_start a..<i_end a}"

definition ivl_disj :: "interval \<Rightarrow> interval \<Rightarrow> bool" where
  "ivl_disj a b \<longleftrightarrow> ivl a \<inter> ivl b = {}"

lemma ivl_disj_sym: "ivl_disj a b \<Longrightarrow> ivl_disj b a"
  by (auto simp: ivl_disj_def)

lemma ivl_empty_iff:
  "{a..<b} \<inter> {c..<d} = {} \<longleftrightarrow> b \<le> a \<or> d \<le> c \<or> b \<le> c \<or> d \<le> (a::int)"
  by (auto simp: not_less)

lemma sorted_wrt_sym_perm:
  assumes "mset xs = mset ys" and sym: "\<And>a b. R a b \<Longrightarrow> R b a"
  shows "sorted_wrt R xs \<longleftrightarrow> sorted_wrt R ys"
  using assms(1)
proof (induction xs arbitrary: ys)
  case (Cons x xs)
  then have "x \<in> set ys" by (metis list.set_intros(1) mset_eq_setD)
  then obtain u v where ys: "ys = u @ x # v" by (meson split_list)
  then have "mset xs = mset (u @ v)" using Cons.prems by simp
  then have "sorted_wrt R xs = sorted_wrt R (u @ v)" and "set xs = set (u @ v)"
    using Cons.IH mset_eq_setD by blast+
  then show ?case using ys sym by (auto simp: sorted_wrt_append)
qed simp

lemma expand_window_nonempty: "a \<in> set (expand_window i w) \<Longrightarrow> i_start a < i_end a"
  using minutes_or_0_bounds(2) by (auto simp: expand_window_def Let_def split: if_splits)

lemma expand_windows_nonempty: "a \<in> set (expand_windows i ws) \<Longrightarrow> i_start a < i_end a"
  by (induction ws arbitrary: i) (auto dest: expand_window_nonempty)

lemma expand_window_cover: "(\<Union>a \<in> set (expand_window i w). ivl a) = window_minutes w"
  by (auto simp: expand_window_def window_minutes_def Let_def)

lemma expand_windows_cover:
  "(\<Union>a \<in> set (expand_windows i ws). ivl a) = (\<Union>w \<in> set ws. window_minutes w)"
  by (induction ws arbitrary: i) (simp_all add: expand_window_cover)

lemma expand_window_self_disjoint: "sorted_wrt ivl_disj (expand_window i w)"
  by (auto simp: expand_window_def ivl_disj_def Let_def)

lemma expand_windows_disjoint:
  "sorted_wrt ivl_disj (expand_windows i ws) \<longleftrightarrow> disjoint_windows ws"
proof (induction ws arbitrary: i)
  case (Cons w ws)
  have "(\<forall>a \<in> set (expand_window i w). \<forall>b \<in> set (expand_windows (Suc i) ws). ivl_disj a b)
        \<longleftrightarrow> (\<Union>a \<in> set (expand_window i w). ivl a)
            \<inter> (\<Union>b \<in> set (expand_windows (Suc i) ws). ivl b) = {}"
    unfolding ivl_disj_def by blast
  also have "\<dots> \<longleftrightarrow> (\<forall>v \<in> set ws. window_minutes w \<inter> window_minutes v = {})"
    unfolding expand_window_cover expand_windows_cover by blast
  finally show ?case
    using Cons.IH expand_window_self_disjoint
    by (auto simp: sorted_wrt_append disjoint_windows_def)
qed (simp add: disjoint_windows_def)

text \<open>
  On intervals that are sorted by their start and not empty, comparing neighbours is enough.
\<close>

lemma adjacent_clash_iff:
  assumes "sorted (map i_start xs)" "\<forall>a \<in> set xs. i_start a < i_end a"
  shows "\<not> adjacent_clash xs \<longleftrightarrow> sorted_wrt ivl_disj xs"
  using assms
proof (induction xs rule: adjacent_clash.induct)
  case (1 a b rest)
  have nb: "\<not> adjacent_clash (b # rest) \<longleftrightarrow> sorted_wrt ivl_disj (b # rest)"
    using 1 by auto
  have ab: "ivl_disj a b \<longleftrightarrow> i_end a \<le> i_start b"
    using "1.prems" unfolding ivl_disj_def ivl_empty_iff by auto
  have far: "ivl_disj a c" if "i_end a \<le> i_start b" "c \<in> set rest" for c
  proof -
    have "i_start b \<le> i_start c" using "1.prems"(1) that(2) by simp
    then show ?thesis using that(1) by (auto simp: ivl_disj_def)
  qed
  show ?case using nb ab far by auto
qed auto

lemma adjacent_clash_any_sort:
  assumes "mset ys = mset (expand_windows i ws)" "sorted (map i_start ys)"
  shows "\<not> adjacent_clash ys \<longleftrightarrow> disjoint_windows ws"
proof -
  have "set ys = set (expand_windows i ws)" using assms(1) by (rule mset_eq_setD)
  then have "\<not> adjacent_clash ys \<longleftrightarrow> sorted_wrt ivl_disj ys"
    using adjacent_clash_iff assms(2) expand_windows_nonempty by blast
  also have "\<dots> \<longleftrightarrow> sorted_wrt ivl_disj (expand_windows i ws)"
    by (rule sorted_wrt_sym_perm [OF assms(1) ivl_disj_sym])
  finally show ?thesis by (simp only: expand_windows_disjoint)
qed

lemma checkOverlaps_iff: "checkOverlaps k ws = Inr () \<longleftrightarrow> disjoint_windows ws"
proof (cases "length ws < 2")
  case True
  then have "disjoint_windows ws"
    by (cases ws; cases "tl ws") (auto simp: disjoint_windows_def)
  then show ?thesis using True by (simp add: checkOverlaps_def)
next
  case False
  have "\<not> adjacent_clash (sort_key i_start (expand_windows 0 ws)) \<longleftrightarrow> disjoint_windows ws"
    by (rule adjacent_clash_any_sort [where i = 0]) simp_all
  then show ?thesis using False by (auto simp: checkOverlaps_def Let_def)
qed

subsection \<open>What a validated schedule satisfies\<close>

definition valid_window :: "DowntimeWindow \<Rightarrow> bool" where
  "valid_window w \<longleftrightarrow>
     (\<exists>s e. parseHHMM (Start w) = Inr s \<and> parseHHMM (End w) = Inr e \<and> s \<noteq> e)"

definition valid_day :: "string \<Rightarrow> bool" where
  "valid_day k \<longleftrightarrow> (\<exists>d. Atoi k = Some d \<and> 0 \<le> d \<and> d \<le> 6)"

lemma validate_windows_iff: "validate_windows k ws = Inr () \<longleftrightarrow> (\<forall>w \<in> set ws. valid_window w)"
  by (induction ws) (auto simp: valid_window_def split: sum.splits)

text \<open>
  C24. Validation is exact.  A schedule is accepted if and only if every day key denotes a
  day 0..6, every window has two readable, different times, and no two windows of a day share a
  minute; the accepted schedules do not depend on the order in which the map is visited.
\<close>

theorem ValidateSchedule_iff:
  "ValidateSchedule s = Inr () \<longleftrightarrow>
     (\<forall>(k, ws) \<in> set s. valid_day k \<and> (\<forall>w \<in> set ws. valid_window w) \<and> disjoint_windows ws)"
proof (induction s)
  case (Cons kw rest)
  obtain k ws where kw: "kw = (k, ws)" by (cases kw)
  show ?case
    using Cons validate_windows_iff [of k ws] checkOverlaps_iff [of k ws]
    by (auto simp: kw valid_day_def split: option.splits sum.splits if_splits)
qed simp

subsection \<open>The week line\<close>

text \<open>
  The specification of a schedule: a window of day \<open>k\<close> starts at minute \<open>1440 k + s\<close> of the
  week and blocks the next \<open>window_length\<close> minutes, around the end of the week if need be.
\<close>

definition window_length :: "DowntimeWindow \<Rightarrow> int" where
  "window_length w =
     (let s = minutes_or_0 (Start w); e = minutes_or_0 (End w)
      in if s < e then e - s else e - s + 1440)"

definition week_minute :: "wall_clock \<Rightarrow> int" where
  "week_minute now = Weekday now * 1440 + Hour now * 60 + Minute now"

definition blocked_week_minute :: "DowntimeSchedule \<Rightarrow> int \<Rightarrow> bool" where
  "blocked_week_minute sched t \<longleftrightarrow>
     (\<exists>k \<in> {0..6}. \<exists>w \<in> set (schedule_get sched (Itoa k)).
        (t - (k * 1440 + minutes_or_0 (Start w))) mod 10080 < window_length w)"

definition wf_clock :: "wall_clock \<Rightarrow> bool" where
  "wf_clock now \<longleftrightarrow> 0 \<le> Weekday now \<and> Weekday now \<le> 6 \<and> 0 \<le> Hour now \<and> Hour now \<le> 23 \<and>
     0 \<le> Minute now \<and> Minute now \<le> 59"

lemma blocked_today_iff:
  "blocked_today m ws \<longleftrightarrow>
     (\<exists>w \<in> set ws. minutes_or_0 (Start w) \<le> m \<and>
        (minutes_or_0 (Start w) < minutes_or_0 (End w) \<longrightarrow> m < minutes_or_0 (End w)))"
  by (induction ws) (auto simp: Let_def)

lemma blocked_spill_iff:
  "blocked_spill m ws \<longleftrightarrow>
     (\<exists>w \<in> set ws. minutes_or_0 (End w) \<le> minutes_or_0 (Start w) \<and> m < minutes_or_0 (End w))"
  by (induction ws) (auto simp: Let_def)

text \<open>One window against one instant, by the number of days between them.\<close>

lemma week_offset:
  assumes "0 \<le> m" "m < 1440" "0 \<le> s" "s < 1440" "0 \<le> e" "e < 1440"
    and d: "0 \<le> d" "d \<le> (6::int)" and k: "0 \<le> k" "k \<le> (6::int)"
  shows "(d * 1440 + m - (k * 1440 + s)) mod 10080 < (if s < e then e - s else e - s + 1440)
     \<longleftrightarrow> (d = k \<and> s \<le> m \<and> (s < e \<longrightarrow> m < e)) \<or> (k = (d + 6) mod 7 \<and> e \<le> s \<and> m < e)"
proof -
  define q where "q = (if k \<le> d then d - k else d - k + 7)"
  have q: "0 \<le> q" "q \<le> 6" using d k by (auto simp: q_def)
  have "(d * 1440 + m - (k * 1440 + s)) mod 10080 = (q * 1440 + m - s) mod 10080"
  proof (cases "k \<le> d")
    case True
    then show ?thesis by (simp add: q_def algebra_simps)
  next
    case False
    have "q * 1440 + m - s = d * 1440 + m - (k * 1440 + s) + 10080"
      using False by (simp add: q_def)
    then show ?thesis by (metis mod_add_self2)
  qed
  moreover have "(q * 1440 + m - s) mod 10080 =
      (if q = 0 \<and> m < s then 10080 + m - s else q * 1440 + m - s)"
  proof (cases "q = 0 \<and> m < s")
    case True
    then have "(q * 1440 + m - s) mod 10080 = (m - s + 10080) mod 10080" by simp
    also have "\<dots> = m - s + 10080" using True assms by (intro mod_pos_pos_trivial) auto
    finally show ?thesis using True by simp
  next
    case False
    then have "0 \<le> q * 1440 + m - s" "q * 1440 + m - s < 10080" using q assms by auto
    then show ?thesis using False by simp
  qed
  ultimately have offset: "(d * 1440 + m - (k * 1440 + s)) mod 10080 =
      (if q = 0 \<and> m < s then 10080 + m - s else q * 1440 + m - s)" by simp
  have q0: "d = k \<longleftrightarrow> q = 0" using d k by (auto simp: q_def)
  have "(d + 6) mod 7 = (if d = 0 then 6 else d - 1)"
  proof (cases "d = 0")
    case False
    have "(d + 6) mod 7 = (d - 1 + 7) mod 7" by (simp add: add.commute)
    also have "\<dots> = d - 1" using False d by (simp only: mod_add_self2) simp
    finally show ?thesis using False by simp
  qed simp
  then have q1: "k = (d + 6) mod 7 \<longleftrightarrow> q = 1" using d k by (auto simp: q_def)
  consider "q = 0" | "q = 1" | "2 \<le> q" using q by linarith
  then show ?thesis unfolding offset q0 q1 using assms(1-6) by cases auto
qed

lemma isInDowntime_week_line:
  assumes "wf_clock now"
  shows "isInDowntime sched now \<longleftrightarrow> blocked_week_minute sched (week_minute now)"
proof -
  let ?m = "Hour now * 60 + Minute now" and ?d = "Weekday now"
  have m: "0 \<le> ?m" "?m < 1440" and d: "0 \<le> ?d" "?d \<le> 6"
    using assms by (auto simp: wf_clock_def)
  have off: "(week_minute now - (k * 1440 + minutes_or_0 (Start w))) mod 10080 < window_length w
      \<longleftrightarrow> (?d = k \<and> minutes_or_0 (Start w) \<le> ?m \<and>
             (minutes_or_0 (Start w) < minutes_or_0 (End w) \<longrightarrow> ?m < minutes_or_0 (End w))) \<or>
          (k = (?d + 6) mod 7 \<and> minutes_or_0 (End w) \<le> minutes_or_0 (Start w) \<and>
             ?m < minutes_or_0 (End w))" if "k \<in> {0..6}" for k w
  proof -
    have e: "week_minute now = ?d * 1440 + ?m" by (simp add: week_minute_def)
    from that have "0 \<le> k" "k \<le> 6" by simp_all
    then show ?thesis
      unfolding window_length_def Let_def e
      by (intro week_offset m d minutes_or_0_bounds)
  qed
  have r: "?d \<in> {0..6}" "(?d + 6) mod 7 \<in> {0..6}" using d by auto
  have "isInDowntime sched now \<longleftrightarrow>
      blocked_today ?m (schedule_get sched (Itoa ?d)) \<or>
      blocked_spill ?m (schedule_get sched (Itoa ((?d + 6) mod 7)))"
    by (auto simp: isInDowntime_def Let_def schedule_get_def)
  also have "\<dots> \<longleftrightarrow> blocked_week_minute sched (week_minute now)"
  proof
    assume "blocked_today ?m (schedule_get sched (Itoa ?d)) \<or>
      blocked_spill ?m (schedule_get sched (Itoa ((?d + 6) mod 7)))"
    then show "blocked_week_minute sched (week_minute now)"
      unfolding blocked_today_iff blocked_spill_iff blocked_week_minute_def
      using off r by blast
  next
    assume "blocked_week_minute sched (week_minute now)"
    then obtain k w where "k \<in> {0..6}" "w \<in> set (schedule_get sched (Itoa k))"
      "(week_minute now - (k * 1440 + minutes_or_0 (Start w))) mod 10080 < window_length w"
      unfolding blocked_week_minute_def by blast
    then show "blocked_today ?m (schedule_get sched (Itoa ?d)) \<or>
      blocked_spill ?m (schedule_get sched (Itoa ((?d + 6) mod 7)))"
      unfolding blocked_today_iff blocked_spill_iff using off by blast
  qed
  finally show ?thesis .
qed

theorem ValidateSchedule_iff_witness:
  "ValidateSchedule [(''1'', [\<lparr>Start = ''22:00'', End = ''06:00''\<rparr>, \<lparr>Start = ''07:00'', End = ''08:30''\<rparr>])] = Inr () \<and>
   disjoint_windows [\<lparr>Start = ''22:00'', End = ''06:00''\<rparr>, \<lparr>Start = ''07:00'', End = ''08:30''\<rparr>]"
proof -
  have "ValidateSchedule [(''1'', [\<lparr>Start = ''22:00'', End = ''06:00''\<rparr>, \<lparr>Start = ''07:00'', End = ''08:30''\<rparr>])] = Inr ()"
    by code_simp
  then show ?thesis using ValidateSchedule_iff
      [of "[(''1'', [\<lparr>Start = ''22:00'', End = ''06:00''\<rparr>, \<lparr>Start = ''07:00'', End = ''08:30''\<rparr>])]"]
    by (simp del: ValidateSchedule.simps)
qed

subsection \<open>Keys that validate and never match\<close>

text \<open>
  A validated day key that is never looked up.  \<open>Atoi\<close> accepts spellings such as \<open>01\<close>
  or \<open>+1\<close>, the lookup uses the canonical spelling of the weekday: the windows under any other
  spelling have no effect on the downtime decision.
\<close>

theorem noncanonical_day_ignored:
  assumes "wf_clock now" "k \<notin> Itoa ` {0..6}"
  shows "isInDowntime ((k, ws) # sched) now \<longleftrightarrow> isInDowntime sched now"
proof -
  have "schedule_get ((k, ws) # sched) (Itoa d) = schedule_get sched (Itoa d)" if "d \<in> {0..6}" for d
    using assms(2) that by (auto simp: schedule_get_def)
  then show ?thesis by (simp add: isInDowntime_week_line [OF assms(1)] blocked_week_minute_def)
qed

theorem noncanonical_day_ignored_witness:
  "ValidateSchedule [(''01'', [\<lparr>Start = ''00:00'', End = ''23:59''\<rparr>])] = Inr () \<and>
   \<not> isInDowntime [(''01'', [\<lparr>Start = ''00:00'', End = ''23:59''\<rparr>])] \<lparr>Weekday = 1, Hour = 12, Minute = 0\<rparr>"
proof -
  let ?now = "\<lparr>Weekday = 1, Hour = 12, Minute = 0\<rparr>"
  have "wf_clock ?now" by (simp add: wf_clock_def)
  moreover have "''01'' \<notin> Itoa ` {0..6}"
  proof
    assume "''01'' \<in> Itoa ` {0..6}"
    then obtain i where i: "i \<in> {0..6}" "Itoa i = ''01''" by auto
    then have "nat i < 10" by auto
    then show False using i nat_str_small [of "nat i"] by (auto simp: Itoa_def)
  qed
  moreover have "\<not> isInDowntime [] ?now" by (simp add: isInDowntime_def Let_def)
  moreover have "ValidateSchedule [(''01'', [\<lparr>Start = ''00:00'', End = ''23:59''\<rparr>])] = Inr ()" by code_simp
  ultimately show ?thesis
    using noncanonical_day_ignored [of ?now "''01''" "[\<lparr>Start = ''00:00'', End = ''23:59''\<rparr>]" "[]"] by simp
qed

end
