(* ===== verification/Base64.thy ===== *)
theory Base64
  imports Strconv
begin

text \<open>
  Package encoding/base64 as the program uses it: the padded standard encoding (proxy
  credentials), the unpadded standard encoding (salt and key of a password hash) and the
  unpadded URL encoding (device tokens, enrollment codes), with the decode-encode round trips.
\<close>

definition std_alphabet :: string where
  "std_alphabet = ''ABCDEFGHIJKLMNOPQRSTUVWXYZabcdefghijklmnopqrstuvwxyz0123456789+/''"

definition url_alphabet :: string where
  "url_alphabet = ''ABCDEFGHIJKLMNOPQRSTUVWXYZabcdefghijklmnopqrstuvwxyz0123456789-_''"

fun index_of :: "char \<Rightarrow> string \<Rightarrow> nat option" where
  "index_of c [] = None"
| "index_of c (x # xs) = (if x = c then Some 0 else map_option Suc (index_of c xs))"

abbreviation b64_char :: "string \<Rightarrow> nat \<Rightarrow> char" where "b64_char al n \<equiv> al ! n"

fun raw_encode :: "string \<Rightarrow> string \<Rightarrow> string" where
  "raw_encode al [] = []"
| "raw_encode al [x] = [al ! (byte_of x div 4), al ! (byte_of x mod 4 * 16)]"
| "raw_encode al [x, y] =
     [al ! (byte_of x div 4), al ! (byte_of x mod 4 * 16 + byte_of y div 16),
      al ! (byte_of y mod 16 * 4)]"
| "raw_encode al (x # y # z # rest) =
     al ! (byte_of x div 4) # al ! (byte_of x mod 4 * 16 + byte_of y div 16) #
     al ! (byte_of y mod 16 * 4 + byte_of z div 64) # al ! (byte_of z mod 64) # raw_encode al rest"

definition pad_encode :: "string \<Rightarrow> string \<Rightarrow> string" where
  "pad_encode al s =
     raw_encode al s @
     (if length s mod 3 = 1 then ''=='' else if length s mod 3 = 2 then ''='' else [])"

definition quantum3 :: "nat \<Rightarrow> nat \<Rightarrow> nat \<Rightarrow> nat \<Rightarrow> string" where
  "quantum3 a b c d = [char_of (a * 4 + b div 16), char_of (b mod 16 * 16 + c div 4),
     char_of (c mod 4 * 64 + d)]"

definition quantum2 :: "nat \<Rightarrow> nat \<Rightarrow> nat \<Rightarrow> string" where
  "quantum2 a b c = [char_of (a * 4 + b div 16), char_of (b mod 16 * 16 + c div 4)]"

definition quantum1 :: "nat \<Rightarrow> nat \<Rightarrow> string" where
  "quantum1 a b = [char_of (a * 4 + b div 16)]"

fun raw_decode :: "string \<Rightarrow> string \<Rightarrow> string option" where
  "raw_decode al [] = Some []"
| "raw_decode al [a] = None"
| "raw_decode al [a, b] =
     (case (index_of a al, index_of b al) of
        (Some i, Some j) \<Rightarrow> Some (quantum1 i j) | _ \<Rightarrow> None)"
| "raw_decode al [a, b, c] =
     (case (index_of a al, index_of b al, index_of c al) of
        (Some i, Some j, Some k) \<Rightarrow> Some (quantum2 i j k) | _ \<Rightarrow> None)"
| "raw_decode al (a # b # c # d # rest) =
     (case (index_of a al, index_of b al, index_of c al, index_of d al) of
        (Some i, Some j, Some k, Some l) \<Rightarrow>
          map_option (\<lambda>s. quantum3 i j k l @ s) (raw_decode al rest)
      | _ \<Rightarrow> None)"

fun pad_decode :: "string \<Rightarrow> string \<Rightarrow> string option" where
  "pad_decode al [] = Some []"
| "pad_decode al [a] = None"
| "pad_decode al [a, b] = None"
| "pad_decode al [a, b, c] = None"
| "pad_decode al (a # b # c # d # rest) =
     (if d = CHR ''='' then
        (if rest \<noteq> [] then None
         else if c = CHR ''='' then raw_decode al [a, b]
         else raw_decode al [a, b, c])
      else (case (index_of a al, index_of b al, index_of c al, index_of d al) of
              (Some i, Some j, Some k, Some l) \<Rightarrow>
                map_option (\<lambda>s. quantum3 i j k l @ s) (pad_decode al rest)
            | _ \<Rightarrow> None))"

text \<open>\<open>DecodeString\<close> skips line breaks wherever they stand.\<close>

definition no_newlines :: "string \<Rightarrow> string" where
  "no_newlines s = filter (\<lambda>c. c \<noteq> LF \<and> c \<noteq> CR) s"

definition StdEncoding_EncodeToString :: "string \<Rightarrow> string" where
  "StdEncoding_EncodeToString s = pad_encode std_alphabet s"

definition StdEncoding_DecodeString :: "string \<Rightarrow> string option" where
  "StdEncoding_DecodeString s = pad_decode std_alphabet (no_newlines s)"

definition RawStdEncoding_EncodeToString :: "string \<Rightarrow> string" where
  "RawStdEncoding_EncodeToString s = raw_encode std_alphabet s"

definition RawStdEncoding_DecodeString :: "string \<Rightarrow> string option" where
  "RawStdEncoding_DecodeString s = raw_decode std_alphabet (no_newlines s)"

definition RawURLEncoding_EncodeToString :: "string \<Rightarrow> string" where
  "RawURLEncoding_EncodeToString s = raw_encode url_alphabet s"

subsection \<open>Round trips\<close>

lemma byte_of_less [simp]: "byte_of c < 256"
  by (metis of_char_mod_256 mod_less_divisor zero_less_numeral)

lemma index_of_nth: "distinct al \<Longrightarrow> n < length al \<Longrightarrow> index_of (al ! n) al = Some n"
proof (induction al arbitrary: n)
  case (Cons a al)
  then show ?case by (cases n) auto
qed simp

lemma index_of_mem: "index_of c al = Some n \<Longrightarrow> c \<in> set al"
  by (induction al arbitrary: n) (auto split: if_splits)

lemma std_alphabet_ok: "distinct std_alphabet" "length std_alphabet = 64"
  by (simp_all add: std_alphabet_def)

lemma std_index [simp]: "n < 64 \<Longrightarrow> index_of (std_alphabet ! n) std_alphabet = Some n"
  using index_of_nth std_alphabet_ok by metis

lemma byte_splits:
  fixes x y z :: nat
  assumes "x < 256" "y < 256" "z < 256"
  shows "x div 4 < 64" "x mod 4 * 16 + y div 16 < 64" "x mod 4 * 16 < 64"
    "y mod 16 * 4 + z div 64 < 64" "y mod 16 * 4 < 64" "z mod 64 < 64"
    "x div 4 * 4 + (x mod 4 * 16 + y div 16) div 16 = x"
    "x div 4 * 4 + (x mod 4 * 16) div 16 = x"
    "(x mod 4 * 16 + y div 16) mod 16 * 16 + (y mod 16 * 4 + z div 64) div 4 = y"
    "(x mod 4 * 16 + y div 16) mod 16 * 16 + (y mod 16 * 4) div 4 = y"
    "(y mod 16 * 4 + z div 64) mod 4 * 64 + z mod 64 = z"
proof -
  have y: "y div 16 < 16" and z: "z div 64 < 4" using assms by linarith+
  show "x div 4 < 64" "x mod 4 * 16 + y div 16 < 64" "x mod 4 * 16 < 64"
    "y mod 16 * 4 + z div 64 < 64" "y mod 16 * 4 < 64" "z mod 64 < 64"
    using assms by linarith+
  show "x div 4 * 4 + (x mod 4 * 16 + y div 16) div 16 = x" using y by simp
  show "x div 4 * 4 + (x mod 4 * 16) div 16 = x" by simp
  show "(x mod 4 * 16 + y div 16) mod 16 * 16 + (y mod 16 * 4 + z div 64) div 4 = y"
    using y z by simp
  show "(x mod 4 * 16 + y div 16) mod 16 * 16 + (y mod 16 * 4) div 4 = y" using y by simp
  show "(y mod 16 * 4 + z div 64) mod 4 * 64 + z mod 64 = z" using z by simp
qed

lemmas quantum_splits = byte_splits [OF byte_of_less byte_of_less byte_of_less]

lemma quantum_encode:
  "quantum3 (byte_of x div 4) (byte_of x mod 4 * 16 + byte_of y div 16)
     (byte_of y mod 16 * 4 + byte_of z div 64) (byte_of z mod 64) = [x, y, z]"
  "quantum2 (byte_of x div 4) (byte_of x mod 4 * 16 + byte_of y div 16) (byte_of y mod 16 * 4) = [x, y]"
  "quantum1 (byte_of x div 4) (byte_of x mod 4 * 16) = [x]"
  using byte_splits [OF byte_of_less [of x] byte_of_less [of y] byte_of_less [of z]]
  unfolding quantum3_def quantum2_def quantum1_def by simp_all

lemma raw_roundtrip: "raw_decode std_alphabet (raw_encode std_alphabet s) = Some s"
  by (induction std_alphabet s rule: raw_encode.induct)
     (simp_all add: quantum_splits quantum_encode)

lemma std_no_pad: "n < 64 \<Longrightarrow> std_alphabet ! n \<noteq> CHR ''=''"
proof -
  assume "n < 64"
  then have "std_alphabet ! n \<in> set std_alphabet" by (simp add: std_alphabet_ok)
  moreover have "CHR ''='' \<notin> set std_alphabet" by (simp add: std_alphabet_def)
  ultimately show ?thesis by metis
qed

lemma pad_roundtrip: "pad_decode std_alphabet (pad_encode std_alphabet s) = Some s"
proof -
  have "pad_decode al (pad_encode al s) = Some s" if "al = std_alphabet" for al
    using that
    by (induction al s rule: raw_encode.induct)
       (auto simp: pad_encode_def quantum_splits quantum_encode std_no_pad split: if_splits)
  then show ?thesis by simp
qed

lemma raw_encode_set:
  assumes "length al = 64" "c \<in> set (raw_encode al s)"
  shows "c \<in> set al"
  using assms
  by (induction al s rule: raw_encode.induct) (auto simp: quantum_splits)

lemma std_clean: "c \<in> set (raw_encode std_alphabet s) \<Longrightarrow> c \<in> set std_alphabet"
  using raw_encode_set std_alphabet_ok by blast

lemma std_alphabet_no_special:
  "LF \<notin> set std_alphabet" "CR \<notin> set std_alphabet" "CHR ''$'' \<notin> set std_alphabet"
  by (simp_all add: std_alphabet_def LF_def CR_def char_of_def)

lemma newline_not_pad: "LF \<noteq> CHR ''=''" "CR \<noteq> CHR ''=''"
  by (simp_all add: LF_def CR_def char_of_def)

lemma no_newlines_id: "LF \<notin> set s \<Longrightarrow> CR \<notin> set s \<Longrightarrow> no_newlines s = s"
  unfolding no_newlines_def by (rule filter_True) auto

lemma RawStd_roundtrip:
  "RawStdEncoding_DecodeString (RawStdEncoding_EncodeToString s) = Some s"
proof -
  have "LF \<notin> set (raw_encode std_alphabet s)" "CR \<notin> set (raw_encode std_alphabet s)"
    using std_clean std_alphabet_no_special(1,2) by blast+
  then have "no_newlines (raw_encode std_alphabet s) = raw_encode std_alphabet s"
    by (rule no_newlines_id)
  then show ?thesis
    unfolding RawStdEncoding_DecodeString_def RawStdEncoding_EncodeToString_def
    by (simp only: raw_roundtrip)
qed

lemma RawStd_no_dollar: "CHR ''$'' \<notin> set (RawStdEncoding_EncodeToString s)"
  unfolding RawStdEncoding_EncodeToString_def using std_clean std_alphabet_no_special(3) by blast

lemma pad_encode_set: "c \<in> set (pad_encode std_alphabet s) \<Longrightarrow> c \<in> set std_alphabet \<or> c = CHR ''=''"
  using std_clean [of c s] unfolding pad_encode_def by (auto split: if_splits)

lemma Std_roundtrip: "StdEncoding_DecodeString (StdEncoding_EncodeToString s) = Some s"
proof -
  have "LF \<notin> set (pad_encode std_alphabet s)" "CR \<notin> set (pad_encode std_alphabet s)"
    using pad_encode_set std_alphabet_no_special(1,2) newline_not_pad by blast+
  then have "no_newlines (pad_encode std_alphabet s) = pad_encode std_alphabet s"
    by (rule no_newlines_id)
  then show ?thesis
    unfolding StdEncoding_DecodeString_def StdEncoding_EncodeToString_def
    by (simp only: pad_roundtrip)
qed

lemma url_index [simp]: "n < 64 \<Longrightarrow> index_of (url_alphabet ! n) url_alphabet = Some n"
proof -
  have "distinct url_alphabet" "length url_alphabet = 64" by (simp_all add: url_alphabet_def)
  then show "n < 64 \<Longrightarrow> index_of (url_alphabet ! n) url_alphabet = Some n" using index_of_nth by metis
qed

lemma url_roundtrip: "raw_decode url_alphabet (raw_encode url_alphabet s) = Some s"
  by (induction url_alphabet s rule: raw_encode.induct)
     (simp_all add: quantum_splits quantum_encode)

lemma RawURL_inj: "RawURLEncoding_EncodeToString a = RawURLEncoding_EncodeToString b \<Longrightarrow> a = b"
  unfolding RawURLEncoding_EncodeToString_def using url_roundtrip by (metis option.inject)

lemma RawURL_nonempty: "a \<noteq> [] \<Longrightarrow> RawURLEncoding_EncodeToString a \<noteq> []"
  using RawURL_inj [of a "[]"] by (auto simp: RawURLEncoding_EncodeToString_def)

end
