(* ===== verification/Password.thy ===== *)
theory Password
  imports Base64
begin

text \<open>
  Password hashes and proxy credentials (the second half of src/pkg/userdb/userdb.go):
  \<open>hashPassword\<close>, \<open>verifyPassword\<close>, \<open>needsRehash\<close> and \<open>parseBasicAuth\<close>.  The key derivation
  \<open>argon2.IDKey\<close> is a third-party function and a parameter \<open>idkey\<close> (password, salt, time,
  memory, threads, key length); the random salt is an argument, \<open>None\<close> when \<open>rand.Read\<close> fails.
\<close>

type_synonym idkey = "string \<Rightarrow> string \<Rightarrow> nat \<Rightarrow> nat \<Rightarrow> nat \<Rightarrow> nat \<Rightarrow> string"

definition argonTime :: nat where "argonTime = 1"
definition argonMemory :: nat where "argonMemory = 16 * 1024"
definition argonThreads :: nat where "argonThreads = 4"
definition argonKeyLen :: nat where "argonKeyLen = 32"
definition argonSaltLen :: nat where "argonSaltLen = 16"

lemmas argon_defs = argonTime_def argonMemory_def argonThreads_def argonKeyLen_def argonSaltLen_def

text \<open>The parameter field \<open>m=..,t=..,p=..\<close> that both \<open>hashPassword\<close> and \<open>needsRehash\<close> print.\<close>

definition argon_params :: string where
  "argon_params = ''m='' @ nat_str argonMemory @ '',t='' @ nat_str argonTime @ '',p='' @
     nat_str argonThreads"

definition hashPassword :: "idkey \<Rightarrow> string option \<Rightarrow> string \<Rightarrow> string option" where
  "hashPassword idkey salt password =
     (case salt of
        None \<Rightarrow> None
      | Some s \<Rightarrow>
          let hash = idkey password s argonTime argonMemory argonThreads argonKeyLen
          in Some (''$argon2id$v=19$'' @ argon_params @ ''$'' @ RawStdEncoding_EncodeToString s @
               ''$'' @ RawStdEncoding_EncodeToString hash))"

text \<open>
  \<open>fmt.Sscanf(s, "m=%d,t=%d,p=%d", ...)\<close>: a literal byte must match; \<open>%d\<close> into an unsigned
  variable skips blanks (a line break is an error), takes a non-empty run of digits and checks
  the width of the variable.  Input after the last verb is not an error.
\<close>

fun scan_literal :: "string \<Rightarrow> string \<Rightarrow> string option" where
  "scan_literal [] s = Some s"
| "scan_literal (c # cs) [] = None"
| "scan_literal (c # cs) (x # xs) = (if c = x then scan_literal cs xs else None)"

definition scan_uint :: "nat \<Rightarrow> string \<Rightarrow> (nat \<times> string) option" where
  "scan_uint bits s =
     (let s' = dropWhile (\<lambda>c. is_space c \<and> c \<noteq> LF) s;
          ds = takeWhile is_digit s'
      in if ds = [] \<or> digits_val ds \<ge> 2 ^ bits then None
         else Some (digits_val ds, dropWhile is_digit s'))"

definition scan_params :: "string \<Rightarrow> (nat \<times> nat \<times> nat) option" where
  "scan_params s =
     Option.bind (scan_literal ''m='' s) (\<lambda>s.
     Option.bind (scan_uint 32 s) (\<lambda>(memory, s).
     Option.bind (scan_literal '',t='' s) (\<lambda>s.
     Option.bind (scan_uint 32 s) (\<lambda>(time, s).
     Option.bind (scan_literal '',p='' s) (\<lambda>s.
     Option.bind (scan_uint 8 s) (\<lambda>(threads, s).
     Some (memory, time, threads)))))))"

definition verifyPassword :: "idkey \<Rightarrow> string \<Rightarrow> string \<Rightarrow> bool" where
  "verifyPassword idkey password encoded =
     (let parts = Split (CHR ''$'') encoded
      in if length parts \<noteq> 6 \<or> parts ! 1 \<noteq> ''argon2id'' then False
         else (case scan_params (parts ! 3) of
                 None \<Rightarrow> False
               | Some (memory, time, threads) \<Rightarrow>
                   (case RawStdEncoding_DecodeString (parts ! 4) of
                      None \<Rightarrow> False
                    | Some salt \<Rightarrow>
                        (case RawStdEncoding_DecodeString (parts ! 5) of
                           None \<Rightarrow> False
                         | Some expectedHash \<Rightarrow>
                             idkey password salt time memory threads (length expectedHash)
                               = expectedHash))))"

definition needsRehash :: "string \<Rightarrow> bool" where
  "needsRehash encoded =
     (let parts = Split (CHR ''$'') encoded
      in if length parts \<noteq> 6 then True else parts ! 3 \<noteq> argon_params)"

definition parseBasicAuth :: "string \<Rightarrow> (string \<times> string) option" where
  "parseBasicAuth header =
     (if \<not> HasPrefix header ''Basic '' then None
      else (case StdEncoding_DecodeString (drop 6 header) of
              None \<Rightarrow> None
            | Some decoded \<Rightarrow>
                (case SplitN2 (CHR '':'') decoded of
                   [user, pass] \<Rightarrow> Some (user, pass)
                 | _ \<Rightarrow> None)))"

subsection \<open>Lemmas\<close>

lemma scan_literal_append [simp]: "scan_literal p (p @ s) = Some s"
  by (induction p) auto

lemma digit_not_space: "is_digit c \<Longrightarrow> \<not> is_space c"
  by (auto simp: is_digit_def is_space_def)

lemma scan_uint_nat_str:
  assumes "n < 2 ^ bits" "rest = [] \<or> \<not> is_digit (hd rest)"
  shows "scan_uint bits (nat_str n @ rest) = Some (n, rest)"
proof -
  have d: "\<forall>c \<in> set (nat_str n). is_digit c" using nat_str_digits [of n] by (simp add: list_all_iff)
  have "dropWhile (\<lambda>c. is_space c \<and> c \<noteq> LF) (nat_str n @ rest) = nat_str n @ rest"
    using d digit_not_space nat_str_neq_Nil [of n]
    by (metis (mono_tags, lifting) append_is_Nil_conv dropWhile_eq_self_iff hd_append2 hd_in_set)
  moreover have "takeWhile is_digit (nat_str n @ rest) = nat_str n"
    using d assms(2) by (cases rest) (auto simp: takeWhile_append)
  moreover have "dropWhile is_digit (nat_str n @ rest) = rest"
    using d assms(2) by (cases rest) (auto simp: dropWhile_append)
  ultimately show ?thesis using assms(1) by (simp add: scan_uint_def Let_def)
qed

lemma scan_argon_params: "scan_params argon_params = Some (argonMemory, argonTime, argonThreads)"
  unfolding scan_params_def argon_params_def
  by (simp add: scan_uint_nat_str scan_uint_nat_str [where rest = "[]", simplified] argon_defs)

lemma nat_str_no_dollar: "CHR ''$'' \<notin> set (nat_str n)"
  using nat_str_digits [of n] by (auto simp: list_all_iff is_digit_def)

lemma argon_params_no_dollar: "CHR ''$'' \<notin> set argon_params"
  unfolding argon_params_def using nat_str_no_dollar by simp

lemma split_hash:
  assumes "CHR ''$'' \<notin> set a" "CHR ''$'' \<notin> set b" "CHR ''$'' \<notin> set c"
  shows "Split (CHR ''$'') (''$argon2id$v=19$'' @ a @ ''$'' @ b @ ''$'' @ c) =
         [[], ''argon2id'', ''v=19'', a, b, c]"
proof -
  have "''$argon2id$v=19$'' @ a @ ''$'' @ b @ ''$'' @ c =
        [] @ CHR ''$'' # ''argon2id'' @ CHR ''$'' # ''v=19'' @ CHR ''$'' # a @ CHR ''$'' # b @ CHR ''$'' # c"
    by simp
  then show ?thesis using assms by (simp add: Split_append Split_no_sep)
qed

lemma hash_parts:
  "hashPassword idkey (Some salt) pw = Some h \<Longrightarrow>
   Split (CHR ''$'') h = [[], ''argon2id'', ''v=19'', argon_params, RawStdEncoding_EncodeToString salt,
     RawStdEncoding_EncodeToString (idkey pw salt argonTime argonMemory argonThreads argonKeyLen)]"
  using split_hash argon_params_no_dollar RawStd_no_dollar by (auto simp: hashPassword_def Let_def)

lemma hash_verify_iff:
  assumes "hashPassword idkey (Some salt) pw = Some h"
    and "\<And>p s. length (idkey p s argonTime argonMemory argonThreads argonKeyLen) = argonKeyLen"
  shows "verifyPassword idkey pw' h \<longleftrightarrow>
     idkey pw' salt argonTime argonMemory argonThreads argonKeyLen =
     idkey pw salt argonTime argonMemory argonThreads argonKeyLen"
  using hash_parts [OF assms(1)] assms(2)
  by (simp add: verifyPassword_def Let_def scan_argon_params RawStd_roundtrip)

lemma hash_no_rehash: "hashPassword idkey (Some salt) pw = Some h \<Longrightarrow> \<not> needsRehash h"
  using hash_parts by (simp add: needsRehash_def)

lemma parseBasicAuth_user: "parseBasicAuth h = Some (u, p) \<Longrightarrow> CHR '':'' \<notin> set u"
  using SplitN2_first
  by (fastforce simp: parseBasicAuth_def split: if_splits option.splits list.splits)

lemma parseBasicAuth_roundtrip:
  assumes "CHR '':'' \<notin> set u"
  shows "parseBasicAuth (''Basic '' @ StdEncoding_EncodeToString (u @ '':'' @ p)) = Some (u, p)"
proof -
  have "parseBasicAuth (''Basic '' @ e) = (case StdEncoding_DecodeString e of
              None \<Rightarrow> None
            | Some decoded \<Rightarrow>
                (case SplitN2 (CHR '':'') decoded of
                   [user, pass] \<Rightarrow> Some (user, pass)
                 | _ \<Rightarrow> None))" for e
    by (simp add: parseBasicAuth_def HasPrefix_def)
  then show ?thesis using SplitN2_append [OF assms, of p] by (simp only: Std_roundtrip) simp
qed

lemma parseBasicAuth_empty [simp]: "parseBasicAuth [] = None"
  by (simp add: parseBasicAuth_def HasPrefix_def)

text \<open>
  A stored hash round-trips: whatever the key derivation returns for the 32-byte key
  length, the encoded hash verifies exactly the passwords with the same derived key (in
  particular the hashed one) and is not considered outdated.
\<close>

theorem password_hash_roundtrip:
  assumes "hashPassword idkey (Some salt) pw = Some h"
    and "\<And>p s. length (idkey p s argonTime argonMemory argonThreads argonKeyLen) = argonKeyLen"
  shows "verifyPassword idkey pw h \<and> \<not> needsRehash h \<and>
     (verifyPassword idkey pw' h \<longleftrightarrow>
        idkey pw' salt argonTime argonMemory argonThreads argonKeyLen =
        idkey pw salt argonTime argonMemory argonThreads argonKeyLen)"
  using hash_verify_iff [OF assms] hash_no_rehash [OF assms(1)] by blast

theorem password_hash_roundtrip_witness:
  "\<exists>h. hashPassword (\<lambda>p s t m th k. take k (p @ replicate k (CHR ''x''))) (Some ''salt'') ''pw'' = Some h \<and>
     \<not> verifyPassword (\<lambda>p s t m th k. take k (p @ replicate k (CHR ''x''))) ''guess'' h"
proof -
  let ?k = "\<lambda>p s t m th k. take k (p @ replicate k (CHR ''x''))"
  obtain h where h: "hashPassword ?k (Some ''salt'') ''pw'' = Some h" by (simp add: hashPassword_def Let_def)
  have len: "length (?k p s argonTime argonMemory argonThreads argonKeyLen) = argonKeyLen" for p s :: string
    by auto
  have ne: "?k ''guess'' ''salt'' argonTime argonMemory argonThreads argonKeyLen \<noteq>
      ?k ''pw'' ''salt'' argonTime argonMemory argonThreads argonKeyLen"
    by (simp add: argonKeyLen_def)
  have "\<not> verifyPassword ?k ''guess'' h"
    using password_hash_roundtrip [OF h len, of "''guess''"] ne by blast
  then show ?thesis using h by blast
qed

text \<open>
  Basic credentials round-trip: the header a client builds from a colon-free user name
  and any password parses back to exactly that pair; and every header that parses yields a
  colon-free user name.
\<close>

theorem parseBasicAuth_exact:
  "(CHR '':'' \<notin> set u \<longrightarrow>
      parseBasicAuth (''Basic '' @ StdEncoding_EncodeToString (u @ '':'' @ p)) = Some (u, p)) \<and>
   (parseBasicAuth h = Some (v, q) \<longrightarrow> CHR '':'' \<notin> set v)"
  using parseBasicAuth_roundtrip parseBasicAuth_user by blast

theorem parseBasicAuth_exact_witness:
  "parseBasicAuth (''Basic '' @ StdEncoding_EncodeToString (''kid'' @ '':'' @ ''a:b'')) = Some (''kid'', ''a:b'')"
  using parseBasicAuth_exact [of "''kid''" "''a:b''"] by simp

end
