(* ===== verification/UserDB.thy ===== *)
theory UserDB
  imports Downtime Password "HOL-Library.List_Lexorder"
begin

text \<open>
  The user database (src/pkg/userdb/userdb.go): the SQLite table \<open>users\<close>, the in-memory caches
  in front of it and every operation of type \<open>DB\<close>.

  A table is the list of its rows in rowid order.  Every SQL statement consumes one entry of
  \<open>sql_faults\<close>; \<open>True\<close> makes the driver report an error, so each \<open>if err != nil\<close> branch of the
  code is a branch of the model (an exhausted list means no further faults).  A text column
  holding an encoded value (the JSON of a schedule, an RFC 3339 time stamp) is modelled by what
  decoding it gives: \<open>ColEmpty\<close> for \<open>''\<close>, \<open>ColText v\<close> for a text that decodes to \<open>v\<close>, \<open>ColBad\<close> for
  one the decoder rejects.  The clock readings of one operation are its argument \<open>now\<close>; the local
  wall clock of an instant is the parameter \<open>loc\<close> (the process time zone); the hash functions
  are parameters (record \<open>crypto\<close>).
\<close>

subsection \<open>State\<close>

datatype 'a text_col = ColEmpty | ColText 'a | ColBad

text \<open>
  \<open>until.UTC().Format(time.RFC3339)\<close> drops the fraction of a second; a year outside 0..9999
  gives a text \<open>time.Parse\<close> rejects.
\<close>

definition rfc3339_col :: "time \<Rightarrow> time text_col" where
  "rfc3339_col t =
     (let s = t div second
      in if -62167219200 \<le> s \<and> s \<le> 253402300799 then ColText (s * second) else ColBad)"

record crypto =
  c_idkey :: idkey
  c_sha256 :: "string \<Rightarrow> string"

datatype db_error =
    ErrNoCredentials
  | ErrMalformedAuth
  | ErrUnknownUser string
  | ErrWrongPassword string
  | ErrUserExists string
  | ErrNoPortAvailable
  | ErrUnknownDevice
  | ErrEmptyCredentials
  | ErrHashing
  | ErrSql string

record cachedAuth =
  passwordSHA256 :: string
  validUntil :: time

record DNSEntry =
  dns_Server :: string
  dns_Protocol :: string

record user_row =
  row_username :: string
  row_password_hash :: string
  row_created_at :: time
  row_dns_server :: string
  row_dns_protocol :: string
  row_port :: int
  row_enabled :: int
  row_schedule :: "DowntimeSchedule text_col"
  row_override_until :: "time text_col"
  row_downtime_until :: "time text_col"

record device_row =
  dev_id :: string
  dev_token_sha256 :: string
  dev_name :: string
  dev_created_at :: time
  dev_last_seen_at :: "time option"

record DB =
  users_tbl :: "user_row list"
  users_cols :: "string list"
  device_tbl :: "device_row list"
  sql_faults :: "bool list"
  auth_cache :: "string \<rightharpoonup> cachedAuth"
  dnsCache :: "string \<rightharpoonup> DNSEntry"
  downtimeCache :: "string \<rightharpoonup> DowntimeSchedule"
  overrideCache :: "string \<rightharpoonup> time"
  downtimeUntilCache :: "string \<rightharpoonup> time"
  enabledCache :: "string \<rightharpoonup> bool"

record UserInfo =
  ui_Username :: string
  ui_CreatedAt :: time
  ui_DNSServer :: string
  ui_DNSProtocol :: string
  ui_Port :: int
  ui_Enabled :: bool
  ui_DowntimeSchedule :: DowntimeSchedule
  ui_DowntimeOverrideUntil :: "time text_col"
  ui_DowntimeUntil :: "time text_col"

definition cacheTTL :: duration where "cacheTTL = 5 * minute"

subsection \<open>SQL statements\<close>

definition sql_fault :: "DB \<Rightarrow> bool \<times> DB" where
  "sql_fault d =
     (case sql_faults d of [] \<Rightarrow> (False, d) | f # fs \<Rightarrow> (f, d\<lparr>sql_faults := fs\<rparr>))"

definition find_user :: "string \<Rightarrow> DB \<Rightarrow> user_row option" where
  "find_user u d = find (\<lambda>r. row_username r = u) (users_tbl d)"

text \<open>
  \<open>UPDATE users SET ... WHERE username = ?\<close>: \<open>None\<close> when the driver reports an error, else the
  number of rows affected.
\<close>

definition sql_update_user ::
  "string \<Rightarrow> (user_row \<Rightarrow> user_row) \<Rightarrow> DB \<Rightarrow> nat option \<times> DB" where
  "sql_update_user u f d =
     (case sql_fault d of
        (True, d) \<Rightarrow> (None, d)
      | (False, d) \<Rightarrow>
          (Some (length (filter (\<lambda>r. row_username r = u) (users_tbl d))),
           d\<lparr>users_tbl := map (\<lambda>r. if row_username r = u then f r else r) (users_tbl d)\<rparr>))"

subsection \<open>Opening: schema migration and cache loading\<close>

definition sql_exec :: "string \<Rightarrow> DB \<Rightarrow> db_error + DB" where
  "sql_exec msg d = (case sql_fault d of (True, d) \<Rightarrow> Inl (ErrSql msg) | (False, d) \<Rightarrow> Inr d)"

abbreviation bind_db :: "db_error + DB \<Rightarrow> (DB \<Rightarrow> db_error + DB) \<Rightarrow> db_error + DB" where
  "bind_db r k \<equiv> (case r of Inl e \<Rightarrow> Inl e | Inr d \<Rightarrow> k d)"

text \<open>\<open>ALTER TABLE users ADD COLUMN c ... DEFAULT v\<close> gives every row the default.\<close>

definition add_column :: "string \<Rightarrow> (user_row \<Rightarrow> user_row) \<Rightarrow> DB \<Rightarrow> db_error + DB" where
  "add_column c dflt d =
     (if c \<in> set (users_cols d) then Inr d
      else bind_db (sql_exec (''adding '' @ c @ '' column'') d)
             (\<lambda>d. Inr (d\<lparr>users_cols := users_cols d @ [c], users_tbl := map dflt (users_tbl d)\<rparr>)))"

definition DB_migrate :: "DB \<Rightarrow> db_error + DB" where
  "DB_migrate d =
     bind_db (sql_exec ''PRAGMA table_info'' d) (\<lambda>d.
     bind_db (add_column ''dns_server'' (\<lambda>r. r\<lparr>row_dns_server := []\<rparr>) d) (\<lambda>d.
     bind_db (add_column ''dns_protocol'' (\<lambda>r. r\<lparr>row_dns_protocol := []\<rparr>) d) (\<lambda>d.
     bind_db (add_column ''port'' (\<lambda>r. r\<lparr>row_port := 0\<rparr>) d) (\<lambda>d.
     bind_db (add_column ''enabled'' (\<lambda>r. r\<lparr>row_enabled := 1\<rparr>) d) (\<lambda>d.
     bind_db (add_column ''downtime_schedule'' (\<lambda>r. r\<lparr>row_schedule := ColEmpty\<rparr>) d) (\<lambda>d.
     bind_db (add_column ''downtime_override_until'' (\<lambda>r. r\<lparr>row_override_until := ColEmpty\<rparr>) d) (\<lambda>d.
     add_column ''downtime_until'' (\<lambda>r. r\<lparr>row_downtime_until := ColEmpty\<rparr>) d)))))))"

definition DB_loadDNSCache :: "DB \<Rightarrow> db_error + DB" where
  "DB_loadDNSCache d =
     bind_db (sql_exec ''loading DNS cache'' d) (\<lambda>d.
       Inr (d\<lparr>dnsCache := foldl (\<lambda>m r.
              if row_dns_server r = [] then m
              else m(row_username r \<mapsto> \<lparr>dns_Server = row_dns_server r, dns_Protocol = row_dns_protocol r\<rparr>))
            (dnsCache d) (users_tbl d)\<rparr>))"

definition DB_loadDowntimeCache :: "DB \<Rightarrow> db_error + DB" where
  "DB_loadDowntimeCache d =
     bind_db (sql_exec ''loading downtime cache'' d) (\<lambda>d.
       Inr (d\<lparr>downtimeCache := foldl (\<lambda>m r.
              case row_schedule r of ColText s \<Rightarrow> m(row_username r \<mapsto> s) | _ \<Rightarrow> m)
            (downtimeCache d) (users_tbl d)\<rparr>))"

definition load_future :: "(user_row \<Rightarrow> time text_col) \<Rightarrow> time \<Rightarrow> (string \<rightharpoonup> time) \<Rightarrow> user_row \<Rightarrow> (string \<rightharpoonup> time)" where
  "load_future col now m r =
     (case col r of ColText t \<Rightarrow> if now < t then m(row_username r \<mapsto> t) else m | _ \<Rightarrow> m)"

definition DB_loadOverrideCache :: "time \<Rightarrow> DB \<Rightarrow> db_error + DB" where
  "DB_loadOverrideCache now d =
     bind_db (sql_exec ''loading override cache'' d) (\<lambda>d.
       Inr (d\<lparr>overrideCache :=
         foldl (load_future row_override_until now) (overrideCache d) (users_tbl d)\<rparr>))"

definition DB_loadDowntimeUntilCache :: "time \<Rightarrow> DB \<Rightarrow> db_error + DB" where
  "DB_loadDowntimeUntilCache now d =
     bind_db (sql_exec ''loading downtime-until cache'' d) (\<lambda>d.
       Inr (d\<lparr>downtimeUntilCache :=
         foldl (load_future row_downtime_until now) (downtimeUntilCache d) (users_tbl d)\<rparr>))"

definition DB_loadEnabledCache :: "DB \<Rightarrow> db_error + DB" where
  "DB_loadEnabledCache d =
     bind_db (sql_exec ''loading enabled cache'' d) (\<lambda>d.
       Inr (d\<lparr>enabledCache :=
         foldl (\<lambda>m r. m(row_username r \<mapsto> (row_enabled r \<noteq> 0))) (enabledCache d) (users_tbl d)\<rparr>))"

text \<open>
  \<open>Open\<close> on a database file: the persisted tables of \<open>disk\<close>, empty caches, then the statements
  in the code's order.  (\<open>CREATE TABLE IF NOT EXISTS\<close> leaves an existing table alone.)
\<close>

definition fresh_db :: "DB \<Rightarrow> DB" where
  "fresh_db disk = disk\<lparr>auth_cache := Map.empty, dnsCache := Map.empty, downtimeCache := Map.empty,
     overrideCache := Map.empty, downtimeUntilCache := Map.empty, enabledCache := Map.empty\<rparr>"

definition DB_Open :: "time \<Rightarrow> DB \<Rightarrow> db_error + DB" where
  "DB_Open now disk =
     bind_db (sql_exec ''creating users table'' (fresh_db disk)) (\<lambda>d.
     bind_db (sql_exec ''creating device_tokens table'' d) (\<lambda>d.
     bind_db (DB_migrate d) (\<lambda>d.
     bind_db (DB_loadDNSCache d) (\<lambda>d.
     bind_db (DB_loadDowntimeCache d) (\<lambda>d.
     bind_db (DB_loadOverrideCache now d) (\<lambda>d.
     bind_db (DB_loadDowntimeUntilCache now d) (\<lambda>d.
     DB_loadEnabledCache d)))))))"

subsection \<open>Per-user settings\<close>

definition DB_GetDNS :: "string \<Rightarrow> DB \<Rightarrow> string \<times> string" where
  "DB_GetDNS u d =
     (case dnsCache d u of None \<Rightarrow> ([], []) | Some e \<Rightarrow> (dns_Server e, dns_Protocol e))"

definition DB_UpdateDNS :: "string \<Rightarrow> string \<Rightarrow> string \<Rightarrow> DB \<Rightarrow> (db_error + unit) \<times> DB" where
  "DB_UpdateDNS u server protocol d =
     (case sql_update_user u (\<lambda>r. r\<lparr>row_dns_server := server, row_dns_protocol := protocol\<rparr>) d of
        (None, d) \<Rightarrow> (Inl (ErrSql ''updating DNS config''), d)
      | (Some n, d) \<Rightarrow>
          if n = 0 then (Inl (ErrUnknownUser u), d)
          else (Inr (), d\<lparr>dnsCache :=
                  (if server = [] then (dnsCache d)(u := None)
                   else (dnsCache d)(u \<mapsto> \<lparr>dns_Server = server, dns_Protocol = protocol\<rparr>))\<rparr>))"

definition DB_GetDowntime :: "string \<Rightarrow> DB \<Rightarrow> DowntimeSchedule" where
  "DB_GetDowntime u d = (case downtimeCache d u of None \<Rightarrow> [] | Some s \<Rightarrow> s)"

definition DB_UpdateDowntime :: "string \<Rightarrow> DowntimeSchedule \<Rightarrow> DB \<Rightarrow> (db_error + unit) \<times> DB" where
  "DB_UpdateDowntime u schedule d =
     (let raw = (if length schedule > 0 then ColText schedule else ColEmpty)
      in case sql_update_user u (\<lambda>r. r\<lparr>row_schedule := raw\<rparr>) d of
        (None, d) \<Rightarrow> (Inl (ErrSql ''updating downtime schedule''), d)
      | (Some n, d) \<Rightarrow>
          if n = 0 then (Inl (ErrUnknownUser u), d)
          else (Inr (), d\<lparr>downtimeCache :=
                  (if length schedule = 0 then (downtimeCache d)(u := None)
                   else (downtimeCache d)(u \<mapsto> schedule))\<rparr>))"

definition DB_GetDowntimeOverride :: "string \<Rightarrow> DB \<Rightarrow> time" where
  "DB_GetDowntimeOverride u d = (case overrideCache d u of None \<Rightarrow> zero_time | Some t \<Rightarrow> t)"

definition DB_SetDowntimeOverride :: "string \<Rightarrow> time \<Rightarrow> DB \<Rightarrow> (db_error + unit) \<times> DB" where
  "DB_SetDowntimeOverride u until d =
     (case sql_update_user u (\<lambda>r. r\<lparr>row_override_until := rfc3339_col until\<rparr>) d of
        (None, d) \<Rightarrow> (Inl (ErrSql ''setting downtime override''), d)
      | (Some n, d) \<Rightarrow>
          if n = 0 then (Inl (ErrUnknownUser u), d)
          else (Inr (), d\<lparr>overrideCache := (overrideCache d)(u \<mapsto> until)\<rparr>))"

definition DB_ClearDowntimeOverride :: "string \<Rightarrow> DB \<Rightarrow> (db_error + unit) \<times> DB" where
  "DB_ClearDowntimeOverride u d =
     (case sql_update_user u (\<lambda>r. r\<lparr>row_override_until := ColEmpty\<rparr>) d of
        (None, d) \<Rightarrow> (Inl (ErrSql ''clearing downtime override''), d)
      | (Some n, d) \<Rightarrow>
          if n = 0 then (Inl (ErrUnknownUser u), d)
          else (Inr (), d\<lparr>overrideCache := (overrideCache d)(u := None)\<rparr>))"

definition DB_GetDowntimeUntil :: "string \<Rightarrow> DB \<Rightarrow> time" where
  "DB_GetDowntimeUntil u d = (case downtimeUntilCache d u of None \<Rightarrow> zero_time | Some t \<Rightarrow> t)"

definition DB_SetDowntimeUntil :: "string \<Rightarrow> time \<Rightarrow> DB \<Rightarrow> (db_error + unit) \<times> DB" where
  "DB_SetDowntimeUntil u until d =
     (case sql_update_user u (\<lambda>r. r\<lparr>row_downtime_until := rfc3339_col until\<rparr>) d of
        (None, d) \<Rightarrow> (Inl (ErrSql ''setting downtime_until''), d)
      | (Some n, d) \<Rightarrow>
          if n = 0 then (Inl (ErrUnknownUser u), d)
          else (Inr (), d\<lparr>downtimeUntilCache := (downtimeUntilCache d)(u \<mapsto> until)\<rparr>))"

definition DB_ClearDowntimeUntil :: "string \<Rightarrow> DB \<Rightarrow> (db_error + unit) \<times> DB" where
  "DB_ClearDowntimeUntil u d =
     (case sql_update_user u (\<lambda>r. r\<lparr>row_downtime_until := ColEmpty\<rparr>) d of
        (None, d) \<Rightarrow> (Inl (ErrSql ''clearing downtime_until''), d)
      | (Some n, d) \<Rightarrow>
          if n = 0 then (Inl (ErrUnknownUser u), d)
          else (Inr (), d\<lparr>downtimeUntilCache := (downtimeUntilCache d)(u := None)\<rparr>))"

definition DB_IsInDowntime :: "(time \<Rightarrow> wall_clock) \<Rightarrow> time \<Rightarrow> string \<Rightarrow> DB \<Rightarrow> bool" where
  "DB_IsInDowntime loc now u d =
     (let adHoc = DB_GetDowntimeUntil u d
      in if \<not> IsZero adHoc \<and> now < adHoc then True
         else let override = DB_GetDowntimeOverride u d
              in if \<not> IsZero override \<and> now < override then False
                 else let sched = DB_GetDowntime u d
                      in if length sched = 0 then False else isInDowntime sched (loc now))"

definition DB_SetEnabled :: "string \<Rightarrow> bool \<Rightarrow> DB \<Rightarrow> (db_error + unit) \<times> DB" where
  "DB_SetEnabled u enabled d =
     (let val = (if enabled then 1 else 0)
      in case sql_update_user u (\<lambda>r. r\<lparr>row_enabled := val\<rparr>) d of
        (None, d) \<Rightarrow> (Inl (ErrSql ''updating enabled''), d)
      | (Some n, d) \<Rightarrow>
          if n = 0 then (Inl (ErrUnknownUser u), d)
          else (Inr (), d\<lparr>enabledCache := (enabledCache d)(u \<mapsto> enabled)\<rparr>))"

definition DB_IsEnabled :: "string \<Rightarrow> DB \<Rightarrow> bool" where
  "DB_IsEnabled u d = (case enabledCache d u of None \<Rightarrow> False | Some b \<Rightarrow> b)"

subsection \<open>Adding and deleting users, ports\<close>

function first_free_port :: "(int \<Rightarrow> bool) \<Rightarrow> int \<Rightarrow> int \<Rightarrow> int option" where
  "first_free_port used p mx =
     (if p \<le> mx then (if \<not> used p then Some p else first_free_port used (p + 1) mx) else None)"
  by pat_completeness auto
termination
  by (relation "measure (\<lambda>(used, p, mx). nat (mx - p + 1))") auto

declare first_free_port.simps [simp del]

definition DB_nextAvailablePort :: "int \<Rightarrow> int \<Rightarrow> DB \<Rightarrow> (db_error + int) \<times> DB" where
  "DB_nextAvailablePort mn mx d =
     (case sql_fault d of
        (True, d) \<Rightarrow> (Inl (ErrSql ''querying ports''), d)
      | (False, d) \<Rightarrow>
          let used = set (filter (\<lambda>p. mn \<le> p \<and> p \<le> mx) (map row_port (users_tbl d)))
          in (case first_free_port (\<lambda>p. p \<in> used) mn mx of
                Some p \<Rightarrow> (Inr p, d)
              | None \<Rightarrow> (Inl ErrNoPortAvailable, d)))"

definition new_row :: "string \<Rightarrow> string \<Rightarrow> int \<Rightarrow> time \<Rightarrow> user_row" where
  "new_row u hash port now =
     \<lparr>row_username = u, row_password_hash = hash, row_created_at = now div second * second,
      row_dns_server = [], row_dns_protocol = [], row_port = port, row_enabled = 1,
      row_schedule = ColEmpty, row_override_until = ColEmpty, row_downtime_until = ColEmpty\<rparr>"

definition DB_Add ::
  "crypto \<Rightarrow> string option \<Rightarrow> time \<Rightarrow> string \<Rightarrow> string \<Rightarrow> int \<Rightarrow> int \<Rightarrow> DB \<Rightarrow> (db_error + int) \<times> DB" where
  "DB_Add cr salt now u password portMin portMax d =
     (if u = [] \<or> password = [] then (Inl ErrEmptyCredentials, d)
      else (case hashPassword (c_idkey cr) salt password of
              None \<Rightarrow> (Inl ErrHashing, d)
            | Some hash \<Rightarrow>
                (case DB_nextAvailablePort portMin portMax d of
                   (Inl e, d) \<Rightarrow> (Inl e, d)
                 | (Inr port, d) \<Rightarrow>
                     (case sql_fault d of
                        (True, d) \<Rightarrow> (Inl (ErrSql ''inserting user''), d)
                      | (False, d) \<Rightarrow>
                          if find_user u d \<noteq> None then (Inl (ErrUserExists u), d)
                          else (Inr port,
                                d\<lparr>users_tbl := users_tbl d @ [new_row u hash port now],
                                  enabledCache := (enabledCache d)(u \<mapsto> True)\<rparr>)))))"

definition DB_Delete :: "string \<Rightarrow> DB \<Rightarrow> (db_error + unit) \<times> DB" where
  "DB_Delete u d =
     (case sql_fault d of
        (True, d) \<Rightarrow> (Inl (ErrSql ''deleting user''), d)
      | (False, d) \<Rightarrow>
          let n = length (filter (\<lambda>r. row_username r = u) (users_tbl d));
              d = d\<lparr>users_tbl := filter (\<lambda>r. row_username r \<noteq> u) (users_tbl d)\<rparr>
          in if n = 0 then (Inl (ErrUnknownUser u), d)
             else (Inr (), d\<lparr>auth_cache := (auth_cache d)(u := None),
                             dnsCache := (dnsCache d)(u := None),
                             downtimeCache := (downtimeCache d)(u := None),
                             overrideCache := (overrideCache d)(u := None),
                             enabledCache := (enabledCache d)(u := None)\<rparr>))"

definition DB_ChangePassword ::
  "crypto \<Rightarrow> string option \<Rightarrow> string \<Rightarrow> string \<Rightarrow> DB \<Rightarrow> (db_error + unit) \<times> DB" where
  "DB_ChangePassword cr salt u newPassword d =
     (if newPassword = [] then (Inl ErrEmptyCredentials, d)
      else (case hashPassword (c_idkey cr) salt newPassword of
              None \<Rightarrow> (Inl ErrHashing, d)
            | Some hash \<Rightarrow>
                (case sql_update_user u (\<lambda>r. r\<lparr>row_password_hash := hash\<rparr>) d of
                   (None, d) \<Rightarrow> (Inl (ErrSql ''updating password''), d)
                 | (Some n, d) \<Rightarrow>
                     if n = 0 then (Inl (ErrUnknownUser u), d)
                     else (Inr (), d\<lparr>auth_cache := (auth_cache d)(u := None)\<rparr>))))"

text \<open>The columns \<open>List\<close> reports: an expired or unreadable time stamp is left out.\<close>

definition future_col :: "time \<Rightarrow> time text_col \<Rightarrow> time text_col" where
  "future_col now c = (case c of ColText t \<Rightarrow> if now < t then c else ColEmpty | _ \<Rightarrow> ColEmpty)"

definition user_info :: "time \<Rightarrow> user_row \<Rightarrow> UserInfo" where
  "user_info now r =
     \<lparr>ui_Username = row_username r, ui_CreatedAt = row_created_at r,
      ui_DNSServer = row_dns_server r, ui_DNSProtocol = row_dns_protocol r,
      ui_Port = row_port r, ui_Enabled = (row_enabled r \<noteq> 0),
      ui_DowntimeSchedule = (case row_schedule r of ColText s \<Rightarrow> s | _ \<Rightarrow> []),
      ui_DowntimeOverrideUntil = future_col now (row_override_until r),
      ui_DowntimeUntil = future_col now (row_downtime_until r)\<rparr>"

text \<open>\<open>ORDER BY username\<close> compares bytes.\<close>

definition DB_List :: "time \<Rightarrow> DB \<Rightarrow> (db_error + UserInfo list) \<times> DB" where
  "DB_List now d =
     (case sql_fault d of
        (True, d) \<Rightarrow> (Inl (ErrSql ''listing users''), d)
      | (False, d) \<Rightarrow>
          (Inr (map (user_info now) (sort_key (\<lambda>r. map byte_of (row_username r)) (users_tbl d))), d))"

definition DB_ListPorts :: "DB \<Rightarrow> (db_error + (int \<rightharpoonup> string)) \<times> DB" where
  "DB_ListPorts d =
     (case sql_fault d of
        (True, d) \<Rightarrow> (Inl (ErrSql ''listing ports''), d)
      | (False, d) \<Rightarrow>
          (Inr (foldl (\<lambda>m r. m(row_port r \<mapsto> row_username r)) Map.empty
                  (filter (\<lambda>r. row_port r > 0) (users_tbl d))), d))"

definition DB_UpdatePort :: "string \<Rightarrow> int \<Rightarrow> DB \<Rightarrow> (db_error + unit) \<times> DB" where
  "DB_UpdatePort u port d =
     (case sql_update_user u (\<lambda>r. r\<lparr>row_port := port\<rparr>) d of
        (None, d) \<Rightarrow> (Inl (ErrSql ''updating port''), d)
      | (Some n, d) \<Rightarrow> if n = 0 then (Inl (ErrUnknownUser u), d) else (Inr (), d))"

definition DB_PortOwner :: "int \<Rightarrow> DB \<Rightarrow> (db_error + string) \<times> DB" where
  "DB_PortOwner port d =
     (case sql_fault d of
        (True, d) \<Rightarrow> (Inl (ErrSql ''querying port owner''), d)
      | (False, d) \<Rightarrow>
          (case find (\<lambda>r. row_port r = port) (users_tbl d) of
             None \<Rightarrow> (Inr [], d)
           | Some r \<Rightarrow> (Inr (row_username r), d)))"

subsection \<open>Authentication\<close>

text \<open>
  \<open>Check\<close> in the code's order: cache, then the stored hash, then an optional re-hash whose
  UPDATE ignores every error, then the cache entry.
\<close>

definition DB_Check_db ::
  "crypto \<Rightarrow> string option \<Rightarrow> time \<Rightarrow> string \<Rightarrow> string \<Rightarrow> string \<Rightarrow> DB \<Rightarrow> (db_error + string) \<times> DB" where
  "DB_Check_db cr salt now user pass passSHA d =
     (case sql_fault d of
        (True, d) \<Rightarrow> (Inl (ErrSql ''querying user''), d)
      | (False, d) \<Rightarrow>
          (case find_user user d of
             None \<Rightarrow> (Inl (ErrUnknownUser user), d)
           | Some r \<Rightarrow>
               if \<not> verifyPassword (c_idkey cr) pass (row_password_hash r)
               then (Inl (ErrWrongPassword user), d)
               else let d = (if needsRehash (row_password_hash r)
                             then (case hashPassword (c_idkey cr) salt pass of
                                     Some newHash \<Rightarrow>
                                       snd (sql_update_user user (\<lambda>r. r\<lparr>row_password_hash := newHash\<rparr>) d)
                                   | None \<Rightarrow> d)
                             else d)
                    in (Inr user,
                        d\<lparr>auth_cache := (auth_cache d)(user \<mapsto>
                            \<lparr>passwordSHA256 = passSHA, validUntil = now + cacheTTL\<rparr>)\<rparr>)))"

definition DB_Check ::
  "crypto \<Rightarrow> string option \<Rightarrow> time \<Rightarrow> string \<Rightarrow> DB \<Rightarrow> (db_error + string) \<times> DB" where
  "DB_Check cr salt now header d =
     (if header = [] then (Inl ErrNoCredentials, d)
      else (case parseBasicAuth header of
              None \<Rightarrow> (Inl ErrMalformedAuth, d)
            | Some (user, pass) \<Rightarrow>
                let passSHA = c_sha256 cr pass
                in case auth_cache d user of
                     Some c \<Rightarrow>
                       if now < validUntil c then
                         (if passSHA = passwordSHA256 c then (Inr user, d)
                          else (Inl (ErrWrongPassword user), d))
                       else DB_Check_db cr salt now user pass passSHA d
                   | None \<Rightarrow> DB_Check_db cr salt now user pass passSHA d))"

end
