(* ===== verification/UserDB_Inv.thy ===== *)
theory UserDB_Inv
  imports UserDB
begin

text \<open>
  What the user database promises: the contract of its single-user setters (locale
  \<open>user_setter\<close>, interpreted on all nine of them), agreement of the in-memory caches with the
  table in every reachable state, and the soundness of the credential cache.
\<close>

subsection \<open>Statements and lookups\<close>

lemma sql_fault_cases:
  obtains fs f where "sql_fault d = (f, d\<lparr>sql_faults := fs\<rparr>)"
proof (cases "sql_faults d")
  case Nil
  then have "sql_fault d = (False, d\<lparr>sql_faults := sql_faults d\<rparr>)" by (simp add: sql_fault_def)
  then show ?thesis by (rule that)
next
  case (Cons f fs)
  then have "sql_fault d = (f, d\<lparr>sql_faults := fs\<rparr>)" by (simp add: sql_fault_def)
  then show ?thesis by (rule that)
qed

lemma find_user_faults [simp]: "find_user u (d\<lparr>sql_faults := fs\<rparr>) = find_user u d"
  by (simp add: find_user_def)

lemma find_user_caches [simp]:
  "find_user u (d\<lparr>auth_cache := a\<rparr>) = find_user u d"
  "find_user u (d\<lparr>dnsCache := b\<rparr>) = find_user u d"
  "find_user u (d\<lparr>downtimeCache := c\<rparr>) = find_user u d"
  "find_user u (d\<lparr>overrideCache := e\<rparr>) = find_user u d"
  "find_user u (d\<lparr>downtimeUntilCache := e\<rparr>) = find_user u d"
  "find_user u (d\<lparr>enabledCache := g\<rparr>) = find_user u d"
  "find_user u (d\<lparr>device_tbl := h\<rparr>) = find_user u d"
  by (simp_all add: find_user_def)

lemma find_user_name: "find_user u d = Some r \<Longrightarrow> row_username r = u \<and> r \<in> set (users_tbl d)"
  by (auto simp: find_user_def find_Some_iff)

lemma find_user_None: "find_user u d = None \<longleftrightarrow> u \<notin> row_username ` set (users_tbl d)"
  by (auto simp: find_user_def find_None_iff)

definition wf_users :: "DB \<Rightarrow> bool" where
  "wf_users d \<longleftrightarrow> distinct (map row_username (users_tbl d)) \<and> [] \<notin> row_username ` set (users_tbl d)"

lemma find_user_mem:
  assumes "wf_users d" "r \<in> set (users_tbl d)"
  shows "find_user (row_username r) d = Some r"
proof -
  from assms have "find_user (row_username r) d \<noteq> None" by (auto simp: find_user_None)
  then obtain r' where r': "find_user (row_username r) d = Some r'" by auto
  then have "row_username r' = row_username r" "r' \<in> set (users_tbl d)"
    using find_user_name by auto
  then have "r' = r" using assms by (auto simp: wf_users_def distinct_map inj_on_def)
  then show ?thesis using r' by simp
qed

lemma find_map_upd:
  assumes "\<And>r. row_username (f r) = row_username r"
  shows "find (\<lambda>r. row_username r = v) (map (\<lambda>r. if row_username r = u then f r else r) rs) =
    (if v = u then map_option f (find (\<lambda>r. row_username r = u) rs)
     else find (\<lambda>r. row_username r = v) rs)"
  by (induction rs) (auto simp: assms)

lemma affected_zero: "length (filter (\<lambda>r. row_username r = u) (users_tbl d)) = 0 \<longleftrightarrow> find_user u d = None"
  by (auto simp: find_user_None filter_empty_conv)

subsection \<open>The setter contract\<close>

locale user_setter =
  fixes op :: "DB \<Rightarrow> (db_error + unit) \<times> DB"
    and u :: string
    and f :: "user_row \<Rightarrow> user_row"
  assumes result: "fst (op d) \<in> {Inr (), Inl (ErrUnknownUser u)} \<union> {Inl (ErrSql m) |m. True}"
    and failed: "fst (op d) \<noteq> Inr () \<Longrightarrow> \<exists>fs. snd (op d) = d\<lparr>sql_faults := fs\<rparr>"
    and ok: "fst (op d) = Inr () \<Longrightarrow> find_user u d \<noteq> None"
    and unknown: "find_user u d = None \<Longrightarrow> fst (sql_fault d) = False \<Longrightarrow>
      fst (op d) = Inl (ErrUnknownUser u)"
    and known: "find_user u d \<noteq> None \<Longrightarrow> fst (sql_fault d) = False \<Longrightarrow> fst (op d) = Inr ()"
    and rows: "fst (op d) = Inr () \<Longrightarrow>
      find_user v (snd (op d)) = (if v = u then map_option f (find_user u d) else find_user v d)"
    and names: "map row_username (users_tbl (snd (op d))) = map row_username (users_tbl d)"
begin

lemma wf_kept: "wf_users d \<Longrightarrow> wf_users (snd (op d))"
  using names [of d] unfolding wf_users_def by (metis list.set_map)

lemma other_users: "v \<noteq> u \<Longrightarrow> find_user v (snd (op d)) = find_user v d"
  using rows [of d v] failed [of d] by fastforce

lemma same_users: "find_user v (snd (op d)) = None \<longleftrightarrow> find_user v d = None"
  using names [of d] by (metis find_user_None list.set_map)

end

lemma user_setterI:
  assumes shape: "\<And>d. op d = (case sql_update_user u f d of
        (None, d) \<Rightarrow> (Inl (ErrSql m), d)
      | (Some n, d) \<Rightarrow> if n = 0 then (Inl (ErrUnknownUser u), d) else (Inr (), upd d))"
    and name: "\<And>r. row_username (f r) = row_username r"
    and tbl: "\<And>d. users_tbl (upd d) = users_tbl d"
  shows "user_setter op u f"
proof -
  have upd_find: "find_user v (upd d) = find_user v d" for v d by (simp add: find_user_def tbl)
  have noop: "map (\<lambda>r. if row_username r = u then f r else r) rs = rs"
    if "filter (\<lambda>r. row_username r = u) rs = []" for rs
    using that by (induction rs) (auto split: if_splits)
  have names: "map row_username (map (\<lambda>r. if row_username r = u then f r else r) rs) = map row_username rs"
    for rs using name by simp
  { fix d
    obtain fs fl where f: "sql_fault d = (fl, d\<lparr>sql_faults := fs\<rparr>)" by (rule sql_fault_cases)
    have "op d = (if fl then (Inl (ErrSql m), d\<lparr>sql_faults := fs\<rparr>)
      else if find_user u d = None then (Inl (ErrUnknownUser u), d\<lparr>sql_faults := fs\<rparr>)
      else (Inr (), upd (d\<lparr>sql_faults := fs,
             users_tbl := map (\<lambda>r. if row_username r = u then f r else r) (users_tbl d)\<rparr>)))"
      using affected_zero [of u d] noop [of "users_tbl d"]
      by (auto simp: shape sql_update_user_def f)
    moreover have "find_user v (upd (d\<lparr>sql_faults := fs,
             users_tbl := map (\<lambda>r. if row_username r = u then f r else r) (users_tbl d)\<rparr>)) =
        (if v = u then map_option f (find_user u d) else find_user v d)" for v
      using find_map_upd [of f v u "users_tbl d", OF name] by (auto simp: find_user_def tbl)
    moreover note f tbl names
    ultimately have "\<exists>fs fl d'. sql_fault d = (fl, d\<lparr>sql_faults := fs\<rparr>) \<and>
       op d = (if fl then (Inl (ErrSql m), d\<lparr>sql_faults := fs\<rparr>)
         else if find_user u d = None then (Inl (ErrUnknownUser u), d\<lparr>sql_faults := fs\<rparr>)
         else (Inr (), d')) \<and>
       (\<forall>v. find_user v d' = (if v = u then map_option f (find_user u d) else find_user v d)) \<and>
       map row_username (users_tbl d') = map row_username (users_tbl d)"
      by (intro exI conjI allI) (assumption | simp add: name)+
  } note op = this
  show ?thesis
  proof
    fix d v
    obtain fs fl d' where op':
      "sql_fault d = (fl, d\<lparr>sql_faults := fs\<rparr>)"
      "op d = (if fl then (Inl (ErrSql m), d\<lparr>sql_faults := fs\<rparr>)
         else if find_user u d = None then (Inl (ErrUnknownUser u), d\<lparr>sql_faults := fs\<rparr>)
         else (Inr (), d'))"
      "\<forall>v. find_user v d' = (if v = u then map_option f (find_user u d) else find_user v d)"
      "map row_username (users_tbl d') = map row_username (users_tbl d)"
      using op [of d] by blast
    show "fst (op d) \<in> {Inr (), Inl (ErrUnknownUser u)} \<union> {Inl (ErrSql m) |m. True}"
      by (auto simp: op'(2))
    show "fst (op d) \<noteq> Inr () \<Longrightarrow> \<exists>fs. snd (op d) = d\<lparr>sql_faults := fs\<rparr>"
      by (auto simp: op'(2) split: if_splits)
    show "fst (op d) = Inr () \<Longrightarrow> find_user u d \<noteq> None" by (auto simp: op'(2) split: if_splits)
    show "find_user u d = None \<Longrightarrow> fst (sql_fault d) = False \<Longrightarrow> fst (op d) = Inl (ErrUnknownUser u)"
      using op'(1) by (simp add: op'(2))
    show "find_user u d \<noteq> None \<Longrightarrow> fst (sql_fault d) = False \<Longrightarrow> fst (op d) = Inr ()"
      using op'(1) by (simp add: op'(2))
    show "fst (op d) = Inr () \<Longrightarrow>
      find_user v (snd (op d)) = (if v = u then map_option f (find_user u d) else find_user v d)"
      using op'(3) by (simp add: op'(2) split: if_splits)
    show "map row_username (users_tbl (snd (op d))) = map row_username (users_tbl d)"
      using op'(4) by (simp add: op'(2))
  qed
qed

interpretation set_dns: user_setter "DB_UpdateDNS u s p" u
  "\<lambda>r. r\<lparr>row_dns_server := s, row_dns_protocol := p\<rparr>" for u s p
  by (rule user_setterI [where upd = "\<lambda>d. d\<lparr>dnsCache :=
        (if s = [] then (dnsCache d)(u := None)
         else (dnsCache d)(u \<mapsto> \<lparr>dns_Server = s, dns_Protocol = p\<rparr>))\<rparr>"])
     (simp_all add: DB_UpdateDNS_def)

interpretation set_sched: user_setter "DB_UpdateDowntime u sch" u
  "\<lambda>r. r\<lparr>row_schedule := (if length sch > 0 then ColText sch else ColEmpty)\<rparr>" for u sch
  by (rule user_setterI [where upd = "\<lambda>d. d\<lparr>downtimeCache :=
        (if length sch = 0 then (downtimeCache d)(u := None) else (downtimeCache d)(u \<mapsto> sch))\<rparr>"])
     (simp_all add: DB_UpdateDowntime_def Let_def)

interpretation set_override: user_setter "DB_SetDowntimeOverride u t" u
  "\<lambda>r. r\<lparr>row_override_until := rfc3339_col t\<rparr>" for u t
  by (rule user_setterI [where upd = "\<lambda>d. d\<lparr>overrideCache := (overrideCache d)(u \<mapsto> t)\<rparr>"])
     (simp_all add: DB_SetDowntimeOverride_def)

interpretation clear_override: user_setter "DB_ClearDowntimeOverride u" u
  "\<lambda>r. r\<lparr>row_override_until := ColEmpty\<rparr>" for u
  by (rule user_setterI [where upd = "\<lambda>d. d\<lparr>overrideCache := (overrideCache d)(u := None)\<rparr>"])
     (simp_all add: DB_ClearDowntimeOverride_def)

interpretation set_until: user_setter "DB_SetDowntimeUntil u t" u
  "\<lambda>r. r\<lparr>row_downtime_until := rfc3339_col t\<rparr>" for u t
  by (rule user_setterI [where upd = "\<lambda>d. d\<lparr>downtimeUntilCache := (downtimeUntilCache d)(u \<mapsto> t)\<rparr>"])
     (simp_all add: DB_SetDowntimeUntil_def)

interpretation clear_until: user_setter "DB_ClearDowntimeUntil u" u
  "\<lambda>r. r\<lparr>row_downtime_until := ColEmpty\<rparr>" for u
  by (rule user_setterI [where upd = "\<lambda>d. d\<lparr>downtimeUntilCache := (downtimeUntilCache d)(u := None)\<rparr>"])
     (simp_all add: DB_ClearDowntimeUntil_def)

interpretation set_enabled: user_setter "DB_SetEnabled u b" u
  "\<lambda>r. r\<lparr>row_enabled := (if b then 1 else 0)\<rparr>" for u b
  by (rule user_setterI [where upd = "\<lambda>d. d\<lparr>enabledCache := (enabledCache d)(u \<mapsto> b)\<rparr>"])
     (simp_all add: DB_SetEnabled_def Let_def)

interpretation set_port: user_setter "DB_UpdatePort u p" u "\<lambda>r. r\<lparr>row_port := p\<rparr>" for u p
  by (rule user_setterI [where upd = "\<lambda>d. d"]) (simp_all add: DB_UpdatePort_def)

text \<open>A password change with a non-empty password and a working random source.\<close>

definition row_new_hash :: "crypto \<Rightarrow> string \<Rightarrow> string \<Rightarrow> user_row \<Rightarrow> user_row" where
  "row_new_hash cr salt pw r = r\<lparr>row_password_hash := the (hashPassword (c_idkey cr) (Some salt) pw)\<rparr>"

interpretation change_pw: user_setter "DB_ChangePassword cr (Some salt) u (c # cs)" u
  "row_new_hash cr salt (c # cs)" for cr salt u c cs
  by (rule user_setterI [where upd = "\<lambda>d. d\<lparr>auth_cache := (auth_cache d)(u := None)\<rparr>"])
     (simp_all add: DB_ChangePassword_def hashPassword_def Let_def row_new_hash_def [abs_def])

subsection \<open>Agreement of caches and table\<close>

definition row_dns :: "user_row \<Rightarrow> DNSEntry option" where
  "row_dns r = (if row_dns_server r = [] then None
     else Some \<lparr>dns_Server = row_dns_server r, dns_Protocol = row_dns_protocol r\<rparr>)"

definition row_sched :: "user_row \<Rightarrow> DowntimeSchedule option" where
  "row_sched r = (case row_schedule r of ColText s \<Rightarrow> Some s | _ \<Rightarrow> None)"

text \<open>
  An expiry cache against its column: a cached instant is what the column was written from; a
  user without an entry has no time stamp later than the opening of the database.  Time stamps in
  the table are whole seconds of the years RFC 3339 can write.
\<close>

definition expiry_ok :: "time \<Rightarrow> time option \<Rightarrow> time text_col \<Rightarrow> bool" where
  "expiry_ok opened c col \<longleftrightarrow>
     (case c of Some t \<Rightarrow> col = rfc3339_col t
              | None \<Rightarrow> (case col of ColText t \<Rightarrow> t \<le> opened \<and> rfc3339_col t = ColText t | _ \<Rightarrow> True))"

text \<open>
  The caches of one user against the user's row: enabled flag, DNS entry, schedule and override
  are exactly what the row says; a cached password digest belongs to a password that the row's
  hash accepts.
\<close>

definition view_ok ::
  "crypto \<Rightarrow> time \<Rightarrow> user_row option \<Rightarrow> bool option \<Rightarrow> DNSEntry option \<Rightarrow> DowntimeSchedule option \<Rightarrow>
   time option \<Rightarrow> cachedAuth option \<Rightarrow> bool" where
  "view_ok cr opened r en dn sc ov au \<longleftrightarrow>
     en = map_option (\<lambda>x. row_enabled x \<noteq> 0) r \<and>
     dn = Option.bind r row_dns \<and>
     sc = Option.bind r row_sched \<and>
     (r = None \<longrightarrow> ov = None) \<and>
     (\<forall>x. r = Some x \<longrightarrow> expiry_ok opened ov (row_override_until x)) \<and>
     (\<forall>c. au = Some c \<longrightarrow>
        (\<exists>x pw. r = Some x \<and> c_sha256 cr pw = passwordSHA256 c \<and>
           verifyPassword (c_idkey cr) pw (row_password_hash x)))"

definition user_ok :: "crypto \<Rightarrow> time \<Rightarrow> DB \<Rightarrow> string \<Rightarrow> bool" where
  "user_ok cr opened d u \<longleftrightarrow>
     view_ok cr opened (find_user u d) (enabledCache d u) (dnsCache d u) (downtimeCache d u)
       (overrideCache d u) (auth_cache d u)"

definition coherent :: "crypto \<Rightarrow> time \<Rightarrow> DB \<Rightarrow> bool" where
  "coherent cr opened d \<longleftrightarrow> wf_users d \<and> (\<forall>u. user_ok cr opened d u)"

lemma coherent_faults: "coherent cr T d \<Longrightarrow> coherent cr T (d\<lparr>sql_faults := fs\<rparr>)"
  unfolding coherent_def user_ok_def wf_users_def by simp

lemma coherentD:
  assumes "coherent cr T d"
  shows "enabledCache d u = map_option (\<lambda>r. row_enabled r \<noteq> 0) (find_user u d)"
    and "dnsCache d u = Option.bind (find_user u d) row_dns"
    and "downtimeCache d u = Option.bind (find_user u d) row_sched"
    and "find_user u d = None \<Longrightarrow> overrideCache d u = None"
    and "find_user u d = Some x \<Longrightarrow> expiry_ok T (overrideCache d u) (row_override_until x)"
    and "auth_cache d u = Some c \<Longrightarrow> \<exists>x pw. find_user u d = Some x \<and> c_sha256 cr pw = passwordSHA256 c \<and>
           verifyPassword (c_idkey cr) pw (row_password_hash x)"
  using assms unfolding coherent_def user_ok_def view_ok_def by blast+

text \<open>How a successful setter changes the caches.\<close>

lemma setter_cases:
  assumes "\<And>d. op d = (case sql_update_user u f d of
        (None, d) \<Rightarrow> (Inl (ErrSql m), d)
      | (Some n, d) \<Rightarrow> if n = 0 then (Inl (ErrUnknownUser u), d) else (Inr (), upd d))"
  obtains (err) fs where "snd (op d) = d\<lparr>sql_faults := fs\<rparr>"
  | (fine) fs rs where "fst (op d) = Inr ()"
      "snd (op d) = upd (d\<lparr>sql_faults := fs, users_tbl := rs\<rparr>)"
proof -
  obtain fs fl where f: "sql_fault d = (fl, d\<lparr>sql_faults := fs\<rparr>)" by (rule sql_fault_cases)
  have noop: "map (\<lambda>r. if row_username r = u then f r else r) rs = rs"
    if "filter (\<lambda>r. row_username r = u) rs = []" for rs
    using that by (induction rs) (auto split: if_splits)
  show ?thesis
  proof (cases fl)
    case True
    then have "snd (op d) = d\<lparr>sql_faults := fs\<rparr>" using f by (simp add: assms sql_update_user_def)
    then show ?thesis by (rule err)
  next
    case False
    show ?thesis
    proof (cases "find_user u d = None")
      case True
      then have z: "filter (\<lambda>r. row_username r = u) (users_tbl d) = []" using affected_zero [of u d] by simp
      have "snd (op d) = d\<lparr>sql_faults := fs, users_tbl := users_tbl d\<rparr>"
        using f z noop [OF z] \<open>\<not> fl\<close> by (simp add: assms sql_update_user_def)
      then show ?thesis using err [of fs] by simp
    next
      case known: False
      then have "length (filter (\<lambda>r. row_username r = u) (users_tbl d)) \<noteq> 0"
        using affected_zero [of u d] by simp
      then show ?thesis using f \<open>\<not> fl\<close>
        by (intro fine) (auto simp: assms sql_update_user_def)
    qed
  qed
qed

lemma coherent_setter:
  assumes coh: "coherent cr T d"
    and shape: "\<And>d. op d = (case sql_update_user u f d of
        (None, d) \<Rightarrow> (Inl (ErrSql m), d)
      | (Some n, d) \<Rightarrow> if n = 0 then (Inl (ErrUnknownUser u), d) else (Inr (), upd d))"
    and setter: "user_setter op u f"
    and other: "\<And>d v. v \<noteq> u \<Longrightarrow> enabledCache (upd d) v = enabledCache d v \<and> dnsCache (upd d) v = dnsCache d v \<and>
      downtimeCache (upd d) v = downtimeCache d v \<and> overrideCache (upd d) v = overrideCache d v \<and>
      auth_cache (upd d) v = auth_cache d v"
    and self: "\<And>d' x. enabledCache d' = enabledCache d \<Longrightarrow> dnsCache d' = dnsCache d \<Longrightarrow>
      downtimeCache d' = downtimeCache d \<Longrightarrow> overrideCache d' = overrideCache d \<Longrightarrow>
      auth_cache d' = auth_cache d \<Longrightarrow> find_user u d = Some x \<Longrightarrow> user_ok cr T d u \<Longrightarrow>
      view_ok cr T (Some (f x)) (enabledCache (upd d') u) (dnsCache (upd d') u)
        (downtimeCache (upd d') u) (overrideCache (upd d') u) (auth_cache (upd d') u)"
  shows "coherent cr T (snd (op d))"
proof (rule setter_cases [OF shape, where d = d])
  fix fs
  assume "snd (op d) = d\<lparr>sql_faults := fs\<rparr>"
  then show ?thesis using coherent_faults [OF coh] by simp
next
  fix fs rs
  assume ok: "fst (op d) = Inr ()" and d': "snd (op d) = upd (d\<lparr>sql_faults := fs, users_tbl := rs\<rparr>)"
  have rows: "find_user v (snd (op d)) = (if v = u then map_option f (find_user u d) else find_user v d)"
    for v using user_setter.rows [OF setter ok] .
  obtain x where x: "find_user u d = Some x" using user_setter.ok [OF setter ok] by auto
  have "user_ok cr T (snd (op d)) v" for v
  proof (cases "v = u")
    case True
    have "user_ok cr T d u" using coh by (simp add: coherent_def)
    then show ?thesis
      using self [of "d\<lparr>sql_faults := fs, users_tbl := rs\<rparr>" x] x True
      by (simp add: user_ok_def rows d' [symmetric])
  next
    case False
    have "user_ok cr T d v" using coh by (simp add: coherent_def)
    then show ?thesis
      using other [OF False, of "d\<lparr>sql_faults := fs, users_tbl := rs\<rparr>"] False
      by (simp add: user_ok_def rows) (simp add: d')
  qed
  moreover have "wf_users (snd (op d))"
    using user_setter.wf_kept [OF setter] coh by (simp add: coherent_def)
  ultimately show ?thesis by (simp add: coherent_def)
qed

lemma coherent_UpdateDNS: "coherent cr T d \<Longrightarrow> coherent cr T (snd (DB_UpdateDNS u s p d))"
  by (rule coherent_setter [OF _ _ set_dns.user_setter_axioms, where upd = "\<lambda>d. d\<lparr>dnsCache :=
        (if s = [] then (dnsCache d)(u := None)
         else (dnsCache d)(u \<mapsto> \<lparr>dns_Server = s, dns_Protocol = p\<rparr>))\<rparr>"])
     (auto simp: DB_UpdateDNS_def user_ok_def view_ok_def row_dns_def row_sched_def)

lemma coherent_UpdateDowntime: "coherent cr T d \<Longrightarrow> coherent cr T (snd (DB_UpdateDowntime u sch d))"
  by (rule coherent_setter [OF _ _ set_sched.user_setter_axioms, where upd = "\<lambda>d. d\<lparr>downtimeCache :=
        (if length sch = 0 then (downtimeCache d)(u := None) else (downtimeCache d)(u \<mapsto> sch))\<rparr>"])
     (auto simp: DB_UpdateDowntime_def Let_def user_ok_def view_ok_def row_dns_def row_sched_def)

lemma coherent_SetDowntimeOverride:
  "coherent cr T d \<Longrightarrow> coherent cr T (snd (DB_SetDowntimeOverride u t d))"
  by (rule coherent_setter [OF _ _ set_override.user_setter_axioms,
        where upd = "\<lambda>d. d\<lparr>overrideCache := (overrideCache d)(u \<mapsto> t)\<rparr>"])
     (auto simp: DB_SetDowntimeOverride_def user_ok_def view_ok_def row_dns_def row_sched_def expiry_ok_def)

lemma coherent_ClearDowntimeOverride:
  "coherent cr T d \<Longrightarrow> coherent cr T (snd (DB_ClearDowntimeOverride u d))"
  by (rule coherent_setter [OF _ _ clear_override.user_setter_axioms,
        where upd = "\<lambda>d. d\<lparr>overrideCache := (overrideCache d)(u := None)\<rparr>"])
     (auto simp: DB_ClearDowntimeOverride_def user_ok_def view_ok_def row_dns_def row_sched_def expiry_ok_def)

lemma coherent_SetDowntimeUntil:
  "coherent cr T d \<Longrightarrow> coherent cr T (snd (DB_SetDowntimeUntil u t d))"
  by (rule coherent_setter [OF _ _ set_until.user_setter_axioms,
        where upd = "\<lambda>d. d\<lparr>downtimeUntilCache := (downtimeUntilCache d)(u \<mapsto> t)\<rparr>"])
     (auto simp: DB_SetDowntimeUntil_def user_ok_def view_ok_def row_dns_def row_sched_def)

lemma coherent_ClearDowntimeUntil:
  "coherent cr T d \<Longrightarrow> coherent cr T (snd (DB_ClearDowntimeUntil u d))"
  by (rule coherent_setter [OF _ _ clear_until.user_setter_axioms,
        where upd = "\<lambda>d. d\<lparr>downtimeUntilCache := (downtimeUntilCache d)(u := None)\<rparr>"])
     (auto simp: DB_ClearDowntimeUntil_def user_ok_def view_ok_def row_dns_def row_sched_def)

lemma coherent_SetEnabled: "coherent cr T d \<Longrightarrow> coherent cr T (snd (DB_SetEnabled u b d))"
  by (rule coherent_setter [OF _ _ set_enabled.user_setter_axioms,
        where upd = "\<lambda>d. d\<lparr>enabledCache := (enabledCache d)(u \<mapsto> b)\<rparr>"])
     (auto simp: DB_SetEnabled_def Let_def user_ok_def view_ok_def row_dns_def row_sched_def)

lemma coherent_UpdatePort: "coherent cr T d \<Longrightarrow> coherent cr T (snd (DB_UpdatePort u p d))"
  by (rule coherent_setter [OF _ _ set_port.user_setter_axioms, where upd = "\<lambda>d. d"])
     (auto simp: DB_UpdatePort_def user_ok_def view_ok_def row_dns_def row_sched_def)

subsection \<open>The port search\<close>

lemma first_free_port_Some:
  "first_free_port used p mx = Some q \<longleftrightarrow> p \<le> q \<and> q \<le> mx \<and> \<not> used q \<and> (\<forall>x. p \<le> x \<and> x < q \<longrightarrow> used x)"
proof (induction used p mx rule: first_free_port.induct)
  case (1 used p mx)
  show ?case
  proof (cases "p \<le> mx \<and> used p")
    case True
    then have "first_free_port used p mx = first_free_port used (p + 1) mx"
      by (subst first_free_port.simps) simp
    moreover have "(\<forall>x. p \<le> x \<and> x < q \<longrightarrow> used x) \<longleftrightarrow> (\<forall>x. p + 1 \<le> x \<and> x < q \<longrightarrow> used x)"
      using True by (metis add1_zle_eq order_le_less)
    moreover have "\<not> used q \<Longrightarrow> p \<le> q \<longleftrightarrow> p + 1 \<le> q" using True by (metis add1_zle_eq order_le_less)
    ultimately show ?thesis using 1 True by auto
  next
    case False
    then show ?thesis by (subst first_free_port.simps) force
  qed
qed

end
