(* ===== verification/GoNet.thy ===== *)
theory GoNet
  imports Strconv
begin

text \<open>
  What the program uses of package \<open>net\<close>: \<open>SplitHostPort\<close>, \<open>JoinHostPort\<close>, \<open>ParseIP\<close>,
  \<open>IP.To4\<close>, \<open>IP.Equal\<close>, \<open>IP.IsLoopback\<close> and \<open>IPNet.Contains\<close>; and the two clients that use
  nothing else, \<open>clientIP\<close> (src/pkg/admin/clientip.go) and \<open>isLoopbackListen\<close>
  (src/cmd/evan-proxy/main.go).  An \<open>IP\<close> is the list of its bytes (4 or 16 of them), as in Go.
\<close>

unbundle bit_operations_syntax

type_synonym IP = "nat list"

record IPNet =
  net_IP :: IP
  net_Mask :: "nat list"

subsection \<open>Host and port\<close>

definition before_last :: "char \<Rightarrow> string \<Rightarrow> string" where
  "before_last c s = rev (drop 1 (dropWhile (\<lambda>x. x \<noteq> c) (rev s)))"

definition after_last :: "char \<Rightarrow> string \<Rightarrow> string" where
  "after_last c s = rev (takeWhile (\<lambda>x. x \<noteq> c) (rev s))"

text \<open>
  The port starts after the last colon.  A bracketed host must be closed right before it; an
  unbracketed host holds no further colon; stray brackets are errors.
\<close>

definition SplitHostPort :: "string \<Rightarrow> (string \<times> string) option" where
  "SplitHostPort hp =
     (if CHR '':'' \<notin> set hp then None
      else let front = before_last (CHR '':'') hp; port = after_last (CHR '':'') hp
           in (case hp of
                 [] \<Rightarrow> None
               | h # rest \<Rightarrow>
                   if h = CHR ''['' then
                     (if CHR '']'' \<notin> set hp then None
                      else let host = takeWhile (\<lambda>c. c \<noteq> CHR '']'') rest;
                               tail = drop (length host + 1) rest
                           in if front \<noteq> CHR ''['' # host @ '']'' then None
                              else if CHR ''['' \<in> set rest then None
                              else if CHR '']'' \<in> set tail then None
                              else Some (host, port))
                   else if CHR '':'' \<in> set front then None
                   else if CHR ''['' \<in> set hp then None
                   else if CHR '']'' \<in> set hp then None
                   else Some (front, port)))"

definition JoinHostPort :: "string \<Rightarrow> string \<Rightarrow> string" where
  "JoinHostPort host port =
     (if CHR '':'' \<in> set host then ''['' @ host @ '']:'' @ port else host @ '':'' @ port)"

subsection \<open>Addresses\<close>

definition ipv4_octet :: "string \<Rightarrow> nat option" where
  "ipv4_octet s =
     (if s = [] \<or> \<not> list_all is_digit s \<or> (length s > 1 \<and> hd s = CHR ''0'') \<or> digits_val s > 255
      then None else Some (digits_val s))"

definition parseIPv4 :: "string \<Rightarrow> nat list option" where
  "parseIPv4 s =
     (case map ipv4_octet (Split (CHR ''.'') s) of
        [Some a, Some b, Some c, Some d] \<Rightarrow> Some [a, b, c, d]
      | _ \<Rightarrow> None)"

definition hex_val :: "char \<Rightarrow> nat option" where
  "hex_val c =
     (if is_digit c then Some (byte_of c - 48)
      else if 97 \<le> byte_of c \<and> byte_of c \<le> 102 then Some (byte_of c - 87)
      else if 65 \<le> byte_of c \<and> byte_of c \<le> 70 then Some (byte_of c - 55)
      else None)"

abbreviation is_hex :: "char \<Rightarrow> bool" where "is_hex c \<equiv> hex_val c \<noteq> None"

definition hex_num :: "string \<Rightarrow> nat" where
  "hex_num s = foldl (\<lambda>a c. a * 16 + the (hex_val c)) 0 s"

text \<open>
  The group loop of \<open>parseIPv6\<close>: \<open>s\<close> is the unread text, \<open>acc\<close> the bytes so far, \<open>ell\<close> the position
  of a \<open>::\<close>.  Eight groups fill the address, so fuel 8 is the loop bound of the code.
\<close>

fun ipv6_groups :: "nat \<Rightarrow> string \<Rightarrow> nat list \<Rightarrow> nat option \<Rightarrow> (string \<times> nat list \<times> nat option) option" where
  "ipv6_groups 0 s acc ell = Some (s, acc, ell)"
| "ipv6_groups (Suc n) s acc ell =
     (let g = takeWhile is_hex s; rest = drop (length g) s
      in if g = [] \<or> length g > 4 then None
         else if rest \<noteq> [] \<and> hd rest = CHR ''.'' then
           (if (ell = None \<and> length acc \<noteq> 12) \<or> length acc + 4 > 16 then None
            else (case parseIPv4 s of None \<Rightarrow> None | Some v4 \<Rightarrow> Some ([], acc @ v4, ell)))
         else let acc = acc @ [hex_num g div 256, hex_num g mod 256]
              in if rest = [] then Some ([], acc, ell)
                 else if hd rest \<noteq> CHR '':'' \<or> length rest = 1 then None
                 else let s = tl rest
                      in if hd s = CHR '':'' then
                           (if ell \<noteq> None then None
                            else if tl s = [] then Some ([], acc, Some (length acc))
                            else ipv6_groups n (tl s) acc (Some (length acc)))
                         else ipv6_groups n s acc ell)"

definition parseIPv6 :: "string \<Rightarrow> nat list option" where
  "parseIPv6 s =
     (if HasPrefix s ''::'' \<and> length s = 2 then Some (replicate 16 0)
      else let (body, ell) = (if HasPrefix s ''::'' then (drop 2 s, Some 0) else (s, None))
           in (case ipv6_groups 8 body [] ell of
                 None \<Rightarrow> None
               | Some (rest, acc, ell) \<Rightarrow>
                   if rest \<noteq> [] then None
                   else if length acc < 16 then
                     (case ell of
                        None \<Rightarrow> None
                      | Some e \<Rightarrow> Some (take e acc @ replicate (16 - length acc) 0 @ drop e acc))
                   else if ell \<noteq> None then None
                   else Some acc))"

text \<open>
  \<open>net.ParseIP\<close>: the first of \<open>.\<close>, \<open>:\<close> and \<open>%\<close> decides the family; the result always has 16
  bytes; an address with a zone is rejected.
\<close>

definition ParseIP :: "string \<Rightarrow> IP option" where
  "ParseIP s =
     (case dropWhile (\<lambda>c. c \<noteq> CHR ''.'' \<and> c \<noteq> CHR '':'' \<and> c \<noteq> CHR ''%'') s of
        [] \<Rightarrow> None
      | c # _ \<Rightarrow>
          if c = CHR ''.'' then map_option (\<lambda>v4. replicate 10 0 @ [255, 255] @ v4) (parseIPv4 s)
          else if c = CHR '':'' \<and> CHR ''%'' \<notin> set s then parseIPv6 s
          else None)"

definition To4 :: "IP \<Rightarrow> IP option" where
  "To4 ip =
     (if length ip = 4 then Some ip
      else if length ip = 16 \<and> take 12 ip = replicate 10 0 @ [255, 255] then Some (drop 12 ip)
      else None)"

definition IP_Equal :: "IP \<Rightarrow> IP \<Rightarrow> bool" where
  "IP_Equal a b \<longleftrightarrow>
     (if length a = length b then a = b
      else if length a = 4 \<and> length b = 16 then take 12 b = replicate 10 0 @ [255, 255] \<and> a = drop 12 b
      else if length a = 16 \<and> length b = 4 then take 12 a = replicate 10 0 @ [255, 255] \<and> drop 12 a = b
      else False)"

definition IsLoopback :: "IP \<Rightarrow> bool" where
  "IsLoopback ip =
     (case To4 ip of Some v4 \<Rightarrow> hd v4 = 127 | None \<Rightarrow> IP_Equal ip (replicate 15 0 @ [1]))"

definition networkNumberAndMask :: "IPNet \<Rightarrow> nat list \<times> nat list" where
  "networkNumberAndMask n =
     (let ip = (case To4 (net_IP n) of Some v4 \<Rightarrow> v4 | None \<Rightarrow> net_IP n); m = net_Mask n
      in if length ip \<noteq> 4 \<and> length ip \<noteq> 16 then ([], [])
         else if length m = length ip then (ip, m)
         else if length m = 16 \<and> length ip = 4 then (ip, drop 12 m)
         else ([], []))"

definition IPNet_Contains :: "IPNet \<Rightarrow> IP \<Rightarrow> bool" where
  "IPNet_Contains n ip =
     (let (nn, m) = networkNumberAndMask n;
          ip = (case To4 ip of Some x \<Rightarrow> x | None \<Rightarrow> ip)
      in if length ip \<noteq> length nn then False
         else list_all (\<lambda>i. (nn ! i) AND (m ! i) = (ip ! i) AND (m ! i)) [0..<length ip])"

text \<open>\<open>CIDRMask(ones, 8 n)\<close> and \<open>ParseCIDR\<close>: the network part of an address with a prefix length.\<close>

fun CIDRMask :: "nat \<Rightarrow> nat \<Rightarrow> nat list" where
  "CIDRMask ones 0 = []"
| "CIDRMask ones (Suc n) =
     (if ones \<ge> 8 then 255 # CIDRMask (ones - 8) n else (255 - 255 div 2 ^ ones) # CIDRMask 0 n)"

definition is_v4_text :: "string \<Rightarrow> bool" where
  "is_v4_text s = (case dropWhile (\<lambda>c. c \<noteq> CHR ''.'' \<and> c \<noteq> CHR '':'' \<and> c \<noteq> CHR ''%'') s of
     [] \<Rightarrow> False | c # _ \<Rightarrow> c = CHR ''.'')"

definition ParseCIDR :: "string \<Rightarrow> IPNet option" where
  "ParseCIDR s =
     (case SplitN2 (CHR ''/'') s of
        [addr, plen] \<Rightarrow>
          (case ParseIP addr of
             None \<Rightarrow> None
           | Some ip16 \<Rightarrow>
               let ip = (if is_v4_text addr then drop 12 ip16 else ip16)
               in if plen = [] \<or> \<not> list_all is_digit plen \<or> digits_val plen > 8 * length ip then None
                  else let m = CIDRMask (digits_val plen) (length ip)
                       in Some \<lparr>net_IP = map2 (\<lambda>a b. a AND b) ip m, net_Mask = m\<rparr>)
      | _ \<Rightarrow> None)"

subsection \<open>The client address of an admin request\<close>

definition ipInAny :: "IP \<Rightarrow> IPNet list \<Rightarrow> bool" where
  "ipInAny ip nets = list_ex (\<lambda>n. IPNet_Contains n ip) nets"

text \<open>The loop walks the header's entries from the right.\<close>

fun xff_walk :: "IPNet list \<Rightarrow> string list \<Rightarrow> string option" where
  "xff_walk trusted [] = None"
| "xff_walk trusted (part # parts) =
     (let ipStr = TrimSpace part
      in case ParseIP ipStr of
           None \<Rightarrow> xff_walk trusted parts
         | Some ip \<Rightarrow> if ipInAny ip trusted then xff_walk trusted parts else Some ipStr)"

definition clientIP :: "string \<Rightarrow> string \<Rightarrow> IPNet list \<Rightarrow> string" where
  "clientIP remoteAddr xff trusted =
     (let host = (case SplitHostPort remoteAddr of Some (h, _) \<Rightarrow> h | None \<Rightarrow> remoteAddr)
      in case ParseIP host of
           None \<Rightarrow> host
         | Some peer \<Rightarrow>
             if length trusted = 0 \<or> \<not> ipInAny peer trusted then host
             else if xff = [] then host
             else (case xff_walk trusted (rev (Split (CHR '','') xff)) of
                     Some ipStr \<Rightarrow> ipStr
                   | None \<Rightarrow> host))"

definition isLoopbackListen :: "string \<Rightarrow> bool" where
  "isLoopbackListen addr =
     (case SplitHostPort addr of
        None \<Rightarrow> False
      | Some (host, _) \<Rightarrow>
          if host = ''localhost'' then True
          else (case ParseIP host of None \<Rightarrow> False | Some ip \<Rightarrow> IsLoopback ip))"

subsection \<open>Lemmas\<close>

lemma Split_app: "Split c (s @ c # t) = Split c s @ Split c t"
  by (induction s) (auto split: list.splits)

lemma before_last_snoc: "c \<notin> set p \<Longrightarrow> before_last c (s @ c # p) = s"
  by (simp add: before_last_def dropWhile_append)

lemma after_last_snoc: "c \<notin> set p \<Longrightarrow> after_last c (s @ c # p) = p"
proof -
  assume "c \<notin> set p"
  then have "takeWhile (\<lambda>x. x \<noteq> c) (rev p @ c # rev s) = rev p"
    by (subst takeWhile_append2) auto
  then show ?thesis by (simp add: after_last_def)
qed

lemma xff_walk_append:
  "xff_walk tr (xs @ ys) = (case xff_walk tr xs of Some a \<Rightarrow> Some a | None \<Rightarrow> xff_walk tr ys)"
  by (induction xs) (auto simp: Let_def split: option.splits)

lemma xff_walk_untrusted:
  "xff_walk tr xs = Some a \<Longrightarrow> \<exists>ip. ParseIP a = Some ip \<and> \<not> ipInAny ip tr"
  by (induction xs) (auto simp: Let_def split: option.splits if_splits)

lemma xff_walk_some:
  "xff_walk tr xs \<noteq> None \<longleftrightarrow> (\<exists>p\<in>set xs. \<exists>ip. ParseIP (TrimSpace p) = Some ip \<and> \<not> ipInAny ip tr)"
  by (induction xs) (auto simp: Let_def split: option.splits)

lemma SplitHostPort_plain:
  assumes "CHR '':'' \<notin> set h" "CHR ''['' \<notin> set h" "CHR '']'' \<notin> set h"
    and "CHR '':'' \<notin> set p" "CHR ''['' \<notin> set p" "CHR '']'' \<notin> set p"
  shows "SplitHostPort (h @ '':'' @ p) = Some (h, p)"
proof -
  have "before_last (CHR '':'') (h @ CHR '':'' # p) = h" "after_last (CHR '':'') (h @ CHR '':'' # p) = p"
    using assms before_last_snoc after_last_snoc by auto
  moreover have "\<exists>x xs. h @ CHR '':'' # p = x # xs \<and> x \<noteq> CHR ''[''" using assms(2) by (cases h) auto
  ultimately show ?thesis using assms by (auto simp: SplitHostPort_def Let_def split: list.splits)
qed

lemma SplitHostPort_bracket:
  assumes "CHR ''['' \<notin> set h" "CHR '']'' \<notin> set h"
    and "CHR '':'' \<notin> set p" "CHR ''['' \<notin> set p" "CHR '']'' \<notin> set p"
  shows "SplitHostPort (''['' @ h @ '']:'' @ p) = Some (h, p)"
proof -
  have b: "before_last (CHR '':'') (CHR ''['' # h @ CHR '']'' # CHR '':'' # p) = CHR ''['' # h @ '']''"
    and a: "after_last (CHR '':'') (CHR ''['' # h @ CHR '']'' # CHR '':'' # p) = p"
    using before_last_snoc [OF assms(3), of "CHR ''['' # h @ '']''"]
      after_last_snoc [OF assms(3), of "CHR ''['' # h @ '']''"] by simp_all
  have t: "takeWhile (\<lambda>c. c \<noteq> CHR '']'') (h @ CHR '']'' # CHR '':'' # p) = h"
    using assms(2) by (subst takeWhile_append2) auto
  show ?thesis using assms a b t by (auto simp: SplitHostPort_def Let_def)
qed

lemma SplitHostPort_Join:
  assumes "CHR ''['' \<notin> set h" "CHR '']'' \<notin> set h"
    and "CHR '':'' \<notin> set p" "CHR ''['' \<notin> set p" "CHR '']'' \<notin> set p"
  shows "SplitHostPort (JoinHostPort h p) = Some (h, p)"
  using SplitHostPort_plain [of h p] SplitHostPort_bracket [of h p] assms
  by (simp add: JoinHostPort_def)

lemma TrimSpace_append_space: "TrimSpace (CHR '' '' # s) = TrimSpace s"
  by (simp add: TrimSpace_def is_space_def)

subsection \<open>Forwarded-for cannot be spoofed\<close>

definition peer_host :: "string \<Rightarrow> string" where
  "peer_host remoteAddr = (case SplitHostPort remoteAddr of Some (h, _) \<Rightarrow> h | None \<Rightarrow> remoteAddr)"

definition peer_trusted :: "string \<Rightarrow> IPNet list \<Rightarrow> bool" where
  "peer_trusted remoteAddr trusted \<longleftrightarrow> (\<exists>ip. ParseIP (peer_host remoteAddr) = Some ip \<and> ipInAny ip trusted)"

text \<open>
  C32. The address used for login rate limiting cannot be spoofed.  A peer outside the trusted
  networks is counted under its own address whatever header it sends; behind a trusted proxy the
  entries a client prepends to \<open>X-Forwarded-For\<close> are ignored as soon as the rest of the header holds
  an untrusted address; and what is taken from the header is always a well-formed address outside
  the trusted networks.
\<close>

theorem clientIP_spoof:
  "(\<not> peer_trusted ra tr \<longrightarrow> clientIP ra xff tr = peer_host ra) \<and>
   ((\<exists>p\<in>set (Split (CHR '','') xff). \<exists>ip. ParseIP (TrimSpace p) = Some ip \<and> \<not> ipInAny ip tr) \<longrightarrow>
      clientIP ra (evil @ '','' @ xff) tr = clientIP ra xff tr) \<and>
   (clientIP ra xff tr \<noteq> peer_host ra \<longrightarrow>
      (\<exists>ip. ParseIP (clientIP ra xff tr) = Some ip \<and> \<not> ipInAny ip tr))"
proof (intro conjI impI)
  show "clientIP ra xff tr = peer_host ra" if "\<not> peer_trusted ra tr"
    using that by (auto simp: clientIP_def peer_trusted_def peer_host_def Let_def split: option.splits)
next
  assume h: "\<exists>p\<in>set (Split (CHR '','') xff). \<exists>ip. ParseIP (TrimSpace p) = Some ip \<and> \<not> ipInAny ip tr"
  then have "xff_walk tr (rev (Split (CHR '','') xff)) \<noteq> None" by (simp only: xff_walk_some) simp
  moreover from h have "xff \<noteq> []" by (auto simp: ParseIP_def TrimSpace_def)
  ultimately show "clientIP ra (evil @ '','' @ xff) tr = clientIP ra xff tr"
    by (auto simp: clientIP_def Let_def Split_app xff_walk_append split: option.splits)
next
  assume "clientIP ra xff tr \<noteq> peer_host ra"
  then show "\<exists>ip. ParseIP (clientIP ra xff tr) = Some ip \<and> \<not> ipInAny ip tr"
    using xff_walk_untrusted
    by (auto simp: clientIP_def peer_host_def Let_def split: option.splits if_splits)
qed

theorem clientIP_spoof_witness:
  "clientIP ''10.0.0.9:4711'' ''1.2.3.4, 203.0.113.7, 10.0.0.8''
     [\<lparr>net_IP = [10, 0, 0, 0], net_Mask = [255, 0, 0, 0]\<rparr>] = ''203.0.113.7''"
proof -
  let ?tr = "[\<lparr>net_IP = [10, 0, 0, 0], net_Mask = [255, 0, 0, 0]\<rparr>]"
  have 1: "''1.2.3.4, 203.0.113.7, 10.0.0.8'' = ''1.2.3.4'' @ '','' @ '' 203.0.113.7, 10.0.0.8''" by simp
  have 2: "Split (CHR '','') '' 203.0.113.7, 10.0.0.8'' = ['' 203.0.113.7'', '' 10.0.0.8'']" by code_simp
  have 3: "ParseIP (TrimSpace '' 203.0.113.7'') = Some [0,0,0,0,0,0,0,0,0,0,255,255,203,0,113,7] \<and>
      \<not> ipInAny [0,0,0,0,0,0,0,0,0,0,255,255,203,0,113,7] ?tr" by code_simp
  have 4: "clientIP ''10.0.0.9:4711'' '' 203.0.113.7, 10.0.0.8'' ?tr = ''203.0.113.7''" by code_simp
  show ?thesis unfolding 1
    using clientIP_spoof [of "''10.0.0.9:4711''" ?tr "'' 203.0.113.7, 10.0.0.8''" "''1.2.3.4''"] 2 3 4
    by auto
qed

end
