(* ===== verification/Ratelimit.thy ===== *)
theory Ratelimit
  imports Prelude
begin

text \<open>
  The two sliding-window failure limiters: the per-address \<open>Limiter\<close>
  (src/pkg/ratelimit/ratelimit.go) and the global login-failure ceiling \<open>globalCounter\<close>
  (src/pkg/admin/globalcounter.go).  The clock reading \<open>time.Now()\<close> of an operation is its
  argument \<open>now\<close>.  The locale \<open>sliding_window\<close> states what the clients of either rely on; its
  lemma \<open>allow_history\<close> says the answer depends on the recorded failures alone, however the
  calls and the background sweeps are interleaved.
\<close>

subsection \<open>The per-address limiter\<close>

record Limiter =
  counts :: "string \<rightharpoonup> time list"
  limit :: int
  window :: duration

datatype ticker_result = TickerPanic | TickerStarted

text \<open>\<open>time.NewTicker\<close> panics on a duration that is not positive.\<close>

definition NewTicker :: "duration \<Rightarrow> ticker_result" where
  "NewTicker d = (if d \<le> 0 then TickerPanic else TickerStarted)"

definition Limiter_New :: "int \<Rightarrow> duration \<Rightarrow> Limiter" where
  "Limiter_New lim win = \<lparr>counts = Map.empty, limit = lim, window = win\<rparr>"

text \<open>The goroutine \<open>New\<close> starts begins by making its ticker.\<close>

definition Limiter_cleanup_start :: "Limiter \<Rightarrow> ticker_result" where
  "Limiter_cleanup_start l = NewTicker (window l)"

definition Limiter_RecordFailure :: "string \<Rightarrow> time \<Rightarrow> Limiter \<Rightarrow> Limiter" where
  "Limiter_RecordFailure ip now l =
     l\<lparr>counts := (counts l)(ip \<mapsto> (case counts l ip of None \<Rightarrow> [] | Some ts \<Rightarrow> ts) @ [now])\<rparr>"

definition Limiter_Allow :: "string \<Rightarrow> time \<Rightarrow> Limiter \<Rightarrow> bool \<times> Limiter" where
  "Limiter_Allow ip now l =
     (case counts l ip of
        None \<Rightarrow> (True, l)
      | Some ts \<Rightarrow>
          let cutoff = now - window l;
              active = compact_slice (\<lambda>t. cutoff < t) ts
          in (int (length active) < limit l, l\<lparr>counts := (counts l)(ip \<mapsto> active)\<rparr>))"

text \<open>One tick of the cleanup goroutine.\<close>

definition Limiter_cleanup :: "time \<Rightarrow> Limiter \<Rightarrow> Limiter" where
  "Limiter_cleanup now l =
     (let cutoff = now - window l
      in l\<lparr>counts := (\<lambda>ip. case counts l ip of
             None \<Rightarrow> None
           | Some ts \<Rightarrow>
               let active = compact_slice (\<lambda>t. cutoff < t) ts
               in if length active = 0 then None else Some active)\<rparr>)"

subsection \<open>The global failure ceiling\<close>

record globalCounter =
  g_times :: "time list"
  g_max :: int
  g_window :: duration

definition newGlobalCounter :: "int \<Rightarrow> duration \<Rightarrow> globalCounter" where
  "newGlobalCounter m win = \<lparr>g_times = [], g_max = m, g_window = win\<rparr>"

definition globalCounter_allow :: "time \<Rightarrow> globalCounter \<Rightarrow> bool \<times> globalCounter" where
  "globalCounter_allow now g =
     (if g_max g \<le> 0 then (True, g)
      else let cutoff = now - g_window g;
               active = compact_slice (\<lambda>t. cutoff < t) (g_times g)
           in (int (length active) < g_max g, g\<lparr>g_times := active\<rparr>))"

definition globalCounter_record :: "time \<Rightarrow> globalCounter \<Rightarrow> globalCounter" where
  "globalCounter_record now g =
     (if g_max g \<le> 0 then g else g\<lparr>g_times := g_times g @ [now]\<rparr>)"

subsection \<open>The interface of a failure limiter\<close>

datatype 'k limiter_event = Failure 'k time | Query 'k time | Sweep time

fun event_time :: "'k limiter_event \<Rightarrow> time" where
  "event_time (Failure k t) = t"
| "event_time (Query k t) = t"
| "event_time (Sweep t) = t"

text \<open>The calls of a history, in order, on an implementation given by its three operations.\<close>

fun limiter_run ::
  "('k \<Rightarrow> time \<Rightarrow> 's \<Rightarrow> 's) \<Rightarrow> ('k \<Rightarrow> time \<Rightarrow> 's \<Rightarrow> bool \<times> 's) \<Rightarrow> (time \<Rightarrow> 's \<Rightarrow> 's) \<Rightarrow>
   'k limiter_event list \<Rightarrow> 's \<Rightarrow> 's" where
  "limiter_run rcd alw swp [] s = s"
| "limiter_run rcd alw swp (Failure k t # es) s = limiter_run rcd alw swp es (rcd k t s)"
| "limiter_run rcd alw swp (Query k t # es) s = limiter_run rcd alw swp es (snd (alw k t s))"
| "limiter_run rcd alw swp (Sweep t # es) s = limiter_run rcd alw swp es (swp t s)"

text \<open>The failures of key \<open>k\<close> in a history, oldest first.\<close>

fun failure_times :: "'k \<Rightarrow> 'k limiter_event list \<Rightarrow> time list" where
  "failure_times k [] = []"
| "failure_times k (Failure k' t # es) =
     (if k' = k then t # failure_times k es else failure_times k es)"
| "failure_times k (Query k' t # es) = failure_times k es"
| "failure_times k (Sweep t # es) = failure_times k es"

fun times_ordered :: "time \<Rightarrow> 'k limiter_event list \<Rightarrow> bool" where
  "times_ordered t0 [] = True"
| "times_ordered t0 (e # es) = (t0 \<le> event_time e \<and> times_ordered (event_time e) es)"

definition within :: "duration \<Rightarrow> time \<Rightarrow> time list \<Rightarrow> time list" where
  "within win now ts = filter (\<lambda>t. now - win < t) ts"

lemma within_append [simp]: "within w t (xs @ ys) = within w t xs @ within w t ys"
  by (simp add: within_def)

lemma within_Nil [simp]: "within w t [] = []" by (simp add: within_def)

lemma within_Cons: "within w t (x # xs) = within w t [x] @ within w t xs"
  by (simp add: within_def)

lemma within_later: "t \<le> t' \<Longrightarrow> within w t' (within w t xs) = within w t' xs"
  by (auto simp: within_def intro: filter_cong)

locale sliding_window =
  fixes rcd :: "'k \<Rightarrow> time \<Rightarrow> 's \<Rightarrow> 's"
    and alw :: "'k \<Rightarrow> time \<Rightarrow> 's \<Rightarrow> bool \<times> 's"
    and swp :: "time \<Rightarrow> 's \<Rightarrow> 's"
    and recent :: "'s \<Rightarrow> 'k \<Rightarrow> time list"
    and cap :: nat
    and win :: duration
    and wf :: "'s \<Rightarrow> bool"
  assumes record_recent:
      "wf s \<Longrightarrow> recent (rcd k t s) k' = (if k' = k then recent s k @ [t] else recent s k')"
    and allow_result: "wf s \<Longrightarrow> fst (alw k t s) \<longleftrightarrow> length (within win t (recent s k)) < cap"
    and allow_recent: "wf s \<Longrightarrow> t \<le> t' \<Longrightarrow>
      within win t' (recent (snd (alw k t s)) k') = within win t' (recent s k')"
    and sweep_recent: "wf s \<Longrightarrow> t \<le> t' \<Longrightarrow>
      within win t' (recent (swp t s) k') = within win t' (recent s k')"
    and wf_record: "wf s \<Longrightarrow> wf (rcd k t s)"
    and wf_allow: "wf s \<Longrightarrow> wf (snd (alw k t s))"
    and wf_sweep: "wf s \<Longrightarrow> wf (swp t s)"
begin

lemma run_wf: "wf s \<Longrightarrow> wf (limiter_run rcd alw swp es s)"
proof (induction es arbitrary: s)
  case (Cons e es)
  then show ?case by (cases e) (auto intro: wf_record wf_allow wf_sweep)
qed simp

lemma run_recent:
  assumes "wf s" "times_ordered t0 es" "\<forall>e \<in> set es. event_time e \<le> now"
  shows "within win now (recent (limiter_run rcd alw swp es s) k) =
         within win now (recent s k @ failure_times k es)"
  using assms
proof (induction es arbitrary: s t0)
  case (Cons e es)
  then show ?case
    by (cases e)
       (auto simp: record_recent allow_recent sweep_recent wf_record wf_allow wf_sweep
          within_Cons [of win now _ "failure_times k es"])
qed simp

lemma allow_history:
  assumes "wf s" "recent s k = []" "times_ordered t0 es" "\<forall>e \<in> set es. event_time e \<le> now"
  shows "fst (alw k now (limiter_run rcd alw swp es s)) \<longleftrightarrow>
         length (within win now (failure_times k es)) < cap"
  using run_recent [OF assms(1,3,4), of k] assms(2) allow_result [OF run_wf [OF assms(1)]]
  by simp

lemma allow_monotone:
  assumes "wf s" "t \<le> t'" "fst (alw k t s)"
  shows "fst (alw k t' s)"
proof -
  have "within win t' (recent s k) = within win t' (within win t (recent s k))"
    using assms(2) by (simp add: within_later)
  then have "length (within win t' (recent s k)) \<le> length (within win t (recent s k))"
    by (metis length_filter_le within_def)
  then show ?thesis using assms allow_result by fastforce
qed

end

definition limiter_recent :: "Limiter \<Rightarrow> string \<Rightarrow> time list" where
  "limiter_recent l ip = (case counts l ip of None \<Rightarrow> [] | Some ts \<Rightarrow> ts)"

lemmas limiter_op_defs = Limiter_New_def Limiter_RecordFailure_def Limiter_Allow_def
  Limiter_cleanup_def limiter_recent_def

interpretation lim: sliding_window Limiter_RecordFailure Limiter_Allow Limiter_cleanup
  limiter_recent "Suc c" w "\<lambda>l. limit l = int (Suc c) \<and> window l = w" for c w
  by unfold_locales
     (auto simp: limiter_op_defs Let_def within_later within_def [symmetric]
        split: option.splits, metis within_Nil within_later)

interpretation glob: sliding_window "\<lambda>(_::unit). globalCounter_record"
  "\<lambda>(_::unit). globalCounter_allow" "\<lambda>_ g. g" "\<lambda>g _. g_times g" "Suc c" w
  "\<lambda>g. g_max g = int (Suc c) \<and> g_window g = w" for c w
  by unfold_locales
     (auto simp: globalCounter_record_def globalCounter_allow_def Let_def within_later
        within_def [symmetric])

subsection \<open>The decisions of the two limiters\<close>

text \<open>
  C13. The per-address limiter decides by the recorded failures alone.  After any sequence
  of failures, queries and background sweeps in the order of the clock, an address is let through
  exactly when fewer than the limit of its failures lie inside the window: pruning and sweeping
  lose nothing, and other addresses do not count.
\<close>

theorem Limiter_Allow_history:
  assumes "times_ordered start es" "\<forall>e\<in>set es. event_time e \<le> now"
  shows "fst (Limiter_Allow ip now
      (limiter_run Limiter_RecordFailure Limiter_Allow Limiter_cleanup es (Limiter_New (int (Suc c)) w))) \<longleftrightarrow>
    length (filter (\<lambda>t. now - w < t) (failure_times ip es)) < Suc c"
  using lim.allow_history [where s = "Limiter_New (int (Suc c)) w" and c = c and w = w, OF _ _ assms]
  by (simp add: limiter_op_defs within_def)

theorem Limiter_Allow_history_witness:
  "\<not> fst (Limiter_Allow ''10.0.0.1'' 10 (limiter_run Limiter_RecordFailure Limiter_Allow Limiter_cleanup
      [Failure ''10.0.0.1'' 1, Query ''10.0.0.1'' 2, Failure ''10.0.0.1'' 7, Sweep 8, Failure ''10.0.0.1'' 9]
      (Limiter_New (int (Suc 1)) 5)))"
  using Limiter_Allow_history [where start = 0 and now = 10 and w = 5 and c = 1 and ip = "''10.0.0.1''" and
      es = "[Failure ''10.0.0.1'' 1, Query ''10.0.0.1'' 2, Failure ''10.0.0.1'' 7, Sweep 8, Failure ''10.0.0.1'' 9]"]
  by simp

text \<open>
  The global ceiling is the same sliding window over all login failures; a ceiling of 0
  or less never blocks and records nothing.
\<close>

theorem globalCounter_history:
  assumes "times_ordered start es" "\<forall>e\<in>set es. event_time e \<le> now"
  shows "fst (globalCounter_allow now
      (limiter_run (\<lambda>(_::unit). globalCounter_record) (\<lambda>_. globalCounter_allow) (\<lambda>_ g. g) es (newGlobalCounter m w))) \<longleftrightarrow>
    m \<le> 0 \<or> int (length (filter (\<lambda>t. now - w < t) (failure_times () es))) < m"
proof (cases "m \<le> 0")
  case True
  have "limiter_run (\<lambda>(_::unit). globalCounter_record) (\<lambda>_. globalCounter_allow) (\<lambda>_ g. g) es g = g"
    if "g_max g \<le> 0" for g
  proof (induction es)
    case (Cons e es)
    then show ?case using that
      by (cases e) (simp_all add: globalCounter_record_def globalCounter_allow_def)
  qed simp
  then show ?thesis using True by (simp add: newGlobalCounter_def globalCounter_allow_def)
next
  case False
  then obtain c where m: "m = int (Suc c)" by (metis gr0_implies_Suc not_le zero_less_imp_eq_int)
  show ?thesis
    using glob.allow_history [where s = "newGlobalCounter m w" and c = c and w = w and k = "()", OF _ _ assms] False
    by (simp add: newGlobalCounter_def m within_def) linarith
qed

theorem globalCounter_history_witness:
  "\<not> fst (globalCounter_allow 10 (limiter_run (\<lambda>(_::unit). globalCounter_record) (\<lambda>_. globalCounter_allow) (\<lambda>_ g. g)
      [Failure () 7, Query () 8, Failure () 9] (newGlobalCounter 2 5)))"
  using globalCounter_history [where start = 0 and now = 10 and w = 5 and m = 2 and
      es = "[Failure () 7, Query () 8, Failure () 9]"] by simp

end
