(* ===== verification/Config.thy ===== *)
theory Config
  imports GoNet Ratelimit
begin

text \<open>
  The configuration (src/pkg/config/config.go): every field, \<open>Load\<close> from the environment and
  \<open>validate\<close>.  The environment is a function from names to values (\<open>''''\<close> for an unset variable,
  as \<open>os.Getenv\<close> returns it).  \<open>time.ParseDuration\<close>, which computes fractions in floating point,
  is the parameter \<open>parseDuration\<close>.
\<close>

record Config =
  ProxyDBPath :: string
  AdminListen :: string
  MetricsListen :: string
  MetricsUserLabel :: bool
  AdminUser :: string
  AdminPassword :: string
  ForceHTTPS :: bool
  AutocertHost :: string
  AutocertDir :: string
  DNSServer :: string
  DNSProtocol :: string
  AuthRetryTimeout :: duration
  ConnectDialTimeout :: duration
  IdleTimeout :: duration
  HTTPTimeout :: duration
  AuthFailRateLimit :: int
  AuthFailWindow :: duration
  AdminLoginRateLimit :: int
  AdminLoginWindow :: duration
  AdminLoginGlobalMax :: int
  TrustedProxyCIDRs :: "string list"
  UserPortMin :: int
  UserPortMax :: int
  LogFormat :: string
  LogHeaders :: bool
  LogNetMode :: string
  LogNetAddr :: string
  LogNetBatchSize :: int
  LogNetFlushInterval :: duration
  PACEnabled :: bool
  PACPath :: string
  PACProxyEndpoint :: string
  PACBypassDomains :: "string list"
  PProfEnabled :: bool
  PProfListen :: string
  DemoMode :: bool
  MITMEnabled :: bool
  MITMCACertFile :: string
  MITMCAKeyFile :: string
  MITMLeafTTL :: duration
  MITMCertCacheSize :: int

type_synonym environment = "string \<Rightarrow> string"

subsection \<open>Reading the environment\<close>

definition envOr :: "environment \<Rightarrow> string \<Rightarrow> string \<Rightarrow> string" where
  "envOr env key fallback = (if env key \<noteq> [] then env key else fallback)"

definition envDuration ::
  "(string \<Rightarrow> duration option) \<Rightarrow> environment \<Rightarrow> string \<Rightarrow> duration \<Rightarrow> duration" where
  "envDuration parseDuration env key fallback =
     (if env key = [] then fallback
      else (case parseDuration (env key) of None \<Rightarrow> fallback | Some d \<Rightarrow> d))"

definition envCSV :: "environment \<Rightarrow> string \<Rightarrow> string list \<Rightarrow> string list" where
  "envCSV env key fallback =
     (if env key = [] then fallback
      else let out = filter (\<lambda>s. s \<noteq> []) (map TrimSpace (Split (CHR '','') (env key)))
           in if length out = 0 then fallback else out)"

definition envBool :: "environment \<Rightarrow> string \<Rightarrow> bool \<Rightarrow> bool" where
  "envBool env key fallback =
     (if env key = [] then fallback
      else (case ParseBool (env key) of None \<Rightarrow> fallback | Some b \<Rightarrow> b))"

definition envInt :: "environment \<Rightarrow> string \<Rightarrow> int \<Rightarrow> int" where
  "envInt env key fallback =
     (if env key = [] then fallback
      else (case Atoi (env key) of None \<Rightarrow> fallback | Some n \<Rightarrow> n))"

subsection \<open>Validation\<close>

datatype config_error =
    EmptyDBPath | NoAdminUser | NoAdminPassword | BadLogFormat string | BadDNSProtocol string
  | NoDNSServer string | BadPortRange int int | BadLogNetMode string | NoLogNetAddr string
  | EmptyPACPath | BadCIDR string | BadLoginRateLimit int | BadLoginWindow duration
  | NoMITMFiles | BadLeafTTL duration | BadCertCacheSize int

definition Config_validate :: "Config \<Rightarrow> config_error + unit" where
  "Config_validate c =
     (if ProxyDBPath c = [] then Inl EmptyDBPath
      else if AdminUser c = [] then Inl NoAdminUser
      else if AdminPassword c = [] then Inl NoAdminPassword
      else if LogFormat c \<noteq> ''json'' \<and> LogFormat c \<noteq> ''human'' then Inl (BadLogFormat (LogFormat c))
      else if DNSProtocol c \<notin> {''plain'', ''tls'', ''https''} then Inl (BadDNSProtocol (DNSProtocol c))
      else if DNSProtocol c \<noteq> ''plain'' \<and> DNSServer c = [] then Inl (NoDNSServer (DNSProtocol c))
      else if UserPortMin c > UserPortMax c then Inl (BadPortRange (UserPortMin c) (UserPortMax c))
      else if LogNetMode c \<notin> {'''', ''json-udp'', ''json-http''} then Inl (BadLogNetMode (LogNetMode c))
      else if LogNetMode c \<noteq> [] \<and> LogNetAddr c = [] then Inl (NoLogNetAddr (LogNetMode c))
      else if PACEnabled c \<and> PACPath c = [] then Inl EmptyPACPath
      else (case find (\<lambda>cidr. ParseCIDR cidr = None) (TrustedProxyCIDRs c) of
              Some cidr \<Rightarrow> Inl (BadCIDR cidr)
            | None \<Rightarrow>
                if AdminLoginRateLimit c < 1 then Inl (BadLoginRateLimit (AdminLoginRateLimit c))
                else if AdminLoginWindow c \<le> 0 then Inl (BadLoginWindow (AdminLoginWindow c))
                else if MITMEnabled c then
                  (if MITMCACertFile c = [] \<or> MITMCAKeyFile c = [] then Inl NoMITMFiles
                   else if MITMLeafTTL c \<le> 0 then Inl (BadLeafTTL (MITMLeafTTL c))
                   else if MITMCertCacheSize c < 1 then Inl (BadCertCacheSize (MITMCertCacheSize c))
                   else Inr ())
                else Inr ()))"

definition config_from_env :: "(string \<Rightarrow> duration option) \<Rightarrow> environment \<Rightarrow> Config" where
  "config_from_env parseDuration env =
     \<lparr>ProxyDBPath = envOr env ''PROXY_DB_PATH'' ''/data/evan-proxy/users.db'',
      AdminListen = envOr env ''ADMIN_LISTEN'' '':9090'',
      MetricsListen = envOr env ''METRICS_LISTEN'' ''127.0.0.1:9091'',
      MetricsUserLabel = envBool env ''METRICS_USER_LABEL'' False,
      AdminUser = env ''ADMIN_USER'',
      AdminPassword = env ''ADMIN_PASSWORD'',
      ForceHTTPS = envBool env ''FORCE_HTTPS'' False,
      AutocertHost = env ''AUTOCERT_HOST'',
      AutocertDir = envOr env ''AUTOCERT_DIR'' ''/data/evan-proxy/autocert'',
      DNSServer = env ''DNS_SERVER'',
      DNSProtocol = envOr env ''DNS_PROTOCOL'' ''plain'',
      AuthRetryTimeout = envDuration parseDuration env ''AUTH_RETRY_TIMEOUT'' (5 * second),
      ConnectDialTimeout = envDuration parseDuration env ''CONNECT_DIAL_TIMEOUT'' (10 * second),
      IdleTimeout = envDuration parseDuration env ''IDLE_TIMEOUT'' (300 * second),
      HTTPTimeout = envDuration parseDuration env ''HTTP_TIMEOUT'' (30 * second),
      AuthFailRateLimit = envInt env ''AUTH_FAIL_RATE_LIMIT'' 5,
      AuthFailWindow = envDuration parseDuration env ''AUTH_FAIL_WINDOW'' (60 * second),
      AdminLoginRateLimit = envInt env ''ADMIN_LOGIN_RATE_LIMIT'' 5,
      AdminLoginWindow = envDuration parseDuration env ''ADMIN_LOGIN_WINDOW'' (15 * minute),
      AdminLoginGlobalMax = envInt env ''ADMIN_LOGIN_GLOBAL_MAX'' 100,
      TrustedProxyCIDRs = envCSV env ''TRUSTED_PROXY_CIDRS'' [],
      UserPortMin = envInt env ''USER_PORT_MIN'' 8081,
      UserPortMax = envInt env ''USER_PORT_MAX'' 8090,
      LogFormat = envOr env ''LOG_FORMAT'' ''human'',
      LogHeaders = envBool env ''LOG_HEADERS'' False,
      LogNetMode = env ''LOG_NET_MODE'',
      LogNetAddr = env ''LOG_NET_ADDR'',
      LogNetBatchSize = envInt env ''LOG_NET_BATCH_SIZE'' 100,
      LogNetFlushInterval = envDuration parseDuration env ''LOG_NET_FLUSH_INTERVAL'' (5 * second),
      PACEnabled = envBool env ''PAC_ENABLED'' False,
      PACPath = envOr env ''PAC_PATH'' ''/proxy.pac'',
      PACProxyEndpoint = env ''PAC_PROXY_ENDPOINT'',
      PACBypassDomains = envCSV env ''PAC_BYPASS_DOMAINS''
        [''venmo.com'', ''paypal.com'', ''paypalobjects.com'', ''braintreegateway.com'', ''braintree-api.com''],
      PProfEnabled = envBool env ''PPROF_ENABLED'' False,
      PProfListen = envOr env ''PPROF_LISTEN'' ''127.0.0.1:6060'',
      DemoMode = envBool env ''DEMO_MODE'' False,
      MITMEnabled = envBool env ''MITM_ENABLED'' False,
      MITMCACertFile = env ''MITM_CA_CERT_FILE'',
      MITMCAKeyFile = env ''MITM_CA_KEY_FILE'',
      MITMLeafTTL = envDuration parseDuration env ''MITM_LEAF_TTL'' (168 * hour),
      MITMCertCacheSize = envInt env ''MITM_CERT_CACHE_SIZE'' 1000\<rparr>"

definition Config_Load :: "(string \<Rightarrow> duration option) \<Rightarrow> environment \<Rightarrow> config_error + Config" where
  "Config_Load parseDuration env =
     (let cfg = config_from_env parseDuration env;
          cfg = (if AutocertHost cfg \<noteq> [] then cfg\<lparr>ForceHTTPS := True\<rparr> else cfg)
      in case Config_validate cfg of Inl e \<Rightarrow> Inl e | Inr _ \<Rightarrow> Inr cfg)"

subsection \<open>What a loaded configuration guarantees\<close>

lemma guard_Inr: "(if b then Inl e else r) = Inr u \<longleftrightarrow> \<not> b \<and> r = Inr u"
  by simp

lemma guard_find_Inr:
  "(case find P xs of Some x \<Rightarrow> Inl (f x) | None \<Rightarrow> r) = Inr u \<longleftrightarrow> (\<forall>x\<in>set xs. \<not> P x) \<and> r = Inr u"
  by (induction xs) auto

lemma guard_opt_Inr: "(if b then r else Inr u) = Inr u \<longleftrightarrow> (b \<longrightarrow> r = Inr u)"
  by simp

lemma validate_Inr:
  "Config_validate c = Inr () \<longleftrightarrow>
     ProxyDBPath c \<noteq> [] \<and> AdminUser c \<noteq> [] \<and> AdminPassword c \<noteq> [] \<and>
     LogFormat c \<in> {''json'', ''human''} \<and> DNSProtocol c \<in> {''plain'', ''tls'', ''https''} \<and>
     (DNSProtocol c \<noteq> ''plain'' \<longrightarrow> DNSServer c \<noteq> []) \<and> UserPortMin c \<le> UserPortMax c \<and>
     LogNetMode c \<in> {'''', ''json-udp'', ''json-http''} \<and> (LogNetMode c \<noteq> [] \<longrightarrow> LogNetAddr c \<noteq> []) \<and>
     (PACEnabled c \<longrightarrow> PACPath c \<noteq> []) \<and> (\<forall>cidr\<in>set (TrustedProxyCIDRs c). ParseCIDR cidr \<noteq> None) \<and>
     AdminLoginRateLimit c \<ge> 1 \<and> AdminLoginWindow c > 0 \<and>
     (MITMEnabled c \<longrightarrow> MITMCACertFile c \<noteq> [] \<and> MITMCAKeyFile c \<noteq> [] \<and> MITMLeafTTL c > 0 \<and>
        MITMCertCacheSize c \<ge> 1)"
  unfolding Config_validate_def
  by (simp only: guard_Inr guard_find_Inr guard_opt_Inr sum.distinct simp_thms not_less not_le) fast

lemma envOr_ne [simp]: "b \<noteq> [] \<Longrightarrow> envOr env k b \<noteq> []"
  by (simp add: envOr_def)

lemma Load_Inr:
  assumes "Config_Load pd env = Inr c"
  shows "Config_validate c = Inr ()"
    and "c = (config_from_env pd env)\<lparr>ForceHTTPS := ForceHTTPS c\<rparr>"
    and "AutocertHost c \<noteq> [] \<longrightarrow> ForceHTTPS c"
proof -
  let ?base = "config_from_env pd env"
  let ?cfg = "if AutocertHost ?base \<noteq> [] then ?base\<lparr>ForceHTTPS := True\<rparr> else ?base"
  have v: "Config_validate ?cfg = Inr ()" and c: "c = ?cfg"
    using assms by (auto simp: Config_Load_def Let_def split: sum.splits)
  show "Config_validate c = Inr ()" using v c by simp
  show "c = ?base\<lparr>ForceHTTPS := ForceHTTPS c\<rparr>" using c by simp
  show "AutocertHost c \<noteq> [] \<longrightarrow> ForceHTTPS c" using c by simp
qed

text \<open>
  A configuration that loads is usable.  The admin account is set, the port range is
  non-empty, the login limiter has a positive limit and window, trusted proxies parse, the DNS
  and logging modes are known and have their addresses, interception has its certificate, key,
  lifetime and a cache of at least one entry; terminating TLS in process forces secure cookies.
\<close>

theorem Load_guarantees:
  assumes "Config_Load pd env = Inr c"
  shows "AdminUser c \<noteq> [] \<and> AdminPassword c \<noteq> [] \<and> UserPortMin c \<le> UserPortMax c \<and>
     AdminLoginRateLimit c \<ge> 1 \<and> NewTicker (AdminLoginWindow c) = TickerStarted \<and>
     (\<forall>cidr\<in>set (TrustedProxyCIDRs c). ParseCIDR cidr \<noteq> None) \<and>
     DNSProtocol c \<in> {''plain'', ''tls'', ''https''} \<and> (DNSProtocol c \<noteq> ''plain'' \<longrightarrow> DNSServer c \<noteq> []) \<and>
     (LogNetMode c \<noteq> [] \<longrightarrow> LogNetAddr c \<noteq> []) \<and>
     (MITMEnabled c \<longrightarrow> MITMCACertFile c \<noteq> [] \<and> MITMCAKeyFile c \<noteq> [] \<and> MITMLeafTTL c > 0 \<and> MITMCertCacheSize c \<ge> 1) \<and>
     (AutocertHost c \<noteq> [] \<longrightarrow> ForceHTTPS c)"
  using Load_Inr(1,3) [OF assms] unfolding validate_Inr
  by (simp add: NewTicker_def not_le)

text \<open>
  The legacy mount of the metrics on the admin port cannot be configured: an empty
  \<open>METRICS_LISTEN\<close> is read as unset, so every loaded configuration has a metrics listener of its own
  (and a database path, whose emptiness check can never fail).
\<close>

theorem Load_metrics_listener:
  assumes "Config_Load pd env = Inr c"
  shows "MetricsListen c \<noteq> [] \<and> ProxyDBPath c \<noteq> [] \<and> PACPath c \<noteq> [] \<and>
     (env ''METRICS_LISTEN'' = [] \<longrightarrow> MetricsListen c = ''127.0.0.1:9091'')"
  by (subst (1 2 3 4) Load_Inr(2) [OF assms]) (simp add: config_from_env_def envOr_def)

definition ex_env :: environment where
  "ex_env k = (if k = ''ADMIN_USER'' then ''root'' else if k = ''ADMIN_PASSWORD'' then ''$2a$10$x''
     else if k = ''AUTH_FAIL_WINDOW'' then ''0s'' else [])"

definition ex_duration :: "string \<Rightarrow> duration option" where
  "ex_duration s = (if s = ''0s'' then Some 0 else None)"

lemma ex_Load: "Config_Load ex_duration ex_env = Inr (config_from_env ex_duration ex_env)"
proof -
  have "Config_validate (config_from_env ex_duration ex_env) = Inr ()"
    unfolding validate_Inr
    by (simp add: config_from_env_def ex_env_def envOr_def envInt_def envBool_def envCSV_def
        envDuration_def duration_defs)
  moreover have "AutocertHost (config_from_env ex_duration ex_env) = []"
    by (simp add: config_from_env_def ex_env_def)
  ultimately show ?thesis by (simp add: Config_Load_def Let_def)
qed

theorem Load_guarantees_witness:
  "\<exists>c. Config_Load ex_duration ex_env = Inr c \<and> AdminUser c \<noteq> [] \<and> UserPortMin c \<le> UserPortMax c"
  using Load_guarantees [OF ex_Load] ex_Load by blast

theorem Load_metrics_listener_witness:
  "\<exists>c. Config_Load ex_duration ex_env = Inr c \<and> MetricsListen c = ''127.0.0.1:9091''"
  using Load_metrics_listener [OF ex_Load] ex_Load by (auto simp: ex_env_def)

text \<open>
  A configuration that loads can still crash the proxy at start-up: the window of the
  proxy's own failure limiter is not validated, and with \<open>AUTH_FAIL_WINDOW=0s\<close> the limiter's
  cleanup goroutine panics when it makes its ticker.
\<close>

theorem Load_zero_window_panics:
  assumes "Config_Load pd env = Inr c" "pd (env ''AUTH_FAIL_WINDOW'') = Some w" "env ''AUTH_FAIL_WINDOW'' \<noteq> []" "w \<le> 0"
  shows "Limiter_cleanup_start (Limiter_New (AuthFailRateLimit c) (AuthFailWindow c)) = TickerPanic"
proof -
  have "AuthFailWindow c = w"
    by (subst Load_Inr(2) [OF assms(1)]) (simp add: config_from_env_def envDuration_def assms)
  then show ?thesis using assms(4) by (simp add: Limiter_cleanup_start_def Limiter_New_def NewTicker_def)
qed

theorem Load_zero_window_panics_witness:
  "\<exists>c. Config_Load ex_duration ex_env = Inr c \<and>
     Limiter_cleanup_start (Limiter_New (AuthFailRateLimit c) (AuthFailWindow c)) = TickerPanic"
  using Load_zero_window_panics [OF ex_Load, of 0] ex_Load by (auto simp: ex_env_def ex_duration_def)

end
