(* ===== verification/Dns.thy ===== *)
theory Dns
  imports GoNet
begin

text \<open>
  Name resolution: resolvers and their cache (src/pkg/dns/resolver.go), DNS over HTTPS
  (src/pkg/dns/doh.go), the admin API's normalisation of server addresses, and the dial path of
  the proxy that refuses names a filtering resolver maps to a null or loopback address
  (\<open>isDNSBlocked\<close>, \<open>classifyDialError\<close> and the closure \<open>dialWithBlockCheck\<close> of src/pkg/proxy/handler.go).

  What happens on the wire is a parameter: the answer of the system or DNS-over-TLS resolver,
  the HTTP exchange of a DoH query, the message encoder and parser of \<open>dnsmessage\<close> and the final dial.
\<close>

subsection \<open>Resolvers\<close>

datatype Resolver =
    ResDefault
  | ResUDP string
  | ResTLS string string  \<comment> \<open>dial address and TLS server name\<close>
  | ResDoH string

datatype dns_error = UnsupportedProtocol string | DoHURLRequired

text \<open>The texts of the two errors; \<open>quote\<close> is \<open>%q\<close>.\<close>

fun dns_error_text :: "(string \<Rightarrow> string) \<Rightarrow> dns_error \<Rightarrow> string" where
  "dns_error_text quote (UnsupportedProtocol protocol) = ''unsupported DNS protocol: '' @ quote protocol"
| "dns_error_text quote DoHURLRequired = ''DoH server URL required''"

definition newPlain :: "string \<Rightarrow> Resolver" where
  "newPlain server = (if server = [] then ResDefault else ResUDP server)"

definition newTLS :: "string \<Rightarrow> dns_error + Resolver" where
  "newTLS server =
     (case SplitHostPort server of
        Some (host, _) \<Rightarrow> Inr (ResTLS server host)
      | None \<Rightarrow> Inr (ResTLS (JoinHostPort server ''853'') server))"

definition newDoH :: "string \<Rightarrow> dns_error + Resolver" where
  "newDoH serverURL = (if serverURL = [] then Inl DoHURLRequired else Inr (ResDoH serverURL))"

definition Resolver_New :: "string \<Rightarrow> string \<Rightarrow> dns_error + Resolver" where
  "Resolver_New protocol server =
     (if protocol = ''plain'' \<or> protocol = [] then Inr (newPlain server)
      else if protocol = ''tls'' then newTLS server
      else if protocol = ''https'' then newDoH server
      else Inl (UnsupportedProtocol protocol))"

text \<open>Both lookups of the double-checked locking see the same map when nothing runs in between.\<close>

definition GetOrCreate ::
  "string \<Rightarrow> string \<Rightarrow> (string \<rightharpoonup> Resolver) \<Rightarrow> (dns_error + Resolver) \<times> (string \<rightharpoonup> Resolver)" where
  "GetOrCreate protocol server cache =
     (let key = protocol @ '':'' @ server
      in case cache key of
           Some r \<Rightarrow> (Inr r, cache)
         | None \<Rightarrow>
             (case Resolver_New protocol server of
                Inl e \<Rightarrow> (Inl e, cache)
              | Inr r \<Rightarrow> (Inr r, cache(key \<mapsto> r))))"

definition normalizeDNSServer :: "string \<Rightarrow> string \<Rightarrow> string" where
  "normalizeDNSServer server protocol =
     (if protocol = ''plain'' \<or> protocol = ''tls'' then
        (if SplitHostPort server = None
         then JoinHostPort server (if protocol = ''tls'' then ''853'' else ''53'')
         else server)
      else if protocol = ''https'' then
        (if \<not> HasPrefix server ''https://'' then ''https://'' @ server else server)
      else server)"

subsection \<open>DNS over HTTPS\<close>

text \<open>
  What \<open>query\<close> and \<open>lookupIPAddr\<close> use of \<open>dnsmessage\<close> and net/http, errors as their texts: \<open>NewName\<close> and \<open>NewRequest\<close> give an error or nothing, the
  HTTP exchange a status and the outcome of reading the body, the parser the answers in order once it has started and skipped the questions.  The
  resource of an answer may be malformed, and so may a header.
\<close>

datatype qtype = TypeA | TypeAAAA

record doh_message =
  dm_RecursionDesired :: bool
  dm_Questions :: "(string \<times> qtype) list"

record doh_request =
  dr_url :: string
  dr_body :: string
  dr_header :: "(string \<times> string) list"

datatype answer = AnsA "string + IP" | AnsAAAA "string + IP" | AnsOther "string option" | AnsHeaderError string

record doh_io =
  io_NewName :: "string \<Rightarrow> string option"
  io_Pack :: "doh_message \<Rightarrow> string + string"
  io_NewRequest :: "string \<Rightarrow> string option"
  io_Do :: "doh_request \<Rightarrow> string + (nat \<times> (string + string))"
  io_answers :: "string \<Rightarrow> string + answer list"

fun doh_answers :: "answer list \<Rightarrow> IP list \<Rightarrow> string + IP list" where
  "doh_answers [] addrs = Inr addrs"
| "doh_answers (AnsHeaderError err # rest) addrs = Inl err"
| "doh_answers (AnsA (Inl err) # rest) addrs = Inl err"
| "doh_answers (AnsA (Inr ip) # rest) addrs = doh_answers rest (addrs @ [ip])"
| "doh_answers (AnsAAAA (Inl err) # rest) addrs = Inl err"
| "doh_answers (AnsAAAA (Inr ip) # rest) addrs = doh_answers rest (addrs @ [ip])"
| "doh_answers (AnsOther (Some err) # rest) addrs = Inl err"
| "doh_answers (AnsOther None # rest) addrs = doh_answers rest addrs"

definition dohClient_query :: "doh_io \<Rightarrow> string \<Rightarrow> string \<Rightarrow> qtype \<Rightarrow> string + IP list" where
  "dohClient_query io url name qtype =
     (case io_Pack io \<lparr>dm_RecursionDesired = True, dm_Questions = [(name, qtype)]\<rparr> of
        Inl err \<Rightarrow> Inl err
      | Inr packed \<Rightarrow>
          (case io_NewRequest io url of
             Some err \<Rightarrow> Inl err
           | None \<Rightarrow>
               (case io_Do io \<lparr>dr_url = url, dr_body = packed,
                    dr_header = [(''Content-Type'', ''application/dns-message''), (''Accept'', ''application/dns-message'')]\<rparr> of
                  Inl err \<Rightarrow> Inl err
                | Inr (status, body) \<Rightarrow>
                    if status \<noteq> 200 then Inl (''DoH server returned '' @ nat_str status)
                    else (case body of
                            Inl err \<Rightarrow> Inl err
                          | Inr body \<Rightarrow> (case io_answers io body of Inl err \<Rightarrow> Inl err | Inr answers \<Rightarrow> doh_answers answers [])))))"

text \<open>The two results are appended in the order they arrive on the channel.\<close>

fun doh_collect :: "(string + IP list) list \<Rightarrow> IP list \<Rightarrow> string option \<Rightarrow> string + IP list" where
  "doh_collect [] all firstErr =
     (case firstErr of
        Some e \<Rightarrow> if length all = 0 then Inl e else Inr all
      | None \<Rightarrow> Inr all)"
| "doh_collect (Inl e # rs) all firstErr =
     doh_collect rs all (if firstErr = None then Some e else firstErr)"
| "doh_collect (Inr addrs # rs) all firstErr = doh_collect rs (all @ addrs) firstErr"

text \<open>\<open>a_first\<close>: the answer to the A query arrives first.\<close>

definition dohClient_lookupIPAddr :: "doh_io \<Rightarrow> (string \<Rightarrow> string) \<Rightarrow> bool \<Rightarrow> string \<Rightarrow> string \<Rightarrow> string + IP list" where
  "dohClient_lookupIPAddr io quote a_first url host =
     (case io_NewName io (host @ ''.'') of
        Some err \<Rightarrow> Inl (''invalid hostname '' @ quote host @ '': '' @ err)
      | None \<Rightarrow>
          doh_collect (map (dohClient_query io url (host @ ''.'')) (if a_first then [TypeA, TypeAAAA] else [TypeAAAA, TypeA])) [] None)"

definition Resolver_LookupIPAddr ::
  "(Resolver \<Rightarrow> string \<Rightarrow> string + IP list) \<Rightarrow> (string \<Rightarrow> string \<Rightarrow> string + IP list) \<Rightarrow>
   Resolver \<Rightarrow> string \<Rightarrow> string + IP list" where
  "Resolver_LookupIPAddr std_lookup doh_lookup r host =
     (case r of ResDoH url \<Rightarrow> doh_lookup url host | _ \<Rightarrow> std_lookup r host)"

text \<open>The resolver for \<open>net.Dialer\<close>: none for DNS over HTTPS.\<close>

definition NetResolver :: "Resolver \<Rightarrow> Resolver option" where
  "NetResolver r = (case r of ResDoH _ \<Rightarrow> None | _ \<Rightarrow> Some r)"

subsection \<open>Dialling with the block check\<close>

definition IPv4zero :: IP where "IPv4zero = replicate 10 0 @ [255, 255] @ [0, 0, 0, 0]"

definition loopbackNet :: IPNet where
  "loopbackNet = \<lparr>net_IP = replicate 10 0 @ [255, 255] @ [127, 0, 0, 0], net_Mask = [255, 0, 0, 0]\<rparr>"

definition isDNSBlocked :: "IP \<Rightarrow> bool" where
  "isDNSBlocked ip \<longleftrightarrow> IsLoopback ip \<or> IP_Equal ip IPv4zero \<or> IPNet_Contains loopbackNet ip"

datatype dial_error = DialDNSBlocked string IP | DialError string

datatype dns_outcome = DNSNone | DNSFailure | DNSBlocked | DNSSuccess

text \<open>
  \<open>dialer\<close> opens the connection to an address, \<open>ip_string\<close> prints an address; the second result
  is what the DNS observer is told.
\<close>

definition dialWithBlockCheck ::
  "(string \<Rightarrow> string + IP list) \<Rightarrow> (string \<Rightarrow> string + 'conn) \<Rightarrow> (IP \<Rightarrow> string) \<Rightarrow> string \<Rightarrow>
   (dial_error + 'conn) \<times> dns_outcome" where
  "dialWithBlockCheck lookup dialer ip_string address =
     (let dial = (\<lambda>a. case dialer a of Inl e \<Rightarrow> Inl (DialError e) | Inr c \<Rightarrow> Inr c)
      in case SplitHostPort address of
           None \<Rightarrow> (dial address, DNSNone)
         | Some (host, port) \<Rightarrow>
             if ParseIP host = None then
               (case lookup host of
                  Inl e \<Rightarrow> (Inl (DialError e), DNSFailure)
                | Inr [] \<Rightarrow> (Inl (DialError (''dns: no addresses for '' @ host)), DNSFailure)
                | Inr (ip # _) \<Rightarrow>
                    if isDNSBlocked ip then (Inl (DialDNSBlocked host ip), DNSBlocked)
                    else (dial (JoinHostPort (ip_string ip) port), DNSSuccess))
             else (dial address, DNSNone))"

definition classifyDialError :: "dial_error \<Rightarrow> nat \<times> string" where
  "classifyDialError err =
     (case err of
        DialDNSBlocked _ _ \<Rightarrow> (523, ''dns-block'')
      | DialError msg \<Rightarrow>
          if Contains msg ''no such host'' \<or> Contains msg ''no addresses'' \<or> Contains msg ''server misbehaving''
          then (502, ''dns-err'')
          else if Contains msg ''i/o timeout'' \<or> Contains msg ''deadline exceeded'' then (504, ''timeout'')
          else if Contains msg ''connection refused'' then (502, ''refused'')
          else (502, []))"

subsection \<open>Lemmas and properties\<close>

definition cache_ok :: "(string \<rightharpoonup> Resolver) \<Rightarrow> bool" where
  "cache_ok c \<longleftrightarrow> (\<forall>p s r. CHR '':'' \<notin> set p \<longrightarrow> c (p @ '':'' @ s) = Some r \<longrightarrow> Resolver_New p s = Inr r)"

lemma colon_key_inj:
  assumes "CHR '':'' \<notin> set p" "CHR '':'' \<notin> set q" and eq: "p @ '':'' @ s = q @ '':'' @ t"
  shows "p = q \<and> s = t"
proof -
  have "[p, s] = SplitN2 (CHR '':'') (p @ '':'' @ s)" using SplitN2_append [OF assms(1)] by simp
  also have "\<dots> = SplitN2 (CHR '':'') (q @ '':'' @ t)" by (simp only: eq)
  also have "\<dots> = [q, t]" using SplitN2_append [OF assms(2)] by simp
  finally show ?thesis by simp
qed

lemma GetOrCreate_ok:
  assumes "cache_ok c" "CHR '':'' \<notin> set p"
  shows "fst (GetOrCreate p s c) = Resolver_New p s" "cache_ok (snd (GetOrCreate p s c))"
proof -
  show "fst (GetOrCreate p s c) = Resolver_New p s"
    using assms by (auto simp: GetOrCreate_def Let_def cache_ok_def split: option.splits sum.splits)
  show "cache_ok (snd (GetOrCreate p s c))"
    unfolding cache_ok_def
  proof (intro allI impI)
    fix q t r
    assume q: "CHR '':'' \<notin> set q" and r: "snd (GetOrCreate p s c) (q @ '':'' @ t) = Some r"
    show "Resolver_New q t = Inr r"
    proof (cases "p = q \<and> s = t")
      case True
      then show ?thesis using r assms
        by (auto simp: GetOrCreate_def Let_def cache_ok_def split: option.splits sum.splits)
    next
      case False
      then have "p @ '':'' @ s \<noteq> q @ '':'' @ t" using colon_key_inj [OF assms(2) q] by blast
      then have "c (q @ '':'' @ t) = Some r" using r
        by (auto simp: GetOrCreate_def Let_def split: option.splits sum.splits)
      then show ?thesis using assms(1) q by (simp add: cache_ok_def)
    qed
  qed
qed

text \<open>The cache after a sequence of requests.\<close>

definition resolver_cache :: "(string \<times> string) list \<Rightarrow> (string \<rightharpoonup> Resolver)" where
  "resolver_cache reqs = foldl (\<lambda>c (p, s). snd (GetOrCreate p s c)) Map.empty reqs"

lemma resolver_cache_ok:
  assumes "\<forall>(p, s)\<in>set reqs. CHR '':'' \<notin> set p"
  shows "cache_ok (resolver_cache reqs)"
proof -
  have "cache_ok (foldl (\<lambda>c (p, s). snd (GetOrCreate p s c)) c reqs)" if "cache_ok c" for c
    using that assms GetOrCreate_ok(2) by (induction reqs arbitrary: c) auto
  moreover have "cache_ok Map.empty" by (simp add: cache_ok_def)
  ultimately show ?thesis unfolding resolver_cache_def by blast
qed

text \<open>
  C38. The resolver cache is transparent.  After any sequence of requests with colon-free
  protocol names (the admin API stores no others) \<open>GetOrCreate\<close> returns what \<open>New\<close> would: the key
  \<open>protocol:server\<close> never hands a user the resolver of another server.
\<close>

theorem GetOrCreate_transparent:
  assumes "\<forall>(p, s)\<in>set reqs. CHR '':'' \<notin> set p" "CHR '':'' \<notin> set protocol"
  shows "fst (GetOrCreate protocol server (resolver_cache reqs)) = Resolver_New protocol server"
proof -
  show ?thesis using GetOrCreate_ok(1) [OF resolver_cache_ok [OF assms(1)] assms(2)] .
qed

theorem GetOrCreate_transparent_witness:
  "fst (GetOrCreate ''tls'' ''9.9.9.9:853'' (resolver_cache [(''plain'', ''1.1.1.1:53''), (''tls'', ''9.9.9.9:853'')])) = Resolver_New ''tls'' ''9.9.9.9:853''"
  using GetOrCreate_transparent [of "[(''plain'', ''1.1.1.1:53''), (''tls'', ''9.9.9.9:853'')]" "''tls''" "''9.9.9.9:853''"]
  by simp

text \<open>
  Normalising a DNS server address is idempotent for every host without brackets: an
  address the admin API has stored is left alone when it is submitted again, and the port it got is the
  default of its protocol.
\<close>

theorem normalizeDNSServer_idem:
  assumes "CHR ''['' \<notin> set server" "CHR '']'' \<notin> set server"
  shows "normalizeDNSServer (normalizeDNSServer server protocol) protocol = normalizeDNSServer server protocol"
proof -
  have "SplitHostPort (JoinHostPort server ''853'') = Some (server, ''853'')"
    "SplitHostPort (JoinHostPort server ''53'') = Some (server, ''53'')"
    using assms by (auto intro!: SplitHostPort_Join)
  moreover have "HasPrefix (''https://'' @ server) ''https://''" by (rule HasPrefix_append)
  ultimately show ?thesis unfolding normalizeDNSServer_def by auto
qed

theorem normalizeDNSServer_idem_witness:
  "normalizeDNSServer (normalizeDNSServer ''2606:4700::1111'' ''tls'') ''tls'' = normalizeDNSServer ''2606:4700::1111'' ''tls''"
  by (rule normalizeDNSServer_idem) simp_all

text \<open>
  The addresses that filtering resolvers answer for a blocked name: 0.0.0.0, all of 127.0.0.0/8 (plain or mapped into IPv6) and ::1.
\<close>

definition sinkhole :: "IP \<Rightarrow> bool" where
  "sinkhole ip \<longleftrightarrow>
     ip = replicate 15 0 @ [1] \<or>
     (\<exists>v4. length v4 = 4 \<and> (ip = v4 \<or> ip = replicate 10 0 @ [255, 255] @ v4) \<and> (hd v4 = 127 \<or> v4 = [0, 0, 0, 0]))"

definition wf_ip :: "IP \<Rightarrow> bool" where
  "wf_ip ip \<longleftrightarrow> (length ip = 4 \<or> length ip = 16) \<and> list_all (\<lambda>b. b < 256) ip"

text \<open>
  Only the first address is checked, and a DoH lookup lists the two record types in the
  order their answers arrive: when a filtering resolver nulls the A record only, or answers the
  unspecified IPv6 address, the block holds or fails by the timing of two parallel queries.
\<close>

definition ex_doh :: doh_io where
  "ex_doh = \<lparr>io_NewName = (\<lambda>_. None),
     io_Pack = (\<lambda>m. Inr (if map snd (dm_Questions m) = [TypeA] then ''A'' else ''AAAA'')), io_NewRequest = (\<lambda>_. None),
     io_Do = (\<lambda>r. Inr (200, Inr (dr_body r))),
     io_answers = (\<lambda>b. Inr (if b = ''A'' then [AnsA (Inr [0, 0, 0, 0])] else [AnsOther None, AnsAAAA (Inr (replicate 16 0))]))\<rparr>"

theorem doh_block_race:
  "(case dohClient_lookupIPAddr ex_doh id True ''https://1.1.1.1'' ''ads.example'' of Inr (ip # _) \<Rightarrow> isDNSBlocked ip | _ \<Rightarrow> False)"
  "\<not> (case dohClient_lookupIPAddr ex_doh id False ''https://1.1.1.1'' ''ads.example'' of Inr (ip # _) \<Rightarrow> isDNSBlocked ip | _ \<Rightarrow> False)"
  by code_simp+

definition addrs_of :: "string + IP list \<Rightarrow> IP list" where
  "addrs_of q = (case q of Inr ips \<Rightarrow> ips | Inl _ \<Rightarrow> [])"

text \<open>
  A lookup over HTTPS loses nothing and survives one failure: whichever answer is first, the addresses are those of both queries, and there
  is an error only when a query failed and neither gave an address.
\<close>

theorem doh_lookup_complete:
  assumes "io_NewName io (host @ ''.'') = None"
    and "dohClient_query io url (host @ ''.'') TypeA = qA" "dohClient_query io url (host @ ''.'') TypeAAAA = qAAAA"
  shows "(case dohClient_lookupIPAddr io quote first url host of
       Inr ips \<Rightarrow> mset ips = mset (addrs_of qA) + mset (addrs_of qAAAA)
     | Inl e \<Rightarrow> (qA = Inl e \<or> qAAAA = Inl e) \<and> addrs_of qA = [] \<and> addrs_of qAAAA = [])"
proof -
  have "dohClient_lookupIPAddr io quote first url host = doh_collect (if first then [qA, qAAAA] else [qAAAA, qA]) [] None"
    by (simp add: dohClient_lookupIPAddr_def assms)
  then show ?thesis by (cases qA; cases qAAAA) (simp_all add: addrs_of_def)
qed

end
