(* ===== verification/Bypass.thy ===== *)
theory Bypass
  imports GoNet
begin

text \<open>
  Which hosts stay reachable for a paused user (src/pkg/mitm/bypass.go) and the host
  normalisation shared by the interception code (\<open>normalizeHost\<close> of src/pkg/mitm/mint.go).

  The exact-match set that \<open>compilePatterns\<close> builds is a set of strings, the wildcard suffixes a list.
\<close>

definition normalizeHost :: "string \<Rightarrow> string" where
  "normalizeHost host =
     (let host = TrimSpace (ToLower host)
      in if host = [] then []
         else let host = (case SplitHostPort host of Some (h, _) \<Rightarrow> h | None \<Rightarrow> host);
                  host = TrimSuffix host ''.'';
                  host = TrimPrefix host ''[''
              in TrimSuffix host '']'')"

definition applePatterns :: "string list" where
  "applePatterns =
     [''*.apple.com'', ''*.icloud.com'', ''*.push.apple.com'', ''*.mzstatic.com'', ''*.gc.apple.com'',
      ''*.cdn-apple.com'', ''*.itunes.apple.com'', ''*.apps.apple.com'', ''*.aaplimg.com'',
      ''mesu.apple.com'', ''gs.apple.com'', ''xp.apple.com'', ''configuration.apple.com'',
      ''gdmf.apple.com'']"

fun compile_patterns :: "string list \<Rightarrow> string set \<Rightarrow> string list \<Rightarrow> string set \<times> string list" where
  "compile_patterns [] exact sfx = (exact, sfx)"
| "compile_patterns (p # ps) exact sfx =
     (let p = normalizeHost p
      in if p = [] then compile_patterns ps exact sfx
         else if HasPrefix p ''*.''
         then let base = TrimPrefix p ''*.''
              in compile_patterns ps (insert base exact) (sfx @ [''.'' @ base])
         else compile_patterns ps (insert p exact) sfx)"

definition compilePatterns :: "string list \<Rightarrow> string set \<times> string list" where
  "compilePatterns patterns = compile_patterns patterns {} []"

definition exactHosts :: "string set" where "exactHosts = fst (compilePatterns applePatterns)"

definition wildcardSuffixes :: "string list" where
  "wildcardSuffixes = snd (compilePatterns applePatterns)"

definition Passthrough :: "string \<Rightarrow> bool" where
  "Passthrough host =
     (let h = normalizeHost host
      in if h = [] then False
         else if h \<in> exactHosts then True
         else list_ex (\<lambda>suffix. HasSuffix h suffix) wildcardSuffixes)"

subsection \<open>What the patterns mean\<close>

text \<open>A host lies in a domain if it is the domain or ends in a dot and the domain.\<close>

definition in_domain :: "string \<Rightarrow> string \<Rightarrow> bool" where
  "in_domain h d \<longleftrightarrow> h = d \<or> HasSuffix h (''.'' @ d)"

definition apple_domains :: "string list" where
  "apple_domains = [''apple.com'', ''icloud.com'', ''mzstatic.com'', ''cdn-apple.com'', ''aaplimg.com'']"

lemma in_domain_trans: "in_domain h d \<Longrightarrow> in_domain d e \<Longrightarrow> in_domain h e"
  unfolding in_domain_def HasSuffix_iff by (auto simp: append_assoc [symmetric] simp del: append_assoc)

text \<open>Compiling in one expression: the bases of all patterns, and the suffixes of the wildcards.\<close>

definition pattern_base :: "string \<Rightarrow> string" where "pattern_base p = TrimPrefix p ''*.''"

definition pattern_list :: "string list \<Rightarrow> string list" where
  "pattern_list ps = filter (\<lambda>p. p \<noteq> []) (map normalizeHost ps)"

definition pattern_suffixes :: "string list \<Rightarrow> string list" where
  "pattern_suffixes ps = map (\<lambda>p. ''.'' @ pattern_base p) (filter (\<lambda>p. HasPrefix p ''*.'') (pattern_list ps))"

lemma compile_spec:
  "compile_patterns ps A B = (A \<union> pattern_base ` set (pattern_list ps), B @ pattern_suffixes ps)"
proof (induction ps arbitrary: A B)
  case (Cons p ps)
  then show ?case
    by (auto simp: Let_def pattern_list_def pattern_suffixes_def pattern_base_def TrimPrefix_def)
qed (simp add: pattern_list_def pattern_suffixes_def)

lemma exactHosts_eq: "exactHosts = set (map pattern_base (pattern_list applePatterns))"
  by (simp add: exactHosts_def compilePatterns_def compile_spec)

lemma wildcardSuffixes_eq: "wildcardSuffixes = pattern_suffixes applePatterns"
  by (simp add: wildcardSuffixes_def compilePatterns_def compile_spec)

lemma apple_evaluated:
  "list_all (\<lambda>h. list_ex (in_domain h) apple_domains) (map pattern_base (pattern_list applePatterns))"
  "list_all (\<lambda>s. \<exists>b\<in>set (map pattern_base (pattern_list applePatterns)). s = ''.'' @ b) (pattern_suffixes applePatterns)"
  "list_all (\<lambda>d. List.member (map pattern_base (pattern_list applePatterns)) d) apple_domains"
  "list_all (\<lambda>d. List.member (pattern_suffixes applePatterns) (''.'' @ d)) apple_domains"
  "list_all (\<lambda>d. d \<noteq> []) apple_domains"
  by code_simp+

lemma exact_in_domain: "h \<in> exactHosts \<Longrightarrow> list_ex (in_domain h) apple_domains"
  using apple_evaluated(1) unfolding exactHosts_eq list_all_iff by blast

lemma suffix_in_domain:
  assumes "s \<in> set wildcardSuffixes" "HasSuffix h s"
  shows "list_ex (in_domain h) apple_domains"
proof -
  obtain b where b: "s = ''.'' @ b" "b \<in> exactHosts"
    using assms(1) apple_evaluated(2) unfolding wildcardSuffixes_eq exactHosts_eq list_all_iff by blast
  then have "in_domain h b" using assms(2) by (simp add: in_domain_def)
  then show ?thesis using exact_in_domain [OF b(2)] in_domain_trans unfolding list_ex_iff by blast
qed

text \<open>
  The bypass list is exactly five domains.  A paused user's connection is let through if
  and only if the normalised host is one of Apple's five domains or below one: the nine narrower
  patterns of the list add nothing, and a host that merely ends in the same letters
  (\<open>notapple.com\<close>) is not let through.
\<close>

lemma bypass_domains:
  "Passthrough host \<longleftrightarrow> list_ex (in_domain (normalizeHost host)) apple_domains"
proof
  assume "Passthrough host"
  then show "list_ex (in_domain (normalizeHost host)) apple_domains"
    using exact_in_domain suffix_in_domain
    by (auto simp: Passthrough_def Let_def list_ex_iff [of _ wildcardSuffixes] split: if_splits)
next
  assume "list_ex (in_domain (normalizeHost host)) apple_domains"
  then obtain d where d: "d \<in> set apple_domains" "in_domain (normalizeHost host) d" by (auto simp: list_ex_iff)
  have m: "d \<in> exactHosts" "''.'' @ d \<in> set wildcardSuffixes" "d \<noteq> []"
    using d(1) apple_evaluated(3-5) unfolding exactHosts_eq wildcardSuffixes_eq list_all_iff List.member_iff
    by blast+
  then have "normalizeHost host \<noteq> []" using d(2) by (auto simp: in_domain_def HasSuffix_def)
  then show "Passthrough host"
    using d(2) m by (auto simp: Passthrough_def Let_def list_ex_iff in_domain_def)
qed

end
