(* ===== verification/Pac.thy ===== *)
theory Pac
  imports Prelude
begin

text \<open>
  The proxy auto-config file: src/pkg/pac/pac.go.  The generated JavaScript is a string here too;
  to say what it means, a reader of double-quoted JavaScript literals recovers from the text the bypass
  list and the proxy directive.
\<close>

definition ContentType :: string where "ContentType = ''application/x-ns-proxy-autoconfig''"

definition js_escape :: "char \<rightharpoonup> string" where
  "js_escape = [BSL \<mapsto> [BSL, BSL], DQ \<mapsto> [BSL, DQ], LF \<mapsto> [], CR \<mapsto> []]"

definition js_strip :: "char \<rightharpoonup> string" where
  "js_strip = [DQ \<mapsto> [], LF \<mapsto> [], CR \<mapsto> [], BSL \<mapsto> []]"

definition jsRaw :: "string \<Rightarrow> string" where
  "jsRaw s = replace_bytes js_strip s"

definition jsString :: "string \<Rightarrow> string" where
  "jsString s = [DQ] @ replace_bytes js_escape s @ [DQ]"

fun pac_domains :: "nat \<Rightarrow> string list \<Rightarrow> string" where
  "pac_domains i [] = []"
| "pac_domains i (d # ds) = (if i > 0 then '', '' else []) @ jsString (ToLower (TrimSpace d)) @ pac_domains (Suc i) ds"

definition pac_head :: string where
  "pac_head = ''function FindProxyForURL(url, host) {'' @ [LF] @ ''  host = host.toLowerCase();'' @ [LF] @
     ''  var bypass = [''"

definition pac_loop :: string where
  "pac_loop = ''];'' @ [LF] @ ''  for (var i = 0; i < bypass.length; i++) {'' @ [LF] @
     ''    if (host === bypass[i] || dnsDomainIs(host, '' @ [DQ] @ ''.'' @ [DQ] @ '' + bypass[i])) {'' @ [LF] @
     ''      return '' @ [DQ] @ ''DIRECT'' @ [DQ] @ '';'' @ [LF] @ ''    }'' @ [LF] @ ''  }'' @ [LF]"

definition pac_return :: "string \<Rightarrow> string" where
  "pac_return proxyEndpoint = ''  return '' @ [DQ] @ ''PROXY '' @ jsRaw proxyEndpoint @ [DQ] @ '';'' @ [LF]"

definition Generate :: "string \<Rightarrow> string list \<Rightarrow> string" where
  "Generate proxyEndpoint bypass =
     pac_head @ pac_domains 0 bypass @ pac_loop @ pac_return proxyEndpoint @ ''}'' @ [LF]"

subsection \<open>Reading JavaScript string literals\<close>

text \<open>The contents of a literal after its opening quote, and what follows the closing one.\<close>

fun js_body :: "string \<Rightarrow> (string \<times> string) option" where
  "js_body [] = None"
| "js_body (c # cs) =
     (if c = DQ then Some ([], cs)
      else if c = LF \<or> c = CR then None
      else if c = BSL
      then (case cs of
              [] \<Rightarrow> None
            | e # ds \<Rightarrow> if e = BSL \<or> e = DQ then map_option (\<lambda>(s, r). (e # s, r)) (js_body ds) else None)
      else map_option (\<lambda>(s, r). (c # s, r)) (js_body cs))"

definition js_literal :: "string \<Rightarrow> (string \<times> string) option" where
  "js_literal s = (case s of c # cs \<Rightarrow> if c = DQ then js_body cs else None | [] \<Rightarrow> None)"

text \<open>At most \<open>n\<close> literals separated by a comma and a space, up to the closing bracket.\<close>

fun js_items :: "nat \<Rightarrow> string \<Rightarrow> (string list \<times> string) option" where
  "js_items n s =
     (if HasPrefix s '']'' then Some ([], TrimPrefix s '']'')
      else (case n of
              0 \<Rightarrow> None
            | Suc m \<Rightarrow>
                (case js_literal (TrimPrefix s '', '') of
                   None \<Rightarrow> None
                 | Some (x, rest) \<Rightarrow> map_option (\<lambda>(xs, r). (x # xs, r)) (js_items m rest))))"

declare js_items.simps [simp del]

definition strip_newlines :: "string \<Rightarrow> string" where
  "strip_newlines s = filter (\<lambda>c. c \<noteq> LF \<and> c \<noteq> CR) s"

lemma special_distinct:
  "BSL \<noteq> DQ" "LF \<noteq> DQ" "CR \<noteq> DQ" "LF \<noteq> BSL" "CR \<noteq> BSL" "LF \<noteq> CR" "DQ \<noteq> BSL" "DQ \<noteq> LF" "DQ \<noteq> CR"
  "BSL \<noteq> LF" "BSL \<noteq> CR" "CR \<noteq> LF"
  by (simp_all add: BSL_def DQ_def LF_def CR_def)

lemma special_closed:
  "DQ \<noteq> CHR '',''" "DQ \<noteq> CHR '']''" "list_all (\<lambda>c. c \<notin> {DQ, LF, CR, BSL}) ''PROXY ''"
  by code_simp+

lemma js_body_escape: "js_body (replace_bytes js_escape s @ DQ # rest) = Some (strip_newlines s, rest)"
proof (induction s)
  case (Cons c s)
  consider "c = BSL" | "c = DQ" | "c = LF" | "c = CR" | "c \<notin> {BSL, DQ, LF, CR}" by blast
  then show ?case
    by cases (use Cons in \<open>simp_all add: replace_bytes_def js_escape_def strip_newlines_def special_distinct\<close>)
qed (simp add: replace_bytes_def strip_newlines_def)

lemma js_literal_jsString: "js_literal (jsString s @ rest) = Some (strip_newlines s, rest)"
  by (simp add: js_literal_def jsString_def js_body_escape)

lemma jsRaw_eq: "jsRaw s = filter (\<lambda>c. c \<notin> {DQ, LF, CR, BSL}) s"
proof (induction s)
  case (Cons c s)
  consider "c = BSL" | "c = DQ" | "c = LF" | "c = CR" | "c \<notin> {BSL, DQ, LF, CR}" by blast
  then show ?case
    by cases (use Cons in \<open>simp_all add: jsRaw_def replace_bytes_def js_strip_def special_distinct\<close>)
qed (simp add: jsRaw_def replace_bytes_def)

lemma js_body_plain: "list_all (\<lambda>c. c \<notin> {DQ, LF, CR, BSL}) s \<Longrightarrow> js_body (s @ DQ # rest) = Some (s, rest)"
  by (induction s) (auto simp: special_distinct)

lemma js_items_domains:
  "js_items (length ds) (pac_domains i ds @ '']'' @ rest) = Some (map (\<lambda>d. strip_newlines (ToLower (TrimSpace d))) ds, rest)"
proof (induction ds arbitrary: i)
  case Nil
  then show ?case by (simp add: js_items.simps HasPrefix_def TrimPrefix_def)
next
  case (Cons d ds)
  define t where "t = jsString (ToLower (TrimSpace d)) @ pac_domains (Suc i) ds @ '']'' @ rest"
  have s: "pac_domains i (d # ds) @ '']'' @ rest = (if i > 0 then '', '' else []) @ t" by (simp add: t_def)
  have t1: "TrimPrefix ((if i > 0 then '', '' else []) @ t) '', '' = t"
  proof (cases "i > 0")
    case False
    have "hd t \<noteq> CHR '',''" by (simp add: t_def jsString_def special_closed)
    then have "\<not> HasPrefix t '', ''" by (cases t) (auto simp: HasPrefix_def)
    then show ?thesis using False by (simp add: TrimPrefix_def)
  qed (simp add: TrimPrefix_def HasPrefix_def)
  have "hd ((if i > 0 then '', '' else []) @ t) \<noteq> CHR '']''" by (simp add: t_def jsString_def special_closed)
  then have p: "\<not> HasPrefix ((if i > 0 then '', '' else []) @ t) '']''"
    by (cases "(if i > 0 then '', '' else []) @ t") (auto simp: HasPrefix_def)
  have "js_literal t = Some (strip_newlines (ToLower (TrimSpace d)), pac_domains (Suc i) ds @ '']'' @ rest)"
    unfolding t_def by (rule js_literal_jsString)
  then show ?case using p t1 Cons.IH [of "Suc i"] unfolding s by (subst js_items.simps) simp
qed

subsection \<open>What the file says\<close>

text \<open>The bypass list and the final directive of a PAC text with \<open>n\<close> bypass domains.\<close>

definition pac_read :: "nat \<Rightarrow> string \<Rightarrow> (string list \<times> string) option" where
  "pac_read n s =
     (if HasPrefix s pac_head
      then (case js_items n (TrimPrefix s pac_head) of
              None \<Rightarrow> None
            | Some (ds, rest) \<Rightarrow>
                let loop = TrimPrefix pac_loop '']'' @ ''  return ''
                in if HasPrefix rest loop
                   then (case js_literal (TrimPrefix rest loop) of
                           Some (p, q) \<Rightarrow> if q = '';'' @ [LF] @ ''}'' @ [LF] then Some (ds, p) else None
                         | None \<Rightarrow> None)
                   else None)
      else None)"

text \<open>
  C28. The file says what was configured.  Read as JavaScript, the generated text is the fixed
  program with the configured domains, trimmed, in lower case and without line breaks, as its bypass list and
  \<open>PROXY\<close> with the endpoint as its directive; no domain and no endpoint, not even one taken from a request's Host header, can
  close a literal and add code.
\<close>

theorem pac_roundtrip:
  "pac_read (length bypass) (Generate endpoint bypass) =
     Some (map (\<lambda>d. strip_newlines (ToLower (TrimSpace d))) bypass, ''PROXY '' @ jsRaw endpoint)"
proof -
  define loop where "loop = TrimPrefix pac_loop '']''"
  have l: "pac_loop = '']'' @ loop" by (simp add: loop_def pac_loop_def TrimPrefix_def HasPrefix_def)
  define rest where "rest = loop @ ''  return '' @ [DQ] @ (''PROXY '' @ jsRaw endpoint) @ [DQ] @ '';'' @ [LF] @ ''}'' @ [LF]"
  have g: "Generate endpoint bypass = pac_head @ (pac_domains 0 bypass @ '']'' @ rest)"
    by (simp add: Generate_def pac_return_def l rest_def)
  have "list_all (\<lambda>c. c \<notin> {DQ, LF, CR, BSL}) (''PROXY '' @ jsRaw endpoint)"
    unfolding list_all_append using special_closed(3) by (auto simp: jsRaw_eq list_all_iff)
  from js_body_plain [OF this] have "js_literal ([DQ] @ (''PROXY '' @ jsRaw endpoint) @ [DQ] @ '';'' @ [LF] @ ''}'' @ [LF]) =
      Some (''PROXY '' @ jsRaw endpoint, '';'' @ [LF] @ ''}'' @ [LF])"
    by (simp add: js_literal_def)
  moreover have "rest = (loop @ ''  return '') @ ([DQ] @ (''PROXY '' @ jsRaw endpoint) @ [DQ] @ '';'' @ [LF] @ ''}'' @ [LF])"
    by (simp add: rest_def)
  then have "HasPrefix rest (loop @ ''  return '')"
    "TrimPrefix rest (loop @ ''  return '') = [DQ] @ (''PROXY '' @ jsRaw endpoint) @ [DQ] @ '';'' @ [LF] @ ''}'' @ [LF]"
    by (simp_all only: HasPrefix_append TrimPrefix_append)
  ultimately show ?thesis
    unfolding pac_read_def g HasPrefix_append TrimPrefix_append js_items_domains Let_def loop_def [symmetric] by simp
qed

end
