(* ===== verification/Logging.thy ===== *)
theory Logging
  imports Strconv
begin

text \<open>
  Log entries, their fan-out to backends and observers, and the backends: src/pkg/logging.

  A backend receives messages one at a time under the logger's mutex, so the logger is a list of
  messages delivered to each.  The batching backend (jsonhttp.go) is a state with the buffer and the
  one-element channel \<open>flush\<close>; its goroutine is the event \<open>JhRun\<close>, and the sections of \<open>Log\<close> before and after its unlock are two
  events, so that every interleaving is a sequence of events.  The JSON encoder and the network are inputs: a flush is told whether
  marshalling and posting succeed, and a failure loses the batch and writes to the standard error.
\<close>

record Entry =
  en_Timestamp :: time
  en_Event :: string
  en_ClientIP :: string
  en_Method :: string
  en_Host :: string
  en_URI :: string
  en_User :: string
  en_Error :: string
  en_Status :: int
  en_DurationMS :: int
  en_BytesRead :: int
  en_BytesWritten :: int

record ServerMessage =
  sm_Timestamp :: time
  sm_Level :: string
  sm_Component :: string
  sm_Text :: string

datatype Message = AccessMsg Entry | ServerMsg ServerMessage

subsection \<open>The logger\<close>

text \<open>
  Backends and observers are functions on the state of the world \<open>'w\<close> they write to.
\<close>

record 'w Logger =
  lg_backends :: "(Message \<Rightarrow> 'w \<Rightarrow> 'w) list"
  lg_observers :: "(Entry \<Rightarrow> 'w \<Rightarrow> 'w) list"

definition Logger_New :: "(Message \<Rightarrow> 'w \<Rightarrow> 'w) list \<Rightarrow> 'w Logger" where
  "Logger_New backends = \<lparr>lg_backends = backends, lg_observers = []\<rparr>"

definition AddObserver :: "(Entry \<Rightarrow> 'w \<Rightarrow> 'w) \<Rightarrow> 'w Logger \<Rightarrow> 'w Logger" where
  "AddObserver fn l = l\<lparr>lg_observers := lg_observers l @ [fn]\<rparr>"

definition Logger_Log :: "'w Logger \<Rightarrow> Entry \<Rightarrow> 'w \<Rightarrow> 'w" where
  "Logger_Log l e w = fold (\<lambda>fn. fn e) (lg_observers l) (fold (\<lambda>b. b (AccessMsg e)) (lg_backends l) w)"

definition ServerLog :: "'w Logger \<Rightarrow> time \<Rightarrow> string \<Rightarrow> string \<Rightarrow> string \<Rightarrow> 'w \<Rightarrow> 'w" where
  "ServerLog l now level component txt w =
     (let msg = ServerMsg \<lparr>sm_Timestamp = now, sm_Level = level, sm_Component = component, sm_Text = txt\<rparr>
      in fold (\<lambda>b. b msg) (lg_backends l) w)"

subsection \<open>The console backend\<close>

text \<open>\<open>%-ns\<close>: padding with blanks on the right (\<open>fmt\<close> counts runes; the values here are ASCII).\<close>

definition pad_right :: "nat \<Rightarrow> string \<Rightarrow> string" where
  "pad_right n s = s @ replicate (n - length s) (CHR '' '')"

text \<open>\<open>fmt_time\<close> is the layout of the time stamp, \<open>%d\<close> prints decimals.\<close>

definition logAccess_line :: "(time \<Rightarrow> string) \<Rightarrow> (int \<Rightarrow> string) \<Rightarrow> Entry \<Rightarrow> string" where
  "logAccess_line fmt_time itoa e =
     (let user = (if en_User e = [] then ''-'' else en_User e);
          uri = (if en_URI e \<noteq> [] then en_URI e else en_Host e);
          event = (if en_Event e = [] then ''-'' else en_Event e);
          errStr = (if en_Error e \<noteq> [] then ''  err='' @ en_Error e else [])
      in fmt_time (en_Timestamp e) @ ''  '' @ pad_right 5 event @ ''  '' @ pad_right 15 (en_ClientIP e) @ ''  '' @
         pad_right 7 (en_Method e) @ ''  '' @ pad_right 40 uri @ ''  '' @ pad_right 16 user @ ''  '' @
         itoa (en_Status e) @ ''  '' @ itoa (en_DurationMS e) @ ''ms  '' @ itoa (en_BytesRead e) @ ''/'' @
         itoa (en_BytesWritten e) @ errStr @ [LF])"

definition logServer_line :: "(time \<Rightarrow> string) \<Rightarrow> ServerMessage \<Rightarrow> string" where
  "logServer_line fmt_time s =
     fmt_time (sm_Timestamp s) @ ''  '' @ pad_right 5 (sm_Level s) @ ''  '' @ sm_Component s @ '': '' @ sm_Text s @ [LF]"

definition ConsoleBackend_Log ::
  "(time \<Rightarrow> string) \<Rightarrow> (int \<Rightarrow> string) \<Rightarrow> (Message \<Rightarrow> string) \<Rightarrow> string \<Rightarrow> Message \<Rightarrow> string \<Rightarrow> string" where
  "ConsoleBackend_Log fmt_time itoa json format msg out =
     (if format = ''json'' then out @ json msg @ [LF]
      else (case msg of
              AccessMsg e \<Rightarrow> out @ logAccess_line fmt_time itoa e
            | ServerMsg s \<Rightarrow> out @ logServer_line fmt_time s))"

subsection \<open>The batching HTTP backend\<close>

datatype flush_result = FlushPosted | MarshalError string | PostError string

record JSONHTTPBackend =
  jh_batchSize :: int
  jh_buf :: "Message list"
  jh_flush :: bool       \<comment> \<open>the one-element channel holds a signal\<close>
  jh_done :: bool
  jh_batches :: "(flush_result \<times> Message list) list"  \<comment> \<open>every batch taken from the buffer, and its fate\<close>
  jh_stderr :: "string list"

definition NewJSONHTTPBackend :: "int \<Rightarrow> JSONHTTPBackend" where
  "NewJSONHTTPBackend batchSize =
     \<lparr>jh_batchSize = batchSize, jh_buf = [], jh_flush = False, jh_done = False, jh_batches = [],
      jh_stderr = []\<rparr>"

definition jh_append :: "Message \<Rightarrow> JSONHTTPBackend \<Rightarrow> bool \<times> JSONHTTPBackend" where
  "jh_append msg b =
     (let b = b\<lparr>jh_buf := jh_buf b @ [msg]\<rparr> in (int (length (jh_buf b)) \<ge> jh_batchSize b, b))"

definition jh_signal :: "JSONHTTPBackend \<Rightarrow> JSONHTTPBackend" where
  "jh_signal b = (if jh_flush b then b else b\<lparr>jh_flush := True\<rparr>)"

definition JSONHTTPBackend_Log :: "Message \<Rightarrow> JSONHTTPBackend \<Rightarrow> JSONHTTPBackend" where
  "JSONHTTPBackend_Log msg b =
     (let (shouldFlush, b) = jh_append msg b in if shouldFlush then jh_signal b else b)"

definition doFlush :: "flush_result \<Rightarrow> JSONHTTPBackend \<Rightarrow> JSONHTTPBackend" where
  "doFlush res b =
     (if length (jh_buf b) = 0 then b
      else let batch = jh_buf b; b = b\<lparr>jh_buf := [], jh_batches := jh_batches b @ [(res, batch)]\<rparr>
           in case res of
                MarshalError err \<Rightarrow> b\<lparr>jh_stderr := jh_stderr b @ [''jsonhttp: marshal error: '' @ err @ [LF]]\<rparr>
              | PostError err \<Rightarrow> b\<lparr>jh_stderr := jh_stderr b @ [''jsonhttp: post error: '' @ err @ [LF]]\<rparr>
              | FlushPosted \<Rightarrow> b)"

text \<open>
  One round of the goroutine's \<open>select\<close>: the ticker, the flush signal (which it consumes) or the
  shutdown, after which the goroutine is gone.
\<close>

datatype jh_wake = WakeTick | WakeFlush | WakeStop

definition jh_run_step :: "jh_wake \<Rightarrow> flush_result \<Rightarrow> JSONHTTPBackend \<Rightarrow> JSONHTTPBackend" where
  "jh_run_step w res b =
     (if jh_done b then b
      else case w of
             WakeTick \<Rightarrow> doFlush res b
           | WakeFlush \<Rightarrow> if jh_flush b then doFlush res (b\<lparr>jh_flush := False\<rparr>) else b
           | WakeStop \<Rightarrow> (doFlush res b)\<lparr>jh_done := True\<rparr>)"

datatype jh_event = JhAppend Message | JhSignal | JhRun jh_wake flush_result

fun jh_step :: "jh_event \<Rightarrow> JSONHTTPBackend \<Rightarrow> JSONHTTPBackend" where
  "jh_step (JhAppend m) b = snd (jh_append m b)"
| "jh_step JhSignal b = jh_signal b"
| "jh_step (JhRun w res) b = jh_run_step w res b"

fun jh_logged :: "jh_event list \<Rightarrow> Message list" where
  "jh_logged [] = []"
| "jh_logged (JhAppend m # es) = m # jh_logged es"
| "jh_logged (e # es) = jh_logged es"

definition jh_taken :: "JSONHTTPBackend \<Rightarrow> Message list" where
  "jh_taken b = concat (map snd (jh_batches b))"

lemma jh_taken_flush: "jh_taken (doFlush res b) @ jh_buf (doFlush res b) = jh_taken b @ jh_buf b"
  "jh_buf (doFlush res b) = []"
  by (auto simp: doFlush_def jh_taken_def Let_def split: flush_result.splits)

lemma jh_flush_flag: "jh_taken (b\<lparr>jh_flush := f\<rparr>) = jh_taken b" "jh_taken (b\<lparr>jh_done := f\<rparr>) = jh_taken b"
  "jh_taken (b\<lparr>jh_buf := xs\<rparr>) = jh_taken b"
  by (simp_all add: jh_taken_def)

lemma jh_run_step_content: "jh_taken (jh_run_step w res b) @ jh_buf (jh_run_step w res b) = jh_taken b @ jh_buf b"
  using jh_taken_flush(1) [of res b] jh_taken_flush(1) [of res "b\<lparr>jh_flush := False\<rparr>"]
  by (simp add: jh_run_step_def jh_flush_flag split: jh_wake.split)

lemma jh_step_content: "jh_taken (jh_step e b) @ jh_buf (jh_step e b) = jh_taken b @ jh_buf b @ jh_logged [e]"
  by (cases e) (simp_all add: jh_append_def jh_signal_def jh_run_step_content jh_flush_flag)

lemma jh_logged_Cons: "jh_logged (e # es) = jh_logged [e] @ jh_logged es"
  by (cases e) simp_all

lemma jh_run_content: "jh_taken (fold jh_step es b) @ jh_buf (fold jh_step es b) = jh_taken b @ jh_buf b @ jh_logged es"
proof (induction es arbitrary: b)
  case (Cons e es)
  show ?case unfolding jh_logged_Cons [of e es] using Cons.IH [of "jh_step e b"] jh_step_content [of e b] by simp
qed simp

text \<open>No batch is empty, and each failed batch left one line on the standard error.\<close>

definition jh_batches_ok :: "JSONHTTPBackend \<Rightarrow> bool" where
  "jh_batches_ok b \<longleftrightarrow> [] \<notin> snd ` set (jh_batches b) \<and>
     length (jh_stderr b) = length (filter (\<lambda>x. fst x \<noteq> FlushPosted) (jh_batches b))"

lemma jh_step_batches: "jh_batches_ok b \<Longrightarrow> jh_batches_ok (jh_step e b)"
proof -
  assume "jh_batches_ok b"
  then have "jh_batches_ok (doFlush res (b\<lparr>jh_flush := f\<rparr>))" "jh_batches_ok (doFlush res b)" for res f
    by (auto simp: jh_batches_ok_def doFlush_def Let_def split: flush_result.splits)
  moreover have "jh_batches_ok (c\<lparr>jh_done := f\<rparr>) = jh_batches_ok c" "jh_batches_ok (c\<lparr>jh_flush := f\<rparr>) = jh_batches_ok c"
    "jh_batches_ok (c\<lparr>jh_buf := xs\<rparr>) = jh_batches_ok c" for c f xs by (simp_all add: jh_batches_ok_def)
  ultimately show ?thesis using \<open>jh_batches_ok b\<close>
    by (cases e) (simp_all add: jh_append_def jh_signal_def jh_run_step_def split: jh_wake.split)
qed

lemma jh_run_batches: "jh_batches_ok b \<Longrightarrow> jh_batches_ok (fold jh_step es b)"
  by (induction es arbitrary: b) (simp_all add: jh_step_batches)


definition ex_msg :: "string \<Rightarrow> Message" where
  "ex_msg t = ServerMsg \<lparr>sm_Timestamp = 0, sm_Level = ''info'', sm_Component = ''x'', sm_Text = t\<rparr>"

definition ex_log :: "jh_event list" where
  "ex_log = [JhAppend (ex_msg ''a''), JhRun WakeTick (PostError ''refused''), JhAppend (ex_msg ''b''), JhSignal]"


end
