(* ===== verification/Sessions.thy ===== *)
theory Sessions
  imports Base64
begin

text \<open>
  The in-memory credential stores of the admin server: browser sessions
  (src/pkg/admin/session.go) and device enrollment codes (src/pkg/admin/enroll.go).  Both keep a
  map from a random key to an expiry and a goroutine that sweeps dead entries; what their clients
  rely on is the locale \<open>expiring_store\<close>: an answer depends on the history of the one key alone,
  never on sweeps or on other keys.  Random bytes are arguments.
\<close>

subsection \<open>Admin sessions\<close>

record SessionStore =
  ss_ttl :: duration
  ss_sessions :: "string \<rightharpoonup> time"

definition sessionCookie :: string where "sessionCookie = ''evan-proxy-session''"

definition NewSessionStore :: "duration \<Rightarrow> SessionStore" where
  "NewSessionStore ttl = \<lparr>ss_ttl = ttl, ss_sessions = Map.empty\<rparr>"

definition hex_digit :: "nat \<Rightarrow> char" where
  "hex_digit n = (''0123456789abcdef'' ! n)"

definition hex_EncodeToString :: "string \<Rightarrow> string" where
  "hex_EncodeToString b = concat (map (\<lambda>c. [hex_digit (byte_of c div 16), hex_digit (byte_of c mod 16)]) b)"

definition SessionStore_put :: "string \<Rightarrow> time \<Rightarrow> SessionStore \<Rightarrow> SessionStore" where
  "SessionStore_put token now ss = ss\<lparr>ss_sessions := (ss_sessions ss)(token \<mapsto> now + ss_ttl ss)\<rparr>"

definition SessionStore_Create :: "string \<Rightarrow> time \<Rightarrow> SessionStore \<Rightarrow> string \<times> SessionStore" where
  "SessionStore_Create b now ss =
     (let token = hex_EncodeToString b in (token, SessionStore_put token now ss))"

definition SessionStore_Validate :: "string \<Rightarrow> time \<Rightarrow> SessionStore \<Rightarrow> bool \<times> SessionStore" where
  "SessionStore_Validate token now ss =
     (case ss_sessions ss token of
        None \<Rightarrow> (False, ss)
      | Some expiresAt \<Rightarrow>
          if expiresAt < now then (False, ss\<lparr>ss_sessions := (ss_sessions ss)(token := None)\<rparr>)
          else (True, SessionStore_put token now ss))"

definition SessionStore_Delete :: "string \<Rightarrow> SessionStore \<Rightarrow> SessionStore" where
  "SessionStore_Delete token ss = ss\<lparr>ss_sessions := (ss_sessions ss)(token := None)\<rparr>"

text \<open>One tick of the cleanup goroutine.\<close>

definition SessionStore_cleanup :: "time \<Rightarrow> SessionStore \<Rightarrow> SessionStore" where
  "SessionStore_cleanup now ss = ss\<lparr>ss_sessions := (\<lambda>token. case ss_sessions ss token of
       None \<Rightarrow> None
     | Some expiresAt \<Rightarrow> if expiresAt < now then None else Some expiresAt)\<rparr>"

subsection \<open>Enrollment codes\<close>

record enrollStore =
  es_ttl :: duration
  es_persistent :: bool
  es_codes :: "string \<rightharpoonup> time"

definition demoEnrollCode :: string where "demoEnrollCode = ''demo-appstore-pair''"

definition newEnrollStore :: "duration \<Rightarrow> bool \<Rightarrow> enrollStore" where
  "newEnrollStore ttl persistent =
     \<lparr>es_ttl = ttl, es_persistent = persistent,
      es_codes = (if persistent then [demoEnrollCode \<mapsto> zero_time] else Map.empty)\<rparr>"

definition enroll_live :: "time \<Rightarrow> time \<Rightarrow> bool" where
  "enroll_live now exp \<longleftrightarrow> IsZero exp \<or> now < exp"

definition enrollStore_create :: "string \<Rightarrow> time \<Rightarrow> enrollStore \<Rightarrow> string \<times> enrollStore" where
  "enrollStore_create b now es =
     (if es_persistent es
      then (demoEnrollCode, es\<lparr>es_codes := (es_codes es)(demoEnrollCode \<mapsto> zero_time)\<rparr>)
      else let code = RawURLEncoding_EncodeToString b
           in (code, es\<lparr>es_codes := (es_codes es)(code \<mapsto> now + es_ttl es)\<rparr>))"

definition enrollStore_peek :: "string \<Rightarrow> time \<Rightarrow> enrollStore \<Rightarrow> bool" where
  "enrollStore_peek code now es =
     (case es_codes es code of None \<Rightarrow> False | Some exp \<Rightarrow> enroll_live now exp)"

definition enrollStore_consume :: "string \<Rightarrow> time \<Rightarrow> enrollStore \<Rightarrow> bool \<times> enrollStore" where
  "enrollStore_consume code now es =
     (case es_codes es code of
        None \<Rightarrow> (False, es)
      | Some exp \<Rightarrow>
          if \<not> enroll_live now exp then (False, es\<lparr>es_codes := (es_codes es)(code := None)\<rparr>)
          else (True, if \<not> es_persistent es then es\<lparr>es_codes := (es_codes es)(code := None)\<rparr> else es))"

definition enrollStore_cleanup :: "time \<Rightarrow> enrollStore \<Rightarrow> enrollStore" where
  "enrollStore_cleanup now es = es\<lparr>es_codes := (\<lambda>code. case es_codes es code of
       None \<Rightarrow> None
     | Some exp \<Rightarrow> if \<not> IsZero exp \<and> exp < now then None else Some exp)\<rparr>"

subsection \<open>The interface of an expiring store\<close>

datatype store_event = StIssue string time | StUse string time | StRevoke string time | StSweep time

fun store_time :: "store_event \<Rightarrow> time" where
  "store_time (StIssue k t) = t"
| "store_time (StUse k t) = t"
| "store_time (StRevoke k t) = t"
| "store_time (StSweep t) = t"

fun store_run ::
  "(string \<Rightarrow> time \<Rightarrow> 's \<Rightarrow> 's) \<Rightarrow> (string \<Rightarrow> time \<Rightarrow> 's \<Rightarrow> bool \<times> 's) \<Rightarrow> (string \<Rightarrow> 's \<Rightarrow> 's) \<Rightarrow>
   (time \<Rightarrow> 's \<Rightarrow> 's) \<Rightarrow> store_event list \<Rightarrow> 's \<Rightarrow> 's" where
  "store_run iss use rvk swp [] s = s"
| "store_run iss use rvk swp (StIssue k t # es) s = store_run iss use rvk swp es (iss k t s)"
| "store_run iss use rvk swp (StUse k t # es) s = store_run iss use rvk swp es (snd (use k t s))"
| "store_run iss use rvk swp (StRevoke k t # es) s = store_run iss use rvk swp es (rvk k s)"
| "store_run iss use rvk swp (StSweep t # es) s = store_run iss use rvk swp es (swp t s)"

text \<open>
  The specification: the entry of one key under the events of that key; \<open>fresh t\<close> is the expiry
  of a key issued at \<open>t\<close>, \<open>used t e\<close> what a successful use at \<open>t\<close> leaves.  Sweeps do not occur.
\<close>

fun key_entry ::
  "(time \<Rightarrow> time) \<Rightarrow> (time \<Rightarrow> time \<Rightarrow> time option) \<Rightarrow> (time \<Rightarrow> time \<Rightarrow> bool) \<Rightarrow> string \<Rightarrow>
   store_event list \<Rightarrow> time option \<Rightarrow> time option" where
  "key_entry fresh used live k [] x = x"
| "key_entry fresh used live k (StIssue k' t # es) x =
     key_entry fresh used live k es (if k' = k then Some (fresh t) else x)"
| "key_entry fresh used live k (StUse k' t # es) x =
     key_entry fresh used live k es
       (if k' = k then (case x of Some e \<Rightarrow> if live t e then used t e else None | None \<Rightarrow> None) else x)"
| "key_entry fresh used live k (StRevoke k' t # es) x =
     key_entry fresh used live k es (if k' = k then None else x)"
| "key_entry fresh used live k (StSweep t # es) x = key_entry fresh used live k es x"

definition alive :: "(time \<Rightarrow> time \<Rightarrow> bool) \<Rightarrow> time \<Rightarrow> time option \<Rightarrow> time option" where
  "alive live now x = (case x of Some e \<Rightarrow> if live now e then Some e else None | None \<Rightarrow> None)"

fun store_ordered :: "time \<Rightarrow> store_event list \<Rightarrow> bool" where
  "store_ordered t [] = True"
| "store_ordered t (e # es) = (t \<le> store_time e \<and> store_ordered (store_time e) es)"

locale expiring_store =
  fixes iss :: "string \<Rightarrow> time \<Rightarrow> 's \<Rightarrow> 's"
    and use :: "string \<Rightarrow> time \<Rightarrow> 's \<Rightarrow> bool \<times> 's"
    and rvk :: "string \<Rightarrow> 's \<Rightarrow> 's"
    and swp :: "time \<Rightarrow> 's \<Rightarrow> 's"
    and entry :: "'s \<Rightarrow> string \<Rightarrow> time option"
    and fresh :: "time \<Rightarrow> time"
    and used :: "time \<Rightarrow> time \<Rightarrow> time option"
    and live :: "time \<Rightarrow> time \<Rightarrow> bool"
    and wf :: "'s \<Rightarrow> bool"
  assumes issue_entry: "wf s \<Longrightarrow> entry (iss k t s) k' = (if k = k' then Some (fresh t) else entry s k')"
    and use_result: "wf s \<Longrightarrow> fst (use k t s) \<longleftrightarrow> alive live t (entry s k) \<noteq> None"
    and use_other: "wf s \<Longrightarrow> k' \<noteq> k \<Longrightarrow> entry (snd (use k t s)) k' = entry s k'"
    and use_entry: "wf s \<Longrightarrow> t \<le> t' \<Longrightarrow> alive live t' (entry (snd (use k t s)) k) =
      alive live t' (case alive live t (entry s k) of None \<Rightarrow> None | Some e \<Rightarrow> used t e)"
    and revoke_entry: "wf s \<Longrightarrow> entry (rvk k s) k' = (if k = k' then None else entry s k')"
    and sweep_entry: "wf s \<Longrightarrow> t \<le> t' \<Longrightarrow> alive live t' (entry (swp t s) k) = alive live t' (entry s k)"
    and live_mono: "t \<le> t' \<Longrightarrow> live t' e \<Longrightarrow> live t e"
    and wf_ops: "wf s \<Longrightarrow> wf (iss k t s)" "wf s \<Longrightarrow> wf (snd (use k t s))"
      "wf s \<Longrightarrow> wf (rvk k s)" "wf s \<Longrightarrow> wf (swp t s)"
begin

lemma run_wf: "wf s \<Longrightarrow> wf (store_run iss use rvk swp es s)"
proof (induction es arbitrary: s)
  case (Cons e es)
  then show ?case by (cases e) (auto intro: wf_ops)
qed simp

lemma alive_later: "t \<le> t' \<Longrightarrow> alive live t x = alive live t y \<Longrightarrow> alive live t' x = alive live t' y"
proof -
  assume t: "t \<le> t'" and xy: "alive live t x = alive live t y"
  have absorb: "alive live t' (alive live t z) = alive live t' z" for z
    by (cases z) (simp_all add: alive_def live_mono [OF t])
  have "alive live t' (alive live t x) = alive live t' (alive live t y)" using xy by simp
  then show ?thesis by (simp only: absorb)
qed

lemma spec_cong:
  assumes "store_ordered t es" "\<forall>e\<in>set es. store_time e \<le> now" "t \<le> now" "alive live t x = alive live t y"
  shows "alive live now (key_entry fresh used live k es x) = alive live now (key_entry fresh used live k es y)"
  using assms
proof (induction es arbitrary: t x y)
  case Nil
  then have "alive live now x = alive live now y" by (intro alive_later [of t now])
  then show ?case by simp
next
  case (Cons e es)
  define t1 where "t1 = store_time e"
  have o: "t \<le> t1" "store_ordered t1 es" "t1 \<le> now" "\<forall>e\<in>set es. store_time e \<le> now"
    using Cons.prems by (auto simp: t1_def)
  have xy: "alive live t1 x = alive live t1 y" using alive_later [OF o(1)] Cons.prems(4) by blast
  have xy': "alive live t1 (case x of Some e \<Rightarrow> if live t1 e then used t1 e else None | None \<Rightarrow> None) =
        alive live t1 (case y of Some e \<Rightarrow> if live t1 e then used t1 e else None | None \<Rightarrow> None)"
    using xy by (auto simp: alive_def split: option.splits if_splits)
  note IH = Cons.IH [OF o(2,4,3)]
  show ?case
  proof (cases e)
    case (StIssue k' u)
    show ?thesis unfolding StIssue key_entry.simps by (rule IH) (simp add: xy)
  next
    case (StUse k' u)
    have u: "u = t1" by (simp add: t1_def StUse)
    show ?thesis unfolding StUse key_entry.simps u by (rule IH) (simp add: xy xy')
  next
    case (StRevoke k' u)
    show ?thesis unfolding StRevoke key_entry.simps by (rule IH) (simp add: xy)
  next
    case (StSweep u)
    show ?thesis unfolding StSweep key_entry.simps by (rule IH) (rule xy)
  qed
qed

text \<open>The entry of a key after any history is, as far as it is alive, what the specification says.\<close>

lemma run_entry:
  assumes "wf s" "store_ordered t es" "\<forall>e\<in>set es. store_time e \<le> now" "t \<le> now"
  shows "alive live now (entry (store_run iss use rvk swp es s) k) =
         alive live now (key_entry fresh used live k es (entry s k))"
  using assms
proof (induction es arbitrary: s t)
  case (Cons e es)
  define t1 where "t1 = store_time e"
  have o: "store_ordered t1 es" "\<forall>e\<in>set es. store_time e \<le> now" "t1 \<le> now"
    using Cons.prems by (auto simp: t1_def)
  note IH = Cons.IH [OF _ o]
  show ?case
  proof (cases e)
    case (StIssue k' u)
    then show ?thesis using IH [OF wf_ops(1)] Cons.prems(1) by (simp add: issue_entry)
  next
    case (StUse k' u)
    have u: "alive live t1 (entry (snd (use k' u s)) k) = alive live t1
        (if k' = k then (case entry s k of Some e \<Rightarrow> if live u e then used u e else None | None \<Rightarrow> None)
         else entry s k)"
      using use_other [OF Cons.prems(1)] use_entry [OF Cons.prems(1), of u t1 k] StUse
      by (auto simp: t1_def alive_def split: option.splits if_splits)
    show ?thesis using IH [OF wf_ops(2) [OF Cons.prems(1)]] spec_cong [OF o u] StUse by simp
  next
    case (StRevoke k' u)
    then show ?thesis using IH [OF wf_ops(3)] Cons.prems(1) by (simp add: revoke_entry)
  next
    case (StSweep u)
    have sw: "alive live t1 (entry (swp u s) k) = alive live t1 (entry s k)"
      using sweep_entry [OF Cons.prems(1)] StSweep by (simp add: t1_def)
    show ?thesis using IH [OF wf_ops(4) [OF Cons.prems(1)]] spec_cong [OF o sw] StSweep by simp
  qed
qed simp

lemma use_history:
  assumes "wf s" "store_ordered t es" "\<forall>e\<in>set es. store_time e \<le> now" "t \<le> now"
  shows "fst (use k now (store_run iss use rvk swp es s)) \<longleftrightarrow>
         alive live now (key_entry fresh used live k es (entry s k)) \<noteq> None"
  using run_entry [OF assms, of k] use_result [OF run_wf [OF assms(1)]] by simp

end

interpretation sess: expiring_store SessionStore_put SessionStore_Validate SessionStore_Delete
  SessionStore_cleanup ss_sessions "\<lambda>t. t + ttl" "\<lambda>t e. Some (t + ttl)" "\<lambda>now e. now \<le> e"
  "\<lambda>ss. ss_ttl ss = ttl" for ttl
  by unfold_locales
     (auto simp: SessionStore_put_def SessionStore_Validate_def SessionStore_Delete_def
        SessionStore_cleanup_def alive_def split: option.splits)

text \<open>A code issued by \<open>create\<close> on a store that is not in demo mode.\<close>

definition enrollStore_put :: "string \<Rightarrow> time \<Rightarrow> enrollStore \<Rightarrow> enrollStore" where
  "enrollStore_put code now es = es\<lparr>es_codes := (es_codes es)(code \<mapsto> now + es_ttl es)\<rparr>"

definition enrollStore_drop :: "string \<Rightarrow> enrollStore \<Rightarrow> enrollStore" where
  "enrollStore_drop code es = es\<lparr>es_codes := (es_codes es)(code := None)\<rparr>"

lemma enrollStore_create_put:
  "\<not> es_persistent es \<Longrightarrow>
   enrollStore_create b now es =
     (RawURLEncoding_EncodeToString b, enrollStore_put (RawURLEncoding_EncodeToString b) now es)"
  by (simp add: enrollStore_create_def enrollStore_put_def Let_def)

interpretation enr: expiring_store enrollStore_put enrollStore_consume enrollStore_drop
  enrollStore_cleanup es_codes "\<lambda>t. t + ttl" "\<lambda>t e. None" enroll_live
  "\<lambda>es. es_ttl es = ttl \<and> \<not> es_persistent es" for ttl
  by unfold_locales
     (auto simp: enrollStore_put_def enrollStore_consume_def enrollStore_drop_def
        enrollStore_cleanup_def alive_def enroll_live_def split: option.splits)

subsection \<open>What the stores promise\<close>

text \<open>
  C15. Admin sessions slide.  After any history in clock order, with sweeps and other
  sessions interleaved, a token is accepted exactly when the history of that token alone leaves
  it alive: it was issued, every use since came within the lifetime of the previous one, and it was not
  logged out.
\<close>

theorem SessionStore_history:
  assumes "store_ordered start es" "\<forall>e\<in>set es. store_time e \<le> now" "start \<le> now"
  shows "fst (SessionStore_Validate token now
      (store_run SessionStore_put SessionStore_Validate SessionStore_Delete SessionStore_cleanup es (NewSessionStore ttl)))
    \<longleftrightarrow> (\<exists>e. key_entry (\<lambda>t. t + ttl) (\<lambda>t e. Some (t + ttl)) (\<lambda>now e. now \<le> e) token es None = Some e \<and> now \<le> e)"
  using sess.use_history [where s = "NewSessionStore ttl" and ttl = ttl, OF _ assms]
  by (auto simp: NewSessionStore_def alive_def split: option.splits)

theorem SessionStore_history_witness:
  "fst (SessionStore_Validate ''tok'' 20
      (store_run SessionStore_put SessionStore_Validate SessionStore_Delete SessionStore_cleanup
        [StIssue ''tok'' 1, StUse ''tok'' 9, StSweep 12, StUse ''tok'' 15] (NewSessionStore 10)))"
  using SessionStore_history [where start = 0 and now = 20 and ttl = 10 and token = "''tok''" and
      es = "[StIssue ''tok'' 1, StUse ''tok'' 9, StSweep 12, StUse ''tok'' 15]"] by simp

fun redemptions :: "string \<Rightarrow> store_event list \<Rightarrow> enrollStore \<Rightarrow> nat" where
  "redemptions k [] es = 0"
| "redemptions k (StIssue k' t # evs) es = redemptions k evs (enrollStore_put k' t es)"
| "redemptions k (StUse k' t # evs) es =
     (if k' = k \<and> fst (enrollStore_consume k' t es) then 1 else 0) +
     redemptions k evs (snd (enrollStore_consume k' t es))"
| "redemptions k (StRevoke k' t # evs) es = redemptions k evs (enrollStore_drop k' es)"
| "redemptions k (StSweep t # evs) es = redemptions k evs (enrollStore_cleanup t es)"

definition issues :: "string \<Rightarrow> store_event list \<Rightarrow> nat" where
  "issues k evs = length (filter (\<lambda>e. \<exists>t. e = StIssue k t) evs)"

lemma enroll_keep:
  "es_persistent (enrollStore_put k t es) = es_persistent es"
  "es_persistent (enrollStore_drop k es) = es_persistent es"
  "es_persistent (enrollStore_cleanup t es) = es_persistent es"
  "es_persistent (snd (enrollStore_consume k t es)) = es_persistent es"
  by (auto simp: enrollStore_put_def enrollStore_drop_def enrollStore_cleanup_def
        enrollStore_consume_def split: option.splits)

lemma redemptions_bound:
  assumes "\<not> es_persistent es"
  shows "redemptions k evs es \<le> issues k evs + (if es_codes es k = None then 0 else 1)"
  using assms
proof (induction evs arbitrary: es)
  case (Cons e evs)
  show ?case
  proof (cases e)
    case (StIssue k' t)
    have "redemptions k evs (enrollStore_put k' t es) \<le>
        issues k evs + (if es_codes (enrollStore_put k' t es) k = None then 0 else 1)"
      using Cons by (simp add: enroll_keep)
    then show ?thesis using StIssue by (auto simp: issues_def enrollStore_put_def split: if_splits)
  next
    case (StUse k' t)
    have "redemptions k evs (snd (enrollStore_consume k' t es)) \<le>
        issues k evs + (if es_codes (snd (enrollStore_consume k' t es)) k = None then 0 else 1)"
      using Cons by (simp add: enroll_keep)
    then show ?thesis using StUse Cons.prems
      by (auto simp: issues_def enrollStore_consume_def split: option.splits if_splits)
  next
    case (StRevoke k' t)
    have "redemptions k evs (enrollStore_drop k' es) \<le>
        issues k evs + (if es_codes (enrollStore_drop k' es) k = None then 0 else 1)"
      using Cons by (simp add: enroll_keep)
    then show ?thesis using StRevoke by (auto simp: issues_def enrollStore_drop_def split: if_splits)
  next
    case (StSweep t)
    have "redemptions k evs (enrollStore_cleanup t es) \<le>
        issues k evs + (if es_codes (enrollStore_cleanup t es) k = None then 0 else 1)"
      using Cons by (simp add: enroll_keep)
    then show ?thesis using StSweep
      by (auto simp: issues_def enrollStore_cleanup_def split: if_splits option.splits)
  qed
qed (simp add: issues_def)

text \<open>
  Enrollment codes are single-use.  Outside demo mode, whatever the order of mints,
  redemptions and sweeps, a code is redeemed successfully at most as often as it was minted: a
  random code minted once pairs at most one device.
\<close>

theorem enroll_single_use:
  "redemptions code evs (newEnrollStore ttl False) \<le> issues code evs"
  using redemptions_bound [of "newEnrollStore ttl False" code evs] by (simp add: newEnrollStore_def)

text \<open>
  A redeemable code is a live one: outside demo mode \<open>consume\<close> succeeds exactly when
  the code was minted, not redeemed before and its lifetime is not over; \<open>peek\<close>, which renders the
  QR code, gives the same answer.
\<close>

theorem enroll_history:
  assumes "store_ordered start evs" "\<forall>e\<in>set evs. store_time e \<le> now" "start \<le> now"
  shows "let es = store_run enrollStore_put enrollStore_consume enrollStore_drop enrollStore_cleanup evs
               (newEnrollStore ttl False)
     in fst (enrollStore_consume code now es) = enrollStore_peek code now es \<and>
        (enrollStore_peek code now es \<longleftrightarrow>
           (\<exists>x. key_entry (\<lambda>t. t + ttl) (\<lambda>t e. None) enroll_live code evs None = Some x \<and> enroll_live now x))"
proof -
  have "fst (enrollStore_consume code now es) = enrollStore_peek code now es" for es
    by (auto simp: enrollStore_consume_def enrollStore_peek_def split: option.splits)
  then show ?thesis
    using enr.use_history [where s = "newEnrollStore ttl False" and ttl = ttl and k = code, OF _ assms]
    by (auto simp: newEnrollStore_def alive_def Let_def split: option.splits)
qed

theorem enroll_history_witness:
  "\<not> enrollStore_peek ''c'' 5 (store_run enrollStore_put enrollStore_consume enrollStore_drop enrollStore_cleanup
      [StIssue ''c'' 1, StUse ''c'' 2] (newEnrollStore 10 False))"
  using enroll_history [where start = 0 and now = 5 and ttl = 10 and code = "''c''" and
      evs = "[StIssue ''c'' 1, StUse ''c'' 2]"]
  by (simp add: Let_def enroll_live_def)

end
