(* ===== verification/Proxy.thy ===== *)
theory Proxy
  imports UserDB_Run Config Dns Bypass Pac Logging Sessions
begin

text \<open>
  The proxy's request handling: src/pkg/proxy/handler.go, connect.go and forward.go.

  What a handler does is a list of \<open>act\<close>s in program order (bytes written to the client, log entries, dials, relayed
  tunnels, upstream requests) and the next state of the \<open>Handler\<close>.  The clock has three readings per section of a
  request: \<open>start\<close>, the one of its decisions, and the one of its last log entry.  A \<open>CONNECT\<close> that is challenged waits for the client's retry,
  and other requests run meanwhile: the two halves are separate definitions, and \<open>handleConnect\<close> puts them together around
  what \<open>others\<close> did to the shared state.  The databases behind the checker interfaces are the user database, as in main.go.
\<close>

subsection \<open>HTTP headers\<close>

type_synonym header = "string \<rightharpoonup> string list"

definition is_token_char :: "char \<Rightarrow> bool" where
  "is_token_char c \<longleftrightarrow> is_digit c \<or> (65 \<le> byte_of c \<and> byte_of c \<le> 90) \<or> (97 \<le> byte_of c \<and> byte_of c \<le> 122) \<or>
     byte_of c \<in> {33, 35, 36, 37, 38, 39, 42, 43, 45, 46, 94, 95, 96, 124, 126}"

fun canon_key :: "bool \<Rightarrow> string \<Rightarrow> string" where
  "canon_key upper [] = []"
| "canon_key upper (c # cs) =
     (let c = (if upper then upper_char c else lower_char c) in c # canon_key (c = CHR ''-'') cs)"

definition CanonicalHeaderKey :: "string \<Rightarrow> string" where
  "CanonicalHeaderKey k = (if list_all is_token_char k then canon_key True k else k)"

definition Header_Get :: "header \<Rightarrow> string \<Rightarrow> string" where
  "Header_Get h k = (case h (CanonicalHeaderKey k) of Some (v # _) \<Rightarrow> v | _ \<Rightarrow> [])"

definition Header_Del :: "string \<Rightarrow> header \<Rightarrow> header" where
  "Header_Del k h = h(CanonicalHeaderKey k := None)"

definition Header_Values :: "header \<Rightarrow> string \<Rightarrow> string list" where
  "Header_Values h k = (case h (CanonicalHeaderKey k) of Some vs \<Rightarrow> vs | None \<Rightarrow> [])"

definition Header_Add :: "string \<Rightarrow> string \<Rightarrow> header \<Rightarrow> header" where
  "Header_Add k v h = h(CanonicalHeaderKey k \<mapsto> Header_Values h k @ [v])"

subsection \<open>Requests, effects, state\<close>

record px_request =
  hr_Method :: string
  hr_RemoteAddr :: string
  hr_Host :: string
  hr_URL :: string
  hr_URLHost :: string
  hr_URLPath :: string
  hr_RequestURI :: string
  hr_Header :: header
  hr_portOwner :: string  \<comment> \<open>\<open>portOwnerFromCtx\<close>\<close>

record upstream_response =
  ur_StatusCode :: int
  ur_Header :: header
  ur_copied :: int  \<comment> \<open>bytes \<open>io.Copy\<close> got through to the client\<close>

datatype act =
    ClientWrite string
  | HTTPError string nat
  | ClientReply int "(string \<times> string) list"
  | ClientResponse int header
  | LogAccess Entry
  | DNSObserved dns_outcome
  | DialHost Resolver string
  | Relay string string
  | BlockPage string string
  | Upstream Resolver px_request
  | LogServer string string string

record authSession =
  as_user :: string
  as_expires :: time

record Handler =
  h_db :: DB
  h_limiter :: Limiter
  h_auth :: "string \<rightharpoonup> authSession"
  h_resolvers :: "string \<rightharpoonup> Resolver"

text \<open>
  What the handler was built with.  \<open>pe_mitm\<close> is the block page server (None when not installed), its result
  the error text; \<open>pe_dialer\<close> gives the bytes relayed in the two directions of the opened connection;
  \<open>pe_roundtrip\<close> is the shared \<open>http.Transport\<close>; \<open>pe_keys\<close> lists the keys of a header map in the
  order of a \<open>range\<close>; \<open>pe_errtext\<close> and \<open>pe_quote\<close> are the texts of database errors and of \<open>%q\<close>.
\<close>

record proxy_env =
  pe_cfg :: Config
  pe_crypto :: crypto
  pe_loc :: "time \<Rightarrow> wall_clock"
  pe_default :: Resolver
  pe_acl :: "string \<Rightarrow> bool"
  pe_mitm :: "(string \<Rightarrow> string \<Rightarrow> string option) option"
  pe_lookup :: "Resolver \<Rightarrow> string \<Rightarrow> string + IP list"
  pe_dialer :: "string \<Rightarrow> string + (int \<times> int)"
  pe_ip_string :: "IP \<Rightarrow> string"
  pe_roundtrip :: "Resolver \<Rightarrow> px_request \<Rightarrow> dial_error + upstream_response"
  pe_keys :: "header \<Rightarrow> string list"
  pe_errtext :: "db_error \<Rightarrow> string"
  pe_dialtext :: "dial_error \<Rightarrow> string"
  pe_quote :: "string \<Rightarrow> string"

record clock =
  ck_start :: time
  ck_now :: time
  ck_end :: time

definition ms_since :: "clock \<Rightarrow> int" where
  "ms_since ck = (ck_end ck - ck_start ck) div 1000000"

definition base_entry :: "clock \<Rightarrow> string \<Rightarrow> string \<Rightarrow> string \<Rightarrow> int \<Rightarrow> Entry" where
  "base_entry ck ip meth host status =
     \<lparr>en_Timestamp = ck_start ck, en_Event = [], en_ClientIP = ip, en_Method = meth, en_Host = host, en_URI = [],
      en_User = [], en_Error = [], en_Status = status, en_DurationMS = ms_since ck, en_BytesRead = 0, en_BytesWritten = 0\<rparr>"

definition clientAddr :: "px_request \<Rightarrow> string" where
  "clientAddr r = (case SplitHostPort (hr_RemoteAddr r) of None \<Rightarrow> TrimSpace (hr_RemoteAddr r) | Some (h, _) \<Rightarrow> h)"

subsection \<open>The session cache\<close>

definition authSessionTTL :: duration where "authSessionTTL = 5 * minute"

definition authCacheKey :: "string \<Rightarrow> string \<Rightarrow> string" where
  "authCacheKey ip portUser = (if portUser = [] then ip else ip @ '':'' @ portUser)"

definition recordAuthSuccess :: "time \<Rightarrow> string \<Rightarrow> string \<Rightarrow> Handler \<Rightarrow> Handler" where
  "recordAuthSuccess now ip user h =
     h\<lparr>h_auth := (h_auth h)(authCacheKey ip user \<mapsto> \<lparr>as_user = user, as_expires = now + authSessionTTL\<rparr>)\<rparr>"

definition checkAuthSession :: "time \<Rightarrow> string \<Rightarrow> string \<Rightarrow> Handler \<Rightarrow> string" where
  "checkAuthSession now ip portUser h =
     (case h_auth h (authCacheKey ip portUser) of
        Some s \<Rightarrow> if now < as_expires s then as_user s else []
      | None \<Rightarrow> [])"

definition cleanupAuthSessions :: "time \<Rightarrow> Handler \<Rightarrow> Handler" where
  "cleanupAuthSessions now h =
     h\<lparr>h_auth := (\<lambda>k. case h_auth h k of
         Some s \<Rightarrow> if as_expires s < now then None else Some s
       | None \<Rightarrow> None)\<rparr>"

subsection \<open>Authentication\<close>

datatype auth_fail = AuthDB db_error | AuthWrongPort string string

definition auth_text :: "proxy_env \<Rightarrow> auth_fail \<Rightarrow> string" where
  "auth_text E e =
     (case e of
        AuthDB d \<Rightarrow> pe_errtext E d
      | AuthWrongPort user owner \<Rightarrow>
          ''user '' @ pe_quote E user @ '' not allowed on this port (owner: '' @ pe_quote E owner @ '')'')"

text \<open>\<open>users.Check\<close> and the test of the port's owner, which both handlers share.\<close>

definition check_owner ::
  "proxy_env \<Rightarrow> string option \<Rightarrow> time \<Rightarrow> string \<Rightarrow> string \<Rightarrow> Handler \<Rightarrow> (auth_fail + string) \<times> Handler" where
  "check_owner E salt now creds portUser h =
     (case DB_Check (pe_crypto E) salt now creds (h_db h) of
        (Inl e, d) \<Rightarrow> (Inl (AuthDB e), h\<lparr>h_db := d\<rparr>)
      | (Inr user, d) \<Rightarrow>
          (if portUser \<noteq> [] \<and> user \<noteq> portUser then Inl (AuthWrongPort user portUser) else Inr user, h\<lparr>h_db := d\<rparr>))"

text \<open>The same with the fallback to the session cache for a request without credentials.\<close>

definition authenticate ::
  "proxy_env \<Rightarrow> string option \<Rightarrow> time \<Rightarrow> px_request \<Rightarrow> Handler \<Rightarrow> (auth_fail + string) \<times> Handler" where
  "authenticate E salt now r h =
     (let portUser = hr_portOwner r;
          creds = Header_Get (hr_Header r) ''Proxy-Authorization'';
          hadCredentials = (creds \<noteq> []);
          (res, h) = check_owner E salt now creds portUser h
      in case res of
           Inr user \<Rightarrow> (Inr user, h)
         | Inl e \<Rightarrow>
             if \<not> hadCredentials
             then let sessionUser = checkAuthSession now (clientAddr r) portUser h
                  in (if sessionUser \<noteq> [] then Inr sessionUser else Inl e, h)
             else (Inl e, h))"

subsection \<open>Per-user resolvers\<close>

definition ctxWithUserDNS :: "string \<Rightarrow> Handler \<Rightarrow> Resolver option \<times> Handler" where
  "ctxWithUserDNS username h =
     (let (server, protocol) = DB_GetDNS username (h_db h)
      in if server = [] then (None, h)
         else (case GetOrCreate protocol server (h_resolvers h) of
                 (Inl _, c) \<Rightarrow> (None, h\<lparr>h_resolvers := c\<rparr>)
               | (Inr r, c) \<Rightarrow> (Some r, h\<lparr>h_resolvers := c\<rparr>)))"

definition resolverFromCtx :: "proxy_env \<Rightarrow> Resolver option \<Rightarrow> Resolver" where
  "resolverFromCtx E ctx = (case ctx of Some r \<Rightarrow> r | None \<Rightarrow> pe_default E)"

subsection \<open>CONNECT\<close>

definition CRLF :: string where "CRLF = [CR, LF]"

definition raw_407_limited :: string where
  "raw_407_limited = ''HTTP/1.1 407 Proxy Authentication Required'' @ CRLF @ ''Proxy-Authenticate: Basic realm='' @ [DQ] @
     ''proxy'' @ [DQ] @ CRLF @ ''Retry-After: 60'' @ CRLF @ ''Content-Length: 0'' @ CRLF @ CRLF"

definition raw_407_challenge :: string where
  "raw_407_challenge = ''HTTP/1.1 407 Proxy Authentication Required'' @ CRLF @ ''Proxy-Authenticate: Basic realm='' @ [DQ] @
     ''proxy'' @ [DQ] @ CRLF @ ''Proxy-Connection: keep-alive'' @ CRLF @ ''Content-Length: 0'' @ CRLF @ CRLF"

definition raw_407_final :: string where
  "raw_407_final = ''HTTP/1.1 407 Proxy Authentication Required'' @ CRLF @ ''Content-Length: 0'' @ CRLF @ CRLF"

definition raw_403 :: string where
  "raw_403 = ''HTTP/1.1 403 Forbidden'' @ CRLF @ ''Content-Length: 0'' @ CRLF @ CRLF"

definition raw_200 :: string where
  "raw_200 = ''HTTP/1.1 200 Connection Established'' @ CRLF @ CRLF"

definition raw_gateway :: "nat \<Rightarrow> string" where
  "raw_gateway status = ''HTTP/1.1 '' @ nat_str status @ '' Bad Gateway'' @ CRLF @ ''Content-Length: 0'' @ CRLF @ CRLF"

definition connectTunnel :: "proxy_env \<Rightarrow> clock \<Rightarrow> string \<Rightarrow> string \<Rightarrow> string \<Rightarrow> Handler \<Rightarrow> act list \<times> Handler" where
  "connectTunnel E ck ip host user h =
     (let (ctx, h) = ctxWithUserDNS user h; res = resolverFromCtx E ctx;
          en = (base_entry ck ip ''CONNECT'' host 200)\<lparr>en_User := user\<rparr>
      in if \<not> pe_acl E host
         then ([ClientWrite raw_403, LogAccess (en\<lparr>en_Status := 403, en_Error := ''acl denied''\<rparr>)], h)
         else (case dialWithBlockCheck (pe_lookup E res) (pe_dialer E) (pe_ip_string E) host of
                 (Inl e, out) \<Rightarrow>
                   (case classifyDialError e of
                      (status, event) \<Rightarrow>
                        ([DialHost res host, DNSObserved out, ClientWrite (raw_gateway status),
                          LogAccess (en\<lparr>en_Event := event, en_Status := int status, en_Error := pe_dialtext E e\<rparr>)], h))
               | (Inr (up, down), out) \<Rightarrow>
                   ([DialHost res host, DNSObserved out, ClientWrite raw_200,
                     LogAccess (en\<lparr>en_Event := ''open'', en_DurationMS := 0\<rparr>), Relay user host,
                     LogAccess (en\<lparr>en_Event := ''close'', en_BytesRead := up, en_BytesWritten := down\<rparr>)], h)))"

definition blockReason :: "proxy_env \<Rightarrow> time \<Rightarrow> string \<Rightarrow> Handler \<Rightarrow> string" where
  "blockReason E now user h =
     (if MITMEnabled (pe_cfg E) \<and> \<not> DB_IsEnabled user (h_db h) then ''disabled''
      else if DB_IsInDowntime (pe_loc E) now user (h_db h) then ''downtime''
      else [])"

definition serveBlocked ::
  "proxy_env \<Rightarrow> clock \<Rightarrow> string \<Rightarrow> string \<Rightarrow> string \<Rightarrow> string \<Rightarrow> Handler \<Rightarrow> act list \<times> Handler" where
  "serveBlocked E ck ip host user reason h =
     (let en = (base_entry ck ip ''CONNECT'' host 200)\<lparr>en_User := user\<rparr>
      in case (if MITMEnabled (pe_cfg E) then pe_mitm E else None) of
           None \<Rightarrow> ([ClientWrite raw_403, LogAccess (en\<lparr>en_Status := 403, en_Error := reason\<rparr>)], h)
         | Some serve \<Rightarrow>
             if Passthrough host
             then (case connectTunnel E ck ip host user h of
                     (acts, h) \<Rightarrow> (LogAccess (en\<lparr>en_Event := ''mitm_passthrough'', en_DurationMS := 0\<rparr>) # acts, h))
             else (case serve host user of
                     Some err \<Rightarrow> ([ClientWrite raw_200, BlockPage host user,
                                   LogAccess (en\<lparr>en_Event := ''mitm_error'', en_Error := err\<rparr>)], h)
                   | None \<Rightarrow> ([ClientWrite raw_200, BlockPage host user,
                               LogAccess (en\<lparr>en_Event := ''mitm_served'', en_Error := reason\<rparr>)], h)))"

text \<open>The part of \<open>handleConnect\<close> after authentication.\<close>

definition connect_admitted ::
  "proxy_env \<Rightarrow> clock \<Rightarrow> string \<Rightarrow> string \<Rightarrow> string \<Rightarrow> Handler \<Rightarrow> act list \<times> Handler" where
  "connect_admitted E ck ip host user h =
     (let h = recordAuthSuccess (ck_now ck) ip user h;
          reason = blockReason E (ck_now ck) user h
      in if reason \<noteq> [] then serveBlocked E ck ip host user reason h
         else connectTunnel E ck ip host user h)"

datatype hijack = HijackOK | HijackUnsupported | HijackFailed

text \<open>
  The first half: the rate limit, the hijack, the first check.  A refused or failed request is over
  (\<open>Inl\<close>), otherwise it is admitted as a user or has to be challenged with the error.
\<close>

definition connect_first ::
  "proxy_env \<Rightarrow> string option \<Rightarrow> clock \<Rightarrow> hijack \<Rightarrow> px_request \<Rightarrow> Handler \<Rightarrow> act list \<times> (auth_fail + string) option \<times> Handler" where
  "connect_first E salt ck hj r h =
     (let ip = clientAddr r;
          (ok, lim) = Limiter_Allow ip (ck_now ck) (h_limiter h);
          h = h\<lparr>h_limiter := lim\<rparr>
      in case hj of
           HijackUnsupported \<Rightarrow> ([HTTPError ''hijack not supported'' 500], None, h)
         | HijackFailed \<Rightarrow> ([], None, h)
         | HijackOK \<Rightarrow>
             if \<not> ok
             then ([ClientWrite raw_407_limited,
                    LogAccess ((base_entry ck ip ''CONNECT'' (hr_Host r) 407)\<lparr>en_Error := ''rate limited''\<rparr>)], None, h)
             else (case authenticate E salt (ck_now ck) r h of
                     (Inr user, h) \<Rightarrow> ([], Some (Inr user), h)
                   | (Inl e, h) \<Rightarrow> ([ClientWrite raw_407_challenge], Some (Inl e), h)))"

text \<open>The second half after a challenge: the retry on the same connection, or None if none could be read in time.\<close>

definition connect_retry ::
  "proxy_env \<Rightarrow> string option \<Rightarrow> clock \<Rightarrow> px_request \<Rightarrow> auth_fail \<Rightarrow> px_request option \<Rightarrow> Handler \<Rightarrow> act list \<times> Handler" where
  "connect_retry E salt ck r authErr retry h =
     (let ip = clientAddr r;
          hadCredentials = (Header_Get (hr_Header r) ''Proxy-Authorization'' \<noteq> [])
      in case retry of
           None \<Rightarrow>
             ([LogAccess ((base_entry ck ip ''CONNECT'' (hr_Host r) 407)\<lparr>en_Error := auth_text E authErr @ ''; retry read failed''\<rparr>)],
              if hadCredentials then h\<lparr>h_limiter := Limiter_RecordFailure ip (ck_now ck) (h_limiter h)\<rparr> else h)
         | Some r2 \<Rightarrow>
             (case check_owner E salt (ck_now ck) (Header_Get (hr_Header r2) ''Proxy-Authorization'') (hr_portOwner r) h of
                (Inl e, h) \<Rightarrow>
                  ([ClientWrite raw_407_final,
                    LogAccess ((base_entry ck ip ''CONNECT'' (hr_Host r2) 407)\<lparr>en_Error := auth_text E e\<rparr>)],
                   h\<lparr>h_limiter := Limiter_RecordFailure ip (ck_now ck) (h_limiter h)\<rparr>)
              | (Inr user, h) \<Rightarrow> connect_admitted E ck ip (hr_Host r2) user h))"

definition handleConnect ::
  "proxy_env \<Rightarrow> string option \<Rightarrow> clock \<Rightarrow> clock \<Rightarrow> hijack \<Rightarrow> (Handler \<Rightarrow> Handler) \<Rightarrow> px_request option \<Rightarrow> px_request \<Rightarrow> Handler \<Rightarrow>
   act list \<times> Handler" where
  "handleConnect E salt ck ck2 hj others retry r h =
     (case connect_first E salt ck hj r h of
        (acts, None, h) \<Rightarrow> (acts, h)
      | (acts, Some (Inr user), h) \<Rightarrow>
          (case connect_admitted E ck (clientAddr r) (hr_Host r) user h of (acts2, h) \<Rightarrow> (acts @ acts2, h))
      | (acts, Some (Inl e), h) \<Rightarrow>
          (case connect_retry E salt ck2 r e retry (others h) of (acts2, h) \<Rightarrow> (acts @ acts2, h)))"

end
