(* ===== verification/Forward.thy ===== *)
theory Forward
  imports Proxy "HOL-Library.List_Lexorder" "HOL-Library.Char_ord"
begin

text \<open>
  Plain HTTP forwarding (src/pkg/proxy/forward.go), the PAC file and the dispatch of
  \<open>ServeHTTP\<close> (src/pkg/proxy/handler.go).  The keys of a header are those of its map; the response header
  is copied in the order a \<open>range\<close> visits it, which does not matter for the resulting map.
\<close>

definition hopByHopHeaders :: "string list" where
  "hopByHopHeaders =
     [''Connection'', ''Keep-Alive'', ''Proxy-Authenticate'', ''Proxy-Authorization'', ''Proxy-Connection'',
      ''TE'', ''Trailers'', ''Transfer-Encoding'', ''Upgrade'', ''Via'']"

definition isHopByHop :: "string \<Rightarrow> bool" where
  "isHopByHop header = list_ex (\<lambda>h. CanonicalHeaderKey header = CanonicalHeaderKey h) hopByHopHeaders"

text \<open>The stripping loop: the names recorded as stripped and the remaining header.\<close>

fun strip_headers :: "string list \<Rightarrow> header \<Rightarrow> string list \<times> header" where
  "strip_headers [] h = ([], h)"
| "strip_headers (hdr # hdrs) h =
     (let (stripped, h') = strip_headers hdrs (Header_Del hdr h)
      in ((if Header_Get h hdr \<noteq> [] then [hdr] else []) @ stripped, h'))"

definition outbound_header :: "header \<Rightarrow> string list \<times> header" where
  "outbound_header h =
     (let (stripped, h) = strip_headers hopByHopHeaders h
      in (stripped @ (if Header_Get h ''X-Forwarded-For'' \<noteq> [] then [''X-Forwarded-For''] else []),
          Header_Del ''X-Forwarded-For'' h))"

text \<open>Copying the response header; \<open>Add\<close> canonicalises the key, so keys equal up to case would be merged.\<close>

definition copy_header :: "string list \<Rightarrow> header \<Rightarrow> header" where
  "copy_header keys hdr =
     foldl (\<lambda>w key. if isHopByHop key then w
        else foldl (\<lambda>w v. Header_Add key v w) w (case hdr key of Some vs \<Rightarrow> vs | None \<Rightarrow> [])) Map.empty keys"

definition sensitiveHeaders :: "string list" where
  "sensitiveHeaders = [''Proxy-Authorization'', ''Authorization'', ''Cookie'', ''Set-Cookie'']"

definition format_part :: "header \<Rightarrow> string \<Rightarrow> string" where
  "format_part hdr k =
     (let v = Join (Header_Values hdr k) '','';
          v = (if CanonicalHeaderKey k \<in> set sensitiveHeaders then ''<redacted>'' else v)
      in k @ ''='' @ v)"

definition formatHeaders :: "string list \<Rightarrow> header \<Rightarrow> string" where
  "formatHeaders keys hdr =
     (let parts = map (format_part hdr) (sort keys)
      in if length parts = 0 then ''(none)'' else Join parts ''; '')"

definition logForwardHeaders ::
  "proxy_env \<Rightarrow> string \<Rightarrow> string \<Rightarrow> px_request \<Rightarrow> px_request \<Rightarrow> string list \<Rightarrow> act" where
  "logForwardHeaders E ip user inreq outreq stripped =
     (let strippedStr = (if length stripped > 0 then Join stripped '', '' else ''(none)'')
      in LogServer ''info'' ''headers''
           (''forward '' @ hr_Method inreq @ '' '' @ hr_URL inreq @ '' user='' @ user @ '' client='' @ ip @ [LF] @
            ''  inbound:  '' @ formatHeaders (pe_keys E (hr_Header inreq)) (hr_Header inreq) @ [LF] @
            ''  stripped: '' @ strippedStr @ [LF] @
            ''  outbound: '' @ formatHeaders (pe_keys E (hr_Header outreq)) (hr_Header outreq)))"

subsection \<open>The handler\<close>

definition handleForward ::
  "proxy_env \<Rightarrow> string option \<Rightarrow> clock \<Rightarrow> px_request \<Rightarrow> Handler \<Rightarrow> act list \<times> Handler" where
  "handleForward E salt ck r h =
     (let ip = clientAddr r;
          host = (if hr_URLHost r = [] then hr_Host r else hr_URLHost r);
          en = (base_entry ck ip (hr_Method r) host 407)\<lparr>en_URI := hr_RequestURI r\<rparr>;
          (ok, lim) = Limiter_Allow ip (ck_now ck) (h_limiter h);
          h = h\<lparr>h_limiter := lim\<rparr>
      in if \<not> ok
         then ([ClientReply 407 [(''Retry-After'', ''60''), (''Content-Length'', ''0'')],
                LogAccess (en\<lparr>en_Error := ''rate limited''\<rparr>)], h)
         else (case authenticate E salt (ck_now ck) r h of
                 (Inl e, h) \<Rightarrow>
                   ([ClientReply 407 [(''Proxy-Authenticate'', ''Basic realm='' @ [DQ] @ ''proxy'' @ [DQ]),
                       (''Proxy-Connection'', ''keep-alive''), (''Content-Length'', ''0'')],
                     LogAccess (en\<lparr>en_Error := auth_text E e\<rparr>)],
                    if Header_Get (hr_Header r) ''Proxy-Authorization'' \<noteq> []
                    then h\<lparr>h_limiter := Limiter_RecordFailure ip (ck_now ck) (h_limiter h)\<rparr> else h)
               | (Inr user, h) \<Rightarrow>
                   let h = recordAuthSuccess (ck_now ck) ip user h; en = en\<lparr>en_User := user\<rparr>
                   in if DB_IsInDowntime (pe_loc E) (ck_now ck) user (h_db h)
                      then ([ClientReply 403 [(''Content-Length'', ''0'')],
                             LogAccess (en\<lparr>en_Status := 403, en_Error := ''downtime''\<rparr>)], h)
                      else let (ctx, h) = ctxWithUserDNS user h; res = resolverFromCtx E ctx
                           in if \<not> pe_acl E host
                              then ([ClientReply 403 [(''Content-Length'', ''0'')],
                                     LogAccess (en\<lparr>en_Status := 403, en_Error := ''acl denied''\<rparr>)], h)
                              else let (stripped, hdr) = outbound_header (hr_Header r);
                                       outReq = r\<lparr>hr_Header := hdr, hr_RequestURI := []\<rparr>;
                                       dump = (if LogHeaders (pe_cfg E)
                                               then [logForwardHeaders E ip user r outReq stripped] else [])
                                   in (case pe_roundtrip E res outReq of
                                         Inl e \<Rightarrow>
                                           (case classifyDialError e of
                                              (status, event) \<Rightarrow>
                                                (dump @ [Upstream res outReq,
                                                   ClientReply (int status) [(''Content-Length'', ''0'')],
                                                   LogAccess (en\<lparr>en_Event := event, en_Status := int status,
                                                     en_Error := pe_dialtext E e\<rparr>)], h))
                                       | Inr resp \<Rightarrow>
                                           (dump @ [Upstream res outReq,
                                              ClientResponse (ur_StatusCode resp) (copy_header (pe_keys E (ur_Header resp)) (ur_Header resp)),
                                              LogAccess (en\<lparr>en_Status := ur_StatusCode resp, en_BytesWritten := ur_copied resp\<rparr>)], h))))"

subsection \<open>PAC and dispatch\<close>

definition isPACRequest :: "proxy_env \<Rightarrow> px_request \<Rightarrow> bool" where
  "isPACRequest E r \<longleftrightarrow>
     PACEnabled (pe_cfg E) \<and> hr_Method r = ''GET'' \<and> hr_URLHost r = [] \<and> hr_URLPath r = PACPath (pe_cfg E)"

definition servePAC :: "proxy_env \<Rightarrow> clock \<Rightarrow> px_request \<Rightarrow> act list" where
  "servePAC E ck r =
     (let endpoint = (if PACProxyEndpoint (pe_cfg E) = [] then hr_Host r else PACProxyEndpoint (pe_cfg E))
      in if endpoint = [] then [HTTPError ''cannot determine proxy endpoint'' 400]
         else [ClientReply 200 [(''Content-Type'', ContentType), (''Cache-Control'', ''no-store'')],
               ClientWrite (Generate endpoint (PACBypassDomains (pe_cfg E))),
               LogAccess ((base_entry ck (clientAddr r) (hr_Method r) (hr_Host r) 200)
                 \<lparr>en_URI := hr_URLPath r, en_Event := ''pac'', en_DurationMS := 0\<rparr>)])"

definition ServeHTTP ::
  "proxy_env \<Rightarrow> string option \<Rightarrow> clock \<Rightarrow> clock \<Rightarrow> hijack \<Rightarrow> (Handler \<Rightarrow> Handler) \<Rightarrow> px_request option \<Rightarrow>
   px_request \<Rightarrow> Handler \<Rightarrow> act list \<times> Handler" where
  "ServeHTTP E salt ck ck2 hj others retry r h =
     (if isPACRequest E r then (servePAC E ck r, h)
      else if hr_Method r = ''CONNECT'' then handleConnect E salt ck ck2 hj others retry r h
      else handleForward E salt ck r h)"

end
