(* ===== verification/Proxy_Run.thy ===== *)
theory Proxy_Run
  imports Forward
begin

text \<open>
  Runs of the proxy: any interleaving of requests, of the two halves of challenged \<open>CONNECT\<close>s, of
  sweeps of the session cache and of changes of the user database.  The run keeps a log of admissions, which the
  theorems about authentication are stated on.
\<close>

subsection \<open>What the handlers leave alone\<close>

lemma ctxWithUserDNS_keeps [simp]:
  "h_auth (snd (ctxWithUserDNS u h)) = h_auth h" "h_db (snd (ctxWithUserDNS u h)) = h_db h"
  "h_limiter (snd (ctxWithUserDNS u h)) = h_limiter h"
  by (simp_all add: ctxWithUserDNS_def Let_def split: prod.splits sum.splits)

lemma connectTunnel_state: "snd (connectTunnel E ck ip host u h) = snd (ctxWithUserDNS u h)"
  by (simp add: connectTunnel_def Let_def split: prod.splits sum.splits)

lemma serveBlocked_keeps [simp]:
  "h_auth (snd (serveBlocked E ck ip host u reason h)) = h_auth h"
  "h_db (snd (serveBlocked E ck ip host u reason h)) = h_db h"
  "h_limiter (snd (serveBlocked E ck ip host u reason h)) = h_limiter h"
  using connectTunnel_state [of E ck ip host u h]
  by (auto simp: serveBlocked_def Let_def case_prod_beta split: option.splits if_splits)

lemma connect_admitted_keeps [simp]:
  "h_auth (snd (connect_admitted E ck ip host u h)) = h_auth (recordAuthSuccess (ck_now ck) ip u h)"
  "h_db (snd (connect_admitted E ck ip host u h)) = h_db h"
  "h_limiter (snd (connect_admitted E ck ip host u h)) = h_limiter h"
  by (simp_all add: connect_admitted_def Let_def connectTunnel_state recordAuthSuccess_def)

lemma check_owner_keeps:
  assumes "check_owner E salt now creds owner h = (r, h')"
  shows "h_auth h' = h_auth h" "h_limiter h' = h_limiter h"
    "h_db h' = snd (DB_Check (pe_crypto E) salt now creds (h_db h))"
    "r = Inr u \<Longrightarrow> fst (DB_Check (pe_crypto E) salt now creds (h_db h)) = Inr u \<and> (owner = [] \<or> u = owner)"
  using assms by (auto simp: check_owner_def split: prod.splits sum.splits if_splits)

lemma authenticate_keeps:
  assumes "authenticate E salt now r h = (x, h')"
  shows "h_auth h' = h_auth h" "h_limiter h' = h_limiter h"
    "h_db h' = snd (DB_Check (pe_crypto E) salt now (Header_Get (hr_Header r) ''Proxy-Authorization'') (h_db h))"
proof -
  obtain c h1 where c: "check_owner E salt now (Header_Get (hr_Header r) ''Proxy-Authorization'') (hr_portOwner r) h = (c, h1)"
    by (cases "check_owner E salt now (Header_Get (hr_Header r) ''Proxy-Authorization'') (hr_portOwner r) h")
  have "h' = h1" using assms by (auto simp: authenticate_def Let_def c split: sum.splits if_splits)
  then show "h_auth h' = h_auth h" "h_limiter h' = h_limiter h"
    "h_db h' = snd (DB_Check (pe_crypto E) salt now (Header_Get (hr_Header r) ''Proxy-Authorization'') (h_db h))"
    using check_owner_keeps(1-3) [OF c] by auto
qed

text \<open>An authenticated user showed the password, or showed nothing and has a session.\<close>

lemma authenticate_cases:
  assumes "authenticate E salt now r h = (Inr u, h')"
  obtains (password) "Header_Get (hr_Header r) ''Proxy-Authorization'' \<noteq> []"
      "fst (DB_Check (pe_crypto E) salt now (Header_Get (hr_Header r) ''Proxy-Authorization'') (h_db h)) = Inr u"
      "hr_portOwner r = [] \<or> u = hr_portOwner r"
  | (session) s where "Header_Get (hr_Header r) ''Proxy-Authorization'' = []"
      "h_auth h (authCacheKey (clientAddr r) (hr_portOwner r)) = Some s" "now < as_expires s" "u = as_user s" "u \<noteq> []"
proof -
  let ?cr = "Header_Get (hr_Header r) ''Proxy-Authorization''"
  obtain c h1 where c: "check_owner E salt now ?cr (hr_portOwner r) h = (c, h1)"
    by (cases "check_owner E salt now ?cr (hr_portOwner r) h")
  show thesis
  proof (cases c)
    case (Inr v)
    then have "v = u" using assms by (simp add: authenticate_def Let_def c)
    then have *: "fst (DB_Check (pe_crypto E) salt now ?cr (h_db h)) = Inr u" "hr_portOwner r = [] \<or> u = hr_portOwner r"
      using check_owner_keeps(4) [OF c, of u] Inr by auto
    then have "?cr \<noteq> []" by (auto simp: DB_Check_def)
    then show thesis using * password by blast
  next
    case (Inl e)
    have a1: "h_auth h1 = h_auth h" using check_owner_keeps(1) [OF c] .
    show thesis
      using assms Inl a1
      by (intro session [of "the (h_auth h (authCacheKey (clientAddr r) (hr_portOwner r)))"])
         (auto simp: authenticate_def Let_def c checkAuthSession_def split: if_splits option.splits)
  qed
qed

subsection \<open>Runs\<close>

datatype px_event =
    EvConnect "string option" clock hijack px_request
  | EvRetry "string option" clock px_request auth_fail "px_request option"
  | EvForward "string option" clock px_request
  | EvSweep time
  | EvDatabase DB

text \<open>An admission: client address, owner of the port, user, time, and whether a password was shown.\<close>

record admission =
  ad_ip :: string
  ad_owner :: string
  ad_user :: string
  ad_time :: time
  ad_password :: bool

fun px_admits :: "proxy_env \<Rightarrow> px_event \<Rightarrow> Handler \<Rightarrow> admission list" where
  "px_admits E (EvConnect salt ck hj r) h =
     (case connect_first E salt ck hj r h of
        (_, Some (Inr u), _) \<Rightarrow>
          [\<lparr>ad_ip = clientAddr r, ad_owner = hr_portOwner r, ad_user = u, ad_time = ck_now ck,
            ad_password = (Header_Get (hr_Header r) ''Proxy-Authorization'' \<noteq> [])\<rparr>]
      | _ \<Rightarrow> [])"
| "px_admits E (EvRetry salt ck r e retry) h =
     (case retry of
        None \<Rightarrow> []
      | Some r2 \<Rightarrow>
          (case fst (check_owner E salt (ck_now ck) (Header_Get (hr_Header r2) ''Proxy-Authorization'') (hr_portOwner r) h) of
             Inr u \<Rightarrow> [\<lparr>ad_ip = clientAddr r, ad_owner = hr_portOwner r, ad_user = u, ad_time = ck_now ck, ad_password = True\<rparr>]
           | Inl _ \<Rightarrow> []))"
| "px_admits E (EvForward salt ck r) h =
     (let (ok, lim) = Limiter_Allow (clientAddr r) (ck_now ck) (h_limiter h)
      in if \<not> ok then []
         else (case fst (authenticate E salt (ck_now ck) r (h\<lparr>h_limiter := lim\<rparr>)) of
                 Inr u \<Rightarrow> [\<lparr>ad_ip = clientAddr r, ad_owner = hr_portOwner r, ad_user = u, ad_time = ck_now ck,
                              ad_password = (Header_Get (hr_Header r) ''Proxy-Authorization'' \<noteq> [])\<rparr>]
               | Inl _ \<Rightarrow> []))"
| "px_admits E (EvSweep t) h = []"
| "px_admits E (EvDatabase d) h = []"

fun px_step :: "proxy_env \<Rightarrow> px_event \<Rightarrow> Handler \<Rightarrow> act list \<times> Handler" where
  "px_step E (EvConnect salt ck hj r) h =
     (case connect_first E salt ck hj r h of
        (acts, Some (Inr u), h) \<Rightarrow>
          (case connect_admitted E ck (clientAddr r) (hr_Host r) u h of (acts2, h) \<Rightarrow> (acts @ acts2, h))
      | (acts, _, h) \<Rightarrow> (acts, h))"
| "px_step E (EvRetry salt ck r e retry) h = connect_retry E salt ck r e retry h"
| "px_step E (EvForward salt ck r) h = handleForward E salt ck r h"
| "px_step E (EvSweep t) h = ([], cleanupAuthSessions t h)"
| "px_step E (EvDatabase d) h = ([], h\<lparr>h_db := d\<rparr>)"

fun px_run :: "proxy_env \<Rightarrow> px_event list \<Rightarrow> Handler \<Rightarrow> admission list \<Rightarrow> Handler \<times> admission list" where
  "px_run E [] h adm = (h, adm)"
| "px_run E (e # es) h adm = px_run E es (snd (px_step E e h)) (adm @ px_admits E e h)"

text \<open>The two halves and what happened between them make up \<open>handleConnect\<close>.\<close>

lemma handleConnect_steps:
  "handleConnect E salt ck ck2 HijackOK others retry r h =
     (case connect_first E salt ck HijackOK r h of
        (acts, Some (Inl e), h1) \<Rightarrow>
          (case px_step E (EvRetry salt ck2 r e retry) (others h1) of (acts2, h) \<Rightarrow> (acts @ acts2, h))
      | _ \<Rightarrow> px_step E (EvConnect salt ck HijackOK r) h)"
  by (simp add: handleConnect_def split: prod.splits option.splits sum.splits)

text \<open>Each step changes the session cache by the admission it makes, or by a sweep.\<close>

definition note_admission :: "admission \<Rightarrow> (string \<rightharpoonup> authSession) \<Rightarrow> (string \<rightharpoonup> authSession)" where
  "note_admission a m =
     m(authCacheKey (ad_ip a) (ad_user a) \<mapsto> \<lparr>as_user = ad_user a, as_expires = ad_time a + authSessionTTL\<rparr>)"

lemma step_auth:
  assumes "\<And>t. e \<noteq> EvSweep t"
  shows "h_auth (snd (px_step E e h)) = fold note_admission (px_admits E e h) (h_auth h)"
proof (cases e)
  case (EvConnect salt ck hj r)
  obtain a x h1 where f: "connect_first E salt ck hj r h = (a, x, h1)" by (metis prod_cases3)
  then have "h_auth h1 = h_auth h"
    by (auto simp: connect_first_def Let_def split: hijack.splits prod.splits if_splits sum.splits
        dest: authenticate_keeps(1))
  then show ?thesis using f
    by (auto simp: EvConnect note_admission_def recordAuthSuccess_def case_prod_beta split: option.splits sum.splits)
next
  case (EvRetry salt ck r er retry)
  show ?thesis
  proof (cases retry)
    case (Some r2)
    obtain x h1 where c: "check_owner E salt (ck_now ck) (Header_Get (hr_Header r2) ''Proxy-Authorization'') (hr_portOwner r) h = (x, h1)"
      by (cases "check_owner E salt (ck_now ck) (Header_Get (hr_Header r2) ''Proxy-Authorization'') (hr_portOwner r) h")
    then show ?thesis using check_owner_keeps(1) [OF c] Some
      by (cases x) (auto simp: EvRetry connect_retry_def note_admission_def recordAuthSuccess_def Let_def)
  qed (simp add: EvRetry connect_retry_def Let_def)
next
  case (EvForward salt ck r)
  obtain ok lim where l: "Limiter_Allow (clientAddr r) (ck_now ck) (h_limiter h) = (ok, lim)"
    by (cases "Limiter_Allow (clientAddr r) (ck_now ck) (h_limiter h)")
  obtain x h1 where a: "authenticate E salt (ck_now ck) r (h\<lparr>h_limiter := lim\<rparr>) = (x, h1)"
    by (cases "authenticate E salt (ck_now ck) r (h\<lparr>h_limiter := lim\<rparr>)")
  have h1: "h_auth h1 = h_auth h" using authenticate_keeps(1) [OF a] by simp
  show ?thesis
  proof (cases x)
    case (Inl er)
    then show ?thesis using h1 by (simp add: EvForward handleForward_def l a Let_def)
  next
    case (Inr u)
    let ?h = "recordAuthSuccess (ck_now ck) (clientAddr r) u h1"
    have "h_auth (snd (handleForward E salt ck r h)) = h_auth ?h" if ok
      using that ctxWithUserDNS_keeps(1) [of u ?h]
      by (auto simp: handleForward_def l a Inr Let_def case_prod_beta split: sum.splits if_splits)
    then show ?thesis using h1
      by (cases ok) (auto simp: EvForward l a Inr note_admission_def recordAuthSuccess_def handleForward_def Let_def)
  qed
qed (use assms in auto)

subsection \<open>Admissions are backed by passwords\<close>

lemma after_colon_unique:
  assumes "ip @ '':'' @ u = ip' @ '':'' @ v" "CHR '':'' \<notin> set u" "CHR '':'' \<notin> set v"
  shows "ip = ip' \<and> u = v"
proof -
  have tw: "takeWhile (\<lambda>c. c \<noteq> CHR '':'') (rev (x @ '':'' @ w)) = rev w" if "CHR '':'' \<notin> set w" for x w
  proof -
    have "takeWhile (\<lambda>c. c \<noteq> CHR '':'') (rev w @ CHR '':'' # rev x) = rev w"
      using that by (subst takeWhile_append2) auto
    then show ?thesis by simp
  qed
  have "rev u = takeWhile (\<lambda>c. c \<noteq> CHR '':'') (rev (ip @ '':'' @ u))" by (rule tw [OF assms(2), symmetric])
  also have "\<dots> = rev v" unfolding assms(1) by (rule tw [OF assms(3)])
  finally have "u = v" by simp
  with assms(1) show ?thesis by (simp only: append_same_eq simp_thms)
qed

lemma authCacheKey_inj:
  assumes "authCacheKey ip u = authCacheKey ip' v" "u \<noteq> []" "v \<noteq> []" "CHR '':'' \<notin> set u" "CHR '':'' \<notin> set v"
  shows "ip = ip' \<and> u = v"
  using after_colon_unique [of ip u ip' v] assms by (simp only: authCacheKey_def if_False simp_thms)

text \<open>Names the checker accepts: non-empty, without a colon.\<close>

definition plain_name :: "string \<Rightarrow> bool" where "plain_name u \<longleftrightarrow> u \<noteq> [] \<and> CHR '':'' \<notin> set u"

lemma Check_user:
  assumes "fst (DB_Check cr salt now creds d) = Inr u" "coherent cr T d"
  shows "find_user u d \<noteq> None" "\<exists>pass. parseBasicAuth creds = Some (u, pass)"
proof -
  obtain pass where p: "parseBasicAuth creds = Some (u, pass)"
    using assms(1) by (auto simp: DB_Check_def DB_Check_db_def Let_def split: option.splits if_splits prod.splits bool.splits)
  then show "\<exists>pass. parseBasicAuth creds = Some (u, pass)" by blast
  show "find_user u d \<noteq> None"
  proof (cases "auth_cache d u")
    case (Some c)
    then show ?thesis using coherentD(6) [OF assms(2)] by blast
  next
    case None
    then show ?thesis using assms(1) p
      by (auto simp: DB_Check_def DB_Check_db_def Let_def find_user_def sql_fault_def
          split: option.splits if_splits prod.splits bool.splits list.splits)
  qed
qed

lemma Check_plain:
  assumes "fst (DB_Check cr salt now creds d) = Inr u" "coherent cr T d" "argon_ok cr"
  shows "plain_name u"
proof -
  obtain r pass where "find_user u d = Some r" and p: "parseBasicAuth creds = Some (u, pass)"
    using Check_user [OF assms(1,2)] by blast
  then have "row_username r = u" "r \<in> set (users_tbl d)"
    by (auto simp: find_user_def find_Some_iff)
  then have "u \<noteq> []" using assms(2) by (force simp: coherent_def wf_users_def)
  then show ?thesis using parseBasicAuth_user [OF p] by (simp add: plain_name_def)
qed

text \<open>
  The invariant: the database is coherent, and every session entry is what some earlier
  admission left.
\<close>

definition px_ok :: "proxy_env \<Rightarrow> time \<Rightarrow> Handler \<Rightarrow> admission list \<Rightarrow> bool" where
  "px_ok E T h adm \<longleftrightarrow> coherent (pe_crypto E) T (h_db h) \<and> (\<forall>a\<in>set adm. plain_name (ad_user a)) \<and>
     (\<forall>k s. h_auth h k = Some s \<longrightarrow> (\<exists>a\<in>set adm. k = authCacheKey (ad_ip a) (ad_user a) \<and>
        as_user s = ad_user a \<and> as_expires s = ad_time a + authSessionTTL))"

text \<open>What an admission must be after the admissions \<open>adm\<close>.\<close>

definition admission_ok :: "admission list \<Rightarrow> admission \<Rightarrow> bool" where
  "admission_ok adm a \<longleftrightarrow> plain_name (ad_user a) \<and> ad_user a = ad_owner a \<and>
     (ad_password a \<or> (\<exists>b\<in>set adm. ad_ip b = ad_ip a \<and> ad_user b = ad_user a \<and> ad_time a < ad_time b + authSessionTTL))"

fun ev_ok :: "proxy_env \<Rightarrow> time \<Rightarrow> px_event \<Rightarrow> bool" where
  "ev_ok E T (EvConnect salt ck hj r) = plain_name (hr_portOwner r)"
| "ev_ok E T (EvRetry salt ck r e retry) = plain_name (hr_portOwner r)"
| "ev_ok E T (EvForward salt ck r) = plain_name (hr_portOwner r)"
| "ev_ok E T (EvSweep t) = True"
| "ev_ok E T (EvDatabase d) = coherent (pe_crypto E) T d"

lemma authenticate_admission:
  assumes "authenticate E salt now r h = (Inr u, h')" "px_ok E T h adm" "argon_ok (pe_crypto E)"
    and "plain_name (hr_portOwner r)"
  shows "admission_ok adm \<lparr>ad_ip = clientAddr r, ad_owner = hr_portOwner r, ad_user = u, ad_time = now,
     ad_password = (Header_Get (hr_Header r) ''Proxy-Authorization'' \<noteq> [])\<rparr>"
  using assms(1)
proof (cases rule: authenticate_cases)
  case password
  have "coherent (pe_crypto E) T (h_db h)" using assms(2) by (simp add: px_ok_def)
  from Check_plain [OF password(2) this assms(3)] show ?thesis
    using password assms(4) by (auto simp: admission_ok_def plain_name_def)
next
  case (session s)
  then obtain b where b: "b \<in> set adm" "authCacheKey (clientAddr r) (hr_portOwner r) = authCacheKey (ad_ip b) (ad_user b)"
      "as_user s = ad_user b" "as_expires s = ad_time b + authSessionTTL"
    using assms(2) unfolding px_ok_def by blast
  have "plain_name (ad_user b)" using assms(2) b(1) by (simp add: px_ok_def)
  then have "clientAddr r = ad_ip b \<and> hr_portOwner r = ad_user b"
    using authCacheKey_inj [OF b(2)] assms(4) by (simp add: plain_name_def)
  then show ?thesis using session b \<open>plain_name (ad_user b)\<close> by (auto simp: admission_ok_def)
qed

lemma px_ok_limiter: "px_ok E T (h\<lparr>h_limiter := l\<rparr>) adm = px_ok E T h adm"
  by (simp add: px_ok_def)

lemma admits_ok:
  assumes "px_ok E T h adm" "argon_ok (pe_crypto E)" "ev_ok E T e" "a \<in> set (px_admits E e h)"
  shows "admission_ok adm a"
proof (cases e)
  case (EvConnect salt ck hj r)
  obtain acts x h1 where f: "connect_first E salt ck hj r h = (acts, x, h1)" by (metis prod_cases3)
  then obtain u where x: "x = Some (Inr u)" "a = \<lparr>ad_ip = clientAddr r, ad_owner = hr_portOwner r, ad_user = u,
      ad_time = ck_now ck, ad_password = (Header_Get (hr_Header r) ''Proxy-Authorization'' \<noteq> [])\<rparr>"
    using assms(4) by (auto simp: EvConnect split: option.splits sum.splits)
  let ?h = "h\<lparr>h_limiter := snd (Limiter_Allow (clientAddr r) (ck_now ck) (h_limiter h))\<rparr>"
  have "fst (authenticate E salt (ck_now ck) r ?h) = Inr u"
    using f x(1) by (auto simp: connect_first_def Let_def case_prod_beta split: hijack.splits if_splits sum.splits)
  then show ?thesis
    using authenticate_admission [of E salt "ck_now ck" r ?h u "snd (authenticate E salt (ck_now ck) r ?h)" T adm] assms x(2)
    by (simp add: EvConnect px_ok_limiter prod_eq_iff)
next
  case (EvRetry salt ck r er retry)
  then obtain r2 where retry: "retry = Some r2" using assms(4) by (cases retry) auto
  obtain u where r2: "fst (check_owner E salt (ck_now ck) (Header_Get (hr_Header r2) ''Proxy-Authorization'') (hr_portOwner r) h) = Inr u"
      "a = \<lparr>ad_ip = clientAddr r, ad_owner = hr_portOwner r, ad_user = u, ad_time = ck_now ck, ad_password = True\<rparr>"
    using assms(4)
    by (cases "fst (check_owner E salt (ck_now ck) (Header_Get (hr_Header r2) ''Proxy-Authorization'') (hr_portOwner r) h)")
       (auto simp: EvRetry retry)
  from check_owner_keeps(4) [OF prod.collapse [symmetric] r2(1)]
  have c: "fst (DB_Check (pe_crypto E) salt (ck_now ck) (Header_Get (hr_Header r2) ''Proxy-Authorization'') (h_db h)) = Inr u"
    "hr_portOwner r = [] \<or> u = hr_portOwner r" by auto
  have "coherent (pe_crypto E) T (h_db h)" using assms(1) by (simp add: px_ok_def)
  from Check_plain [OF c(1) this assms(2)] show ?thesis
    using c(2) assms(3) r2(2) by (auto simp: EvRetry admission_ok_def plain_name_def)
next
  case (EvForward salt ck r)
  let ?h = "h\<lparr>h_limiter := snd (Limiter_Allow (clientAddr r) (ck_now ck) (h_limiter h))\<rparr>"
  obtain u where x: "fst (authenticate E salt (ck_now ck) r ?h) = Inr u" "a = \<lparr>ad_ip = clientAddr r,
      ad_owner = hr_portOwner r, ad_user = u, ad_time = ck_now ck,
      ad_password = (Header_Get (hr_Header r) ''Proxy-Authorization'' \<noteq> [])\<rparr>"
    using assms(4)
    by (cases "fst (authenticate E salt (ck_now ck) r ?h)") (auto simp: EvForward Let_def case_prod_beta split: if_splits)
  then show ?thesis
    using authenticate_admission [of E salt "ck_now ck" r ?h u "snd (authenticate E salt (ck_now ck) r ?h)" T adm] assms x(2)
    by (simp add: EvForward px_ok_limiter prod_eq_iff)
qed (use assms in auto)

lemma step_db:
  assumes "\<And>d. e \<noteq> EvDatabase d"
  shows "h_db (snd (px_step E e h)) = h_db h \<or>
    (\<exists>salt now creds. h_db (snd (px_step E e h)) = snd (DB_Check (pe_crypto E) salt now creds (h_db h)))"
proof (cases e)
  case (EvConnect salt ck hj r)
  obtain a x h1 where f: "connect_first E salt ck hj r h = (a, x, h1)" by (metis prod_cases3)
  then have "h_db h1 = h_db h \<or> h_db h1 =
      snd (DB_Check (pe_crypto E) salt (ck_now ck) (Header_Get (hr_Header r) ''Proxy-Authorization'') (h_db h))"
    by (auto simp: connect_first_def Let_def split: hijack.splits prod.splits if_splits sum.splits
        dest!: authenticate_keeps(3))
  moreover have "h_db (snd (px_step E e h)) = h_db h1"
    using f by (auto simp: EvConnect case_prod_beta split: option.splits sum.splits)
  ultimately show ?thesis by metis
next
  case (EvRetry salt ck r er retry)
  show ?thesis
  proof (cases retry)
    case (Some r2)
    obtain x h1 where c: "check_owner E salt (ck_now ck) (Header_Get (hr_Header r2) ''Proxy-Authorization'') (hr_portOwner r) h = (x, h1)"
      by (cases "check_owner E salt (ck_now ck) (Header_Get (hr_Header r2) ''Proxy-Authorization'') (hr_portOwner r) h")
    then show ?thesis using check_owner_keeps(3) [OF c] Some
      by (cases x) (auto simp: EvRetry connect_retry_def Let_def)
  qed (simp add: EvRetry connect_retry_def Let_def)
next
  case (EvForward salt ck r)
  obtain ok lim where l: "Limiter_Allow (clientAddr r) (ck_now ck) (h_limiter h) = (ok, lim)"
    by (cases "Limiter_Allow (clientAddr r) (ck_now ck) (h_limiter h)")
  obtain x h1 where a: "authenticate E salt (ck_now ck) r (h\<lparr>h_limiter := lim\<rparr>) = (x, h1)"
    by (cases "authenticate E salt (ck_now ck) r (h\<lparr>h_limiter := lim\<rparr>)")
  have h1: "h_db h1 = snd (DB_Check (pe_crypto E) salt (ck_now ck) (Header_Get (hr_Header r) ''Proxy-Authorization'') (h_db h))"
    using authenticate_keeps(3) [OF a] by simp
  have "h_db (snd (handleForward E salt ck r h)) \<in> {h_db h, h_db h1}"
  proof (cases x)
    case (Inl er)
    then show ?thesis by (simp add: handleForward_def l a Let_def)
  next
    case (Inr u)
    then show ?thesis using ctxWithUserDNS_keeps(2) [of u "recordAuthSuccess (ck_now ck) (clientAddr r) u h1"]
      by (auto simp: handleForward_def l a Let_def case_prod_beta recordAuthSuccess_def split: sum.splits if_splits)
  qed
  then show ?thesis using h1 by (auto simp: EvForward)
qed (use assms in \<open>auto simp: cleanupAuthSessions_def\<close>)

lemma admits_one: "length (px_admits E e h) \<le> 1"
  by (cases e) (auto simp: Let_def split: prod.splits option.splits sum.splits)

lemma px_ok_step:
  assumes ok: "px_ok E T h adm" and "argon_ok (pe_crypto E)" "ev_ok E T e"
  shows "px_ok E T (snd (px_step E e h)) (adm @ px_admits E e h)"
proof -
  let ?h = "snd (px_step E e h)" and ?adm = "adm @ px_admits E e h"
  have db: "coherent (pe_crypto E) T (h_db ?h)"
  proof (cases "\<exists>d. e = EvDatabase d")
    case False
    have "coherent (pe_crypto E) T (h_db h)" using ok by (simp add: px_ok_def)
    then show ?thesis using step_db [of e E h] False coherent_Check [OF _ assms(2)] by metis
  qed (use assms(3) in auto)
  have plain: "\<forall>a\<in>set ?adm. plain_name (ad_user a)"
    using ok admits_ok [OF assms] by (auto simp: px_ok_def admission_ok_def)
  have "\<exists>a\<in>set ?adm. k = authCacheKey (ad_ip a) (ad_user a) \<and> as_user s = ad_user a \<and> as_expires s = ad_time a + authSessionTTL"
    if s: "h_auth ?h k = Some s" for k s
  proof -
    have old: ?thesis if "h_auth h k = Some s" using ok that unfolding px_ok_def by (metis UnCI set_append)
    show ?thesis
  proof (cases "\<exists>t. e = EvSweep t")
    case True
    then have "h_auth h k = Some s" using s by (auto simp: cleanupAuthSessions_def split: option.splits if_splits)
    then show ?thesis by (rule old)
  next
    case False
    then have f: "fold note_admission (px_admits E e h) (h_auth h) k = Some s" using s step_auth [of e E h] by metis
    consider "px_admits E e h = []" | a where "px_admits E e h = [a]"
      using admits_one [of E e h] by (cases "px_admits E e h") auto
    then show ?thesis
    proof cases
      case 1
      then show ?thesis using f old by simp
    next
      case (2 a)
      then show ?thesis using f old by (cases "k = authCacheKey (ad_ip a) (ad_user a)") (auto simp: note_admission_def)
    qed
  qed
  qed
  then show ?thesis using db plain by (simp add: px_ok_def)
qed

lemma px_run_ok:
  assumes "px_ok E T h adm" "argon_ok (pe_crypto E)" "\<forall>e\<in>set es. ev_ok E T e"
    and "\<forall>i<length adm. admission_ok (take i adm) (adm ! i)" "px_run E es h adm = (h', adm')"
  shows "px_ok E T h' adm' \<and> (\<forall>i<length adm'. admission_ok (take i adm') (adm' ! i))"
  using assms
proof (induction es arbitrary: h adm)
  case (Cons e es)
  have e: "ev_ok E T e" using Cons.prems(3) by simp
  have "\<forall>i<length (adm @ px_admits E e h). admission_ok (take i (adm @ px_admits E e h)) ((adm @ px_admits E e h) ! i)"
  proof (intro allI impI)
    fix i assume i: "i < length (adm @ px_admits E e h)"
    show "admission_ok (take i (adm @ px_admits E e h)) ((adm @ px_admits E e h) ! i)"
    proof (cases "i < length adm")
      case True
      then show ?thesis using Cons.prems(4) by (simp add: nth_append)
    next
      case False
      then have "i = length adm" "px_admits E e h \<noteq> []" using i admits_one [of E e h] by auto
      moreover have "hd (px_admits E e h) \<in> set (px_admits E e h)" using calculation(2) by simp
      ultimately show ?thesis using admits_ok [OF Cons.prems(1,2) e]
        by (simp add: nth_append hd_conv_nth)
    qed
  qed
  then show ?case using Cons.IH [OF px_ok_step [OF Cons.prems(1,2) e] Cons.prems(2)] Cons.prems(3,5) by simp
qed simp

end
