(* ===== verification/UserDB_Props.thy ===== *)
theory UserDB_Props
  imports UserDB_Run
begin

text \<open>
  The theorems about the user database: coherence over every run, what a restart keeps, the
  soundness of the credential check, the effect of a password change, port assignment, and the
  ad-hoc downtime that outlives its user.
\<close>

subsection \<open>Runs\<close>

datatype db_op =
    OpCheck "string option" time string
  | OpAdd "string option" time string string int int
  | OpDelete string
  | OpChangePassword "string option" string string
  | OpUpdateDNS string string string
  | OpUpdateDowntime string DowntimeSchedule
  | OpSetOverride string time
  | OpClearOverride string
  | OpSetUntil string time
  | OpClearUntil string
  | OpSetEnabled string bool
  | OpUpdatePort string int

fun db_step :: "crypto \<Rightarrow> DB \<Rightarrow> db_op \<Rightarrow> DB" where
  "db_step cr d (OpCheck salt now header) = snd (DB_Check cr salt now header d)"
| "db_step cr d (OpAdd salt now u pw mn mx) = snd (DB_Add cr salt now u pw mn mx d)"
| "db_step cr d (OpDelete u) = snd (DB_Delete u d)"
| "db_step cr d (OpChangePassword salt u pw) = snd (DB_ChangePassword cr salt u pw d)"
| "db_step cr d (OpUpdateDNS u s p) = snd (DB_UpdateDNS u s p d)"
| "db_step cr d (OpUpdateDowntime u sch) = snd (DB_UpdateDowntime u sch d)"
| "db_step cr d (OpSetOverride u t) = snd (DB_SetDowntimeOverride u t d)"
| "db_step cr d (OpClearOverride u) = snd (DB_ClearDowntimeOverride u d)"
| "db_step cr d (OpSetUntil u t) = snd (DB_SetDowntimeUntil u t d)"
| "db_step cr d (OpClearUntil u) = snd (DB_ClearDowntimeUntil u d)"
| "db_step cr d (OpSetEnabled u b) = snd (DB_SetEnabled u b d)"
| "db_step cr d (OpUpdatePort u p) = snd (DB_UpdatePort u p d)"

definition db_run :: "crypto \<Rightarrow> DB \<Rightarrow> db_op list \<Rightarrow> DB" where
  "db_run cr = foldl (db_step cr)"

lemmas coherent_ops = coherent_Check coherent_Add coherent_Delete coherent_ChangePassword
  coherent_UpdateDNS coherent_UpdateDowntime coherent_SetDowntimeOverride
  coherent_ClearDowntimeOverride coherent_SetDowntimeUntil coherent_ClearDowntimeUntil
  coherent_SetEnabled coherent_UpdatePort

lemma coherent_step: "argon_ok cr \<Longrightarrow> coherent cr T d \<Longrightarrow> coherent cr T (db_step cr d oper)"
  by (cases oper) (simp_all add: coherent_ops)

lemma coherent_run: "argon_ok cr \<Longrightarrow> coherent cr T d \<Longrightarrow> coherent cr T (db_run cr d ops)"
  unfolding db_run_def by (induction ops arbitrary: d) (simp_all add: coherent_step)

lemma coherent_Open:
  assumes "DB_Open now disk = Inr d" "disk_ok disk"
  shows "coherent cr now d"
proof -
  have "user_ok cr now d u \<and> wf_users d" for u
  proof (rule Open_loads [OF assms(1), where u = u])
    fix d1
    assume m: "migrated (fresh_db disk) d1" and tbl: "users_tbl d = users_tbl d1"
      and au: "auth_cache d = Map.empty"
      and l: "disk_ok disk \<Longrightarrow> dnsCache d u = Option.bind (find_user u d1) row_dns"
        "disk_ok disk \<Longrightarrow> downtimeCache d u = Option.bind (find_user u d1) row_sched"
        "disk_ok disk \<Longrightarrow> overrideCache d u = Option.bind (find_user u d1) (row_future row_override_until now)"
        "disk_ok disk \<Longrightarrow> enabledCache d u = map_option (\<lambda>r. row_enabled r \<noteq> 0) (find_user u d1)"
    have ok: "disk_ok d1" using m assms(2)
      by (simp add: migrated_def disk_ok_def fresh_db_def wf_users_def)
    have f: "find_user u d = find_user u d1" by (simp add: find_user_def tbl)
    have ex: "expiry_ok now (row_future row_override_until now x) (row_override_until x)"
      if "find_user u d1 = Some x" for x
      using ok find_user_name [OF that]
      by (auto simp: expiry_ok_def row_future_def disk_ok_def split: text_col.splits option.splits)
    show ?thesis using ok au l [OF assms(2)] ex
      by (auto simp: user_ok_def view_ok_def f disk_ok_def wf_users_def tbl)
  qed
  then show ?thesis by (auto simp: coherent_def)
qed


subsection \<open>Restart\<close>

definition override_active :: "time \<Rightarrow> string \<Rightarrow> DB \<Rightarrow> bool" where
  "override_active t u d \<longleftrightarrow> (\<exists>x. overrideCache d u = Some x \<and> t < x)"

lemma rfc3339_col_text:
  assumes "rfc3339_col x = ColText y" shows "y \<le> x" "x < y + second"
proof -
  have y: "y = x div second * second"
    using assms by (auto simp: rfc3339_col_def Let_def split: if_splits)
  have "x div second * second + x mod second = x" "0 \<le> x mod second" "x mod second < second"
    by (simp_all add: second_def)
  then show "y \<le> x" "x < y + second" using y by linarith+
qed

text \<open>
  C22. A restart keeps every policy.  Re-opening a coherent database whose schema is
  current gives the same enabled flags, DNS entries and schedules; overrides survive up to the
  second they are stored with (never longer than before, and at most one second shorter).
\<close>

theorem restart_keeps_policy:
  assumes coh: "coherent cr opened d" and "opened \<le> now" "set schema_columns \<subseteq> set (users_cols d)"
    and reopen: "DB_Open now d = Inr d'"
  shows "DB_IsEnabled u d' = DB_IsEnabled u d \<and> DB_GetDNS u d' = DB_GetDNS u d \<and>
     DB_GetDowntime u d' = DB_GetDowntime u d \<and>
     (\<forall>t\<ge>now. override_active t u d' \<longrightarrow> override_active t u d) \<and>
     (\<forall>t\<ge>now. (\<exists>x y. overrideCache d u = Some x \<and> rfc3339_col x = ColText y \<and> t + second \<le> x) \<longrightarrow>
        override_active t u d')"
proof (rule Open_loads [OF reopen, where u = u])
  fix d1
  assume m: "migrated (fresh_db d) d1"
    and l: "disk_ok d \<Longrightarrow> dnsCache d' u = Option.bind (find_user u d1) row_dns"
      "disk_ok d \<Longrightarrow> downtimeCache d' u = Option.bind (find_user u d1) row_sched"
      "disk_ok d \<Longrightarrow> overrideCache d' u = Option.bind (find_user u d1) (row_future row_override_until now)"
      "disk_ok d \<Longrightarrow> enabledCache d' u = map_option (\<lambda>r. row_enabled r \<noteq> 0) (find_user u d1)"
  have wf: "wf_users d" using coh by (simp add: coherent_def)
  have stamp: "rfc3339_col t = ColText t" if "r \<in> set (users_tbl d)" "row_override_until r = ColText t" for r t
  proof -
    have "expiry_ok opened (overrideCache d (row_username r)) (ColText t)"
      using coherentD(5) [OF coh find_user_mem [OF wf that(1)]] that(2) by simp
    moreover have "rfc3339_col t = ColText t" if "rfc3339_col x = ColText t" for x
      using that by (auto simp: rfc3339_col_def Let_def second_def split: if_splits)
    ultimately show ?thesis by (auto simp: expiry_ok_def split: option.splits)
  qed
  then have disk: "disk_ok d" using wf by (simp add: disk_ok_def)
  have tbl: "users_tbl d1 = users_tbl d"
    using m assms(3) by (simp add: migrated_def fresh_db_def)
  then have f: "find_user u d1 = find_user u d" by (simp add: find_user_def)
  have pol: "DB_IsEnabled u d' = DB_IsEnabled u d \<and> DB_GetDNS u d' = DB_GetDNS u d \<and>
     DB_GetDowntime u d' = DB_GetDowntime u d"
    using l [OF disk] coherentD(1-3) [OF coh, of u]
    by (simp add: DB_IsEnabled_def DB_GetDNS_def DB_GetDowntime_def f)
  have bwd: "override_active t u d" if now_t: "now \<le> t" and act: "override_active t u d'" for t
  proof -
    obtain r y where r: "find_user u d = Some r" "row_override_until r = ColText y" "t < y" "now < y"
    proof -
      obtain y where y: "overrideCache d' u = Some y" "t < y" using act by (auto simp: override_active_def)
      then obtain r where r: "find_user u d = Some r" "row_future row_override_until now r = Some y"
        using l(3) [OF disk] by (auto simp: f bind_eq_Some_conv)
      then have "row_override_until r = ColText y" "now < y"
        by (auto simp: row_future_def split: text_col.splits if_splits)
      then show ?thesis using that [OF r(1) _ y(2)] by simp
    qed
    have "expiry_ok opened (overrideCache d u) (ColText y)"
      using coherentD(5) [OF coh r(1)] r(2) by simp
    then obtain x where "overrideCache d u = Some x" "rfc3339_col x = ColText y"
      using r(4) assms(2) by (auto simp: expiry_ok_def split: option.splits)
    then show ?thesis using rfc3339_col_text(1) r(3) by (fastforce simp: override_active_def)
  qed
  have fwd: "override_active t u d'"
    if h: "now \<le> t" "overrideCache d u = Some x" "rfc3339_col x = ColText y" "t + second \<le> x" for t x y
  proof -
    obtain r where r: "find_user u d = Some r" using coherentD(4) [OF coh] h(2) by fastforce
    then have "row_override_until r = ColText y"
      using coherentD(5) [OF coh r] h(2,3) by (simp add: expiry_ok_def)
    then show ?thesis using l(3) [OF disk] r rfc3339_col_text(2) [OF h(3)] h(1,4)
      by (auto simp: override_active_def f row_future_def)
  qed
  show ?thesis using pol bwd fwd by blast
qed

subsection \<open>The credential check\<close>

text \<open>
  C9. The credential check is sound.  In a coherent state an accepted header decodes to
  the returned user and a password with the SHA-256 digest of one that verifies against the
  user's stored hash (the password itself, unless the answer came from the cache).
\<close>

theorem DB_Check_sound:
  assumes coh: "coherent cr opened d" and argon: "argon_ok cr"
    and ok: "fst (DB_Check cr salt now header d) = Inr user"
  shows "\<exists>pass pw r. parseBasicAuth header = Some (user, pass) \<and> r \<in> set (users_tbl d) \<and>
     row_username r = user \<and> c_sha256 cr pw = c_sha256 cr pass \<and>
     verifyPassword (c_idkey cr) pw (row_password_hash r)"
proof -
  have wf: "wf_users d" using coh by (simp add: coherent_def)
  obtain u pass where p: "parseBasicAuth header = Some (u, pass)"
    using ok by (cases "parseBasicAuth header") (auto simp: DB_Check_def split: if_splits)
  consider (cached) c where "auth_cache d u = Some c" "now < validUntil c"
      "c_sha256 cr pass = passwordSHA256 c" "user = u"
    | (table) "fst (DB_Check_db cr salt now u pass (c_sha256 cr pass) d) = Inr user"
    using ok p by (auto simp: DB_Check_def Let_def split: if_splits option.splits)
  then show ?thesis
  proof cases
    case cached
    then show ?thesis using coherentD(6) [OF coh cached(1)] p find_user_name by metis
  next
    case table
    then obtain x where "find_user u d = Some x" "user = u"
      "verifyPassword (c_idkey cr) pass (row_password_hash x)"
      by (rule_tac Check_db_cases [OF wf argon, of salt now u pass "c_sha256 cr pass"]) auto
    then show ?thesis using p find_user_name by blast
  qed
qed

text \<open>
  C23. A password change takes effect at once.  After a successful change the next check
  with a colon-free user name accepts exactly the passwords that the new hash verifies, however
  long the old password was cached; in particular the new one.
\<close>

theorem DB_ChangePassword_effective:
  assumes coh: "coherent cr opened d" and argon: "argon_ok cr"
    and change: "DB_ChangePassword cr (Some salt) u newpw d = (Inr (), d')"
    and hdr: "parseBasicAuth header = Some (u, pw)" "header \<noteq> []"
    and nofault: "fst (sql_fault d') = False"
  shows "fst (DB_Check cr s now header d') =
     (if c_idkey cr pw salt argonTime argonMemory argonThreads argonKeyLen =
         c_idkey cr newpw salt argonTime argonMemory argonThreads argonKeyLen
      then Inr u else Inl (ErrWrongPassword u))"
proof -
  obtain c cs where npw: "newpw = c # cs"
    using change by (cases newpw) (auto simp: DB_ChangePassword_def)
  have ok: "fst (DB_ChangePassword cr (Some salt) u (c # cs) d) = Inr ()" using change npw by simp
  obtain r where r: "find_user u d = Some r" using change_pw.ok [OF ok] by auto
  have find: "find_user u d' = Some (row_new_hash cr salt (c # cs) r)"
    using change_pw.rows [OF ok, of u] r change npw by simp
  obtain h where h: "hashPassword (c_idkey cr) (Some salt) newpw = Some h" by (simp add: hashPassword_def Let_def)
  have cache: "auth_cache d' u = None"
    using change npw by (auto simp: DB_ChangePassword_def hashPassword_def Let_def split: prod.splits option.splits if_splits)
  have v: "verifyPassword (c_idkey cr) pw h \<longleftrightarrow>
      c_idkey cr pw salt argonTime argonMemory argonThreads argonKeyLen =
      c_idkey cr newpw salt argonTime argonMemory argonThreads argonKeyLen"
    using hash_verify_iff [of "c_idkey cr" salt newpw h pw] h argon by (simp add: argon_ok_def)
  obtain fs where f: "sql_fault d' = (False, d'\<lparr>sql_faults := fs\<rparr>)"
    using nofault by (rule_tac sql_fault_cases [of d']) auto
  have "row_password_hash (row_new_hash cr salt (c # cs) r) = h" using h npw by (simp add: row_new_hash_def)
  then show ?thesis using hdr cache f find v
    by (simp add: DB_Check_def DB_Check_db_def Let_def)
qed

subsection \<open>Ports\<close>

text \<open>
  Port assignment.  A successful \<open>Add\<close> returns the smallest port of the configured
  range that no stored user has, and appends exactly one row, enabled and with that port.
\<close>

theorem DB_Add_port:
  assumes "DB_Add cr salt now u pw mn mx d = (Inr port, d')"
  shows "mn \<le> port \<and> port \<le> mx \<and> port \<notin> row_port ` set (users_tbl d) \<and>
     {mn..<port} \<subseteq> row_port ` set (users_tbl d) \<and>
     (\<exists>r. users_tbl d' = users_tbl d @ [r] \<and> row_username r = u \<and> row_port r = port) \<and>
     DB_IsEnabled u d' \<and> find_user u d = None"
proof (rule Add_cases [of cr salt now u pw mn mx d])
  fix p h fs
  assume add: "DB_Add cr salt now u pw mn mx d = (Inr p,
         d\<lparr>sql_faults := fs, users_tbl := users_tbl d @ [new_row u h p now],
           enabledCache := (enabledCache d)(u \<mapsto> True)\<rparr>)" and none: "find_user u d = None"
    and "first_free_port (\<lambda>p. p \<in> set (filter (\<lambda>p. mn \<le> p \<and> p \<le> mx) (map row_port (users_tbl d)))) mn mx = Some p"
  then have p: "mn \<le> p" "p \<le> mx" "p \<notin> row_port ` set (users_tbl d)"
    "{mn..<p} \<subseteq> row_port ` set (users_tbl d)" "p = port"
    using assms by (auto simp: first_free_port_Some)
  then show ?thesis using add assms none by (auto simp: DB_IsEnabled_def new_row_def)
qed (use assms in auto)

text \<open>
  C40. When no port is left the request fails and no user is added: \<open>Add\<close> reports
  \<open>ErrNoPortAvailable\<close> exactly when every port of the range is taken (given valid input and a
  working database).
\<close>

theorem DB_Add_exhausted:
  assumes "u \<noteq> []" "pw \<noteq> []" "fst (sql_fault d) = False"
  shows "fst (DB_Add cr (Some salt) now u pw mn mx d) = Inl ErrNoPortAvailable \<longleftrightarrow>
     {mn..mx} \<subseteq> row_port ` set (users_tbl d)"
proof -
  obtain fs where f: "sql_fault d = (False, d\<lparr>sql_faults := fs\<rparr>)"
    using assms(3) by (rule_tac sql_fault_cases [of d]) auto
  let ?P = "\<lambda>p. p \<in> set (filter (\<lambda>p. mn \<le> p \<and> p \<le> mx) (map row_port (users_tbl d)))"
  have none: "first_free_port used p m = None \<longleftrightarrow> (\<forall>x. p \<le> x \<and> x \<le> m \<longrightarrow> used x)" for used p m
  proof (induction used p m rule: first_free_port.induct)
    case (1 used p m)
    show ?case by (subst first_free_port.simps) (use 1 in \<open>auto, metis add1_zle_eq order_le_less\<close>)
  qed
  have "fst (DB_Add cr (Some salt) now u pw mn mx d) = Inl ErrNoPortAvailable \<longleftrightarrow> first_free_port ?P mn mx = None"
    using assms f by (auto simp: DB_Add_def hashPassword_def DB_nextAvailablePort_def Let_def
      split: option.splits prod.splits if_splits bool.splits)
  then show ?thesis by (auto simp: none)
qed

subsection \<open>Downtime\<close>

text \<open>
  C8. The downtime decision.  In a coherent state a user is blocked at an instant exactly
  when an ad-hoc downtime is running, or no override is running and the minute of the week lies
  in a window of the schedule stored in the user's row (windows wrap around midnight and around
  the end of the week).
\<close>

theorem DB_IsInDowntime_decision:
  assumes coh: "coherent cr opened d" and clk: "wf_clock (loc now)" and "zero_time \<le> now"
    and r: "r \<in> set (users_tbl d)"
  shows "DB_IsInDowntime loc now (row_username r) d \<longleftrightarrow>
     (\<exists>t. downtimeUntilCache d (row_username r) = Some t \<and> now < t) \<or>
     (\<not> override_active now (row_username r) d \<and>
      blocked_week_minute (case row_schedule r of ColText s \<Rightarrow> s | _ \<Rightarrow> []) (week_minute (loc now)))"
proof -
  let ?u = "row_username r"
  have wf: "wf_users d" using coh by (simp add: coherent_def)
  have sched: "DB_GetDowntime ?u d = (case row_schedule r of ColText s \<Rightarrow> s | _ \<Rightarrow> [])"
    using coherentD(3) [OF coh, of ?u] find_user_mem [OF wf r]
    by (simp add: DB_GetDowntime_def row_sched_def split: text_col.splits)
  have until: "\<not> IsZero (DB_GetDowntimeUntil ?u d) \<and> now < DB_GetDowntimeUntil ?u d \<longleftrightarrow>
      (\<exists>t. downtimeUntilCache d ?u = Some t \<and> now < t)"
    using assms(3) by (auto simp: DB_GetDowntimeUntil_def IsZero_def split: option.splits)
  have ov: "\<not> IsZero (DB_GetDowntimeOverride ?u d) \<and> now < DB_GetDowntimeOverride ?u d \<longleftrightarrow>
      override_active now ?u d"
    using assms(3) by (auto simp: DB_GetDowntimeOverride_def IsZero_def override_active_def split: option.splits)
  have empty: "\<not> isInDowntime [] c" for c
    by (simp add: isInDowntime_def Let_def)
  show ?thesis
    unfolding DB_IsInDowntime_def Let_def until ov sched
    using isInDowntime_week_line [OF clk] empty by auto
qed

text \<open>
  An ad-hoc downtime outlives its user.  Deleting a user clears five of the six caches;
  the entry of \<open>downtimeUntilCache\<close> stays, so a user re-added under the same name is blocked until
  the old instant although the new row has no \<open>downtime_until\<close>; re-opening the database ends it.
\<close>

theorem readd_inherits_downtime:
  assumes "DB_SetDowntimeUntil u t d = (Inr (), d1)" "DB_Delete u d1 = (Inr (), d2)"
    and add: "DB_Add cr salt t0 u pw mn mx d2 = (Inr port, d3)"
    and "now < t" "t \<noteq> zero_time"
  shows "DB_IsInDowntime loc now u d3 \<and> (\<exists>r. find_user u d3 = Some r \<and> row_downtime_until r = ColEmpty)"
proof -
  have 1: "downtimeUntilCache d1 u = Some t"
    using assms(1) by (auto simp: DB_SetDowntimeUntil_def split: prod.splits option.splits if_splits)
  have 2: "downtimeUntilCache d2 = downtimeUntilCache d1"
    using assms(2) by (rule_tac Delete_cases [of u d1]) auto
  have 3: "downtimeUntilCache d3 = downtimeUntilCache d2 \<and>
      (\<exists>r. find_user u d3 = Some r \<and> row_downtime_until r = ColEmpty)"
  proof (rule Add_cases [of cr salt t0 u pw mn mx d2])
    fix p h fs
    assume a: "DB_Add cr salt t0 u pw mn mx d2 = (Inr p,
         d2\<lparr>sql_faults := fs, users_tbl := users_tbl d2 @ [new_row u h p t0],
           enabledCache := (enabledCache d2)(u \<mapsto> True)\<rparr>)" "find_user u d2 = None"
    then show ?thesis using add find_user_snoc [of u "d2\<lparr>sql_faults := fs\<rparr>" "new_row u h p t0"]
      by (auto simp: new_row_def find_user_def)
  qed (use add in auto)
  then show ?thesis using 1 2 assms(4,5)
    by (simp add: DB_IsInDowntime_def DB_GetDowntimeUntil_def IsZero_def)
qed

subsection \<open>Instances\<close>

definition ex_db :: DB where
  "ex_db = snd (DB_Add ex_crypto (Some ''salt'') 0 ''kid'' ''pw'' 3129 3130 ex_disk)"

lemma ex_argon: "argon_ok ex_crypto"
  by (auto simp: argon_ok_def ex_crypto_def)

lemma ex_disk_ok: "disk_ok ex_disk"
  by (simp add: disk_ok_def wf_users_def ex_disk_def)

lemma ex_Open: "DB_Open now ex_disk = Inr ex_disk"
  by (simp add: DB_Open_def DB_migrate_def sql_exec_def sql_fault_def add_column_def ex_disk_def
      fresh_db_def schema_columns_def DB_loadDNSCache_def DB_loadDowntimeCache_def
      DB_loadOverrideCache_def DB_loadDowntimeUntilCache_def DB_loadEnabledCache_def)

lemma ex_coherent: "coherent ex_crypto 0 ex_db"
  unfolding ex_db_def using coherent_Add [OF coherent_Open [OF ex_Open ex_disk_ok]] .

lemma ex_hash: "\<exists>h. hashPassword idkey (Some salt) pw = Some h"
  by (simp add: hashPassword_def Let_def)

lemma ex_Add:
  obtains h where "hashPassword (c_idkey ex_crypto) (Some ''salt'') ''pw'' = Some h"
    "DB_Add ex_crypto (Some ''salt'') 0 ''kid'' ''pw'' 3129 3130 ex_disk =
     (Inr 3129, ex_disk\<lparr>users_tbl := [new_row ''kid'' h 3129 0], enabledCache := [''kid'' \<mapsto> True]\<rparr>)"
proof -
  obtain h where h: "hashPassword (c_idkey ex_crypto) (Some ''salt'') ''pw'' = Some h" using ex_hash by blast
  have p: "first_free_port (\<lambda>p. False) 3129 3130 = Some 3129"
    by (simp add: first_free_port_Some)
  show ?thesis
    by (rule that [OF h])
       (simp add: h p DB_Add_def DB_nextAvailablePort_def sql_fault_def ex_disk_def find_user_def)
qed

lemma ex_db_row:
  obtains h where "hashPassword (c_idkey ex_crypto) (Some ''salt'') ''pw'' = Some h"
    "ex_db = ex_disk\<lparr>users_tbl := [new_row ''kid'' h 3129 0], enabledCache := [''kid'' \<mapsto> True]\<rparr>"
  unfolding ex_db_def by (rule ex_Add) simp

lemma ex_db_facts:
  "find_user ''kid'' ex_db \<noteq> None" "fst (sql_fault ex_db) = False" "users_cols ex_db = schema_columns"
  "DB_IsEnabled ''kid'' ex_db" "row_port ` set (users_tbl ex_db) = {3129}" "sql_faults ex_db = []"
proof -
  obtain h where e: "ex_db = ex_disk\<lparr>users_tbl := [new_row ''kid'' h 3129 0], enabledCache := [''kid'' \<mapsto> True]\<rparr>"
    by (rule ex_db_row)
  show "find_user ''kid'' ex_db \<noteq> None" "fst (sql_fault ex_db) = False" "users_cols ex_db = schema_columns"
    "DB_IsEnabled ''kid'' ex_db" "row_port ` set (users_tbl ex_db) = {3129}" "sql_faults ex_db = []"
    by (simp_all add: e ex_disk_def find_user_def new_row_def sql_fault_def DB_IsEnabled_def)
qed

lemma ex_header: "parseBasicAuth (''Basic '' @ StdEncoding_EncodeToString (''kid'' @ '':'' @ p)) = Some (''kid'', p)"
  by (rule parseBasicAuth_roundtrip) simp


theorem restart_keeps_policy_witness:
  "\<exists>d. DB_Open 5 ex_db = Inr d \<and> DB_IsEnabled ''kid'' ex_db \<and> DB_IsEnabled ''kid'' d"
proof -
  obtain h where e: "ex_db = ex_disk\<lparr>users_tbl := [new_row ''kid'' h 3129 0], enabledCache := [''kid'' \<mapsto> True]\<rparr>"
    by (rule ex_db_row)
  have "\<exists>d. DB_Open 5 ex_db = Inr d"
    by (simp add: e DB_Open_def DB_migrate_def sql_exec_def sql_fault_def add_column_def ex_disk_def
      fresh_db_def schema_columns_def DB_loadDNSCache_def DB_loadDowntimeCache_def
      DB_loadOverrideCache_def DB_loadDowntimeUntilCache_def DB_loadEnabledCache_def)
  then obtain d where d: "DB_Open 5 ex_db = Inr d" by blast
  show ?thesis
    using restart_keeps_policy [OF ex_coherent _ _ d, of "''kid''"] d ex_db_facts(3,4) by auto
qed

theorem DB_Check_sound_witness:
  "\<exists>pass r. parseBasicAuth (''Basic '' @ StdEncoding_EncodeToString (''kid'' @ '':'' @ ''pw'')) = Some (''kid'', pass) \<and>
     r \<in> set (users_tbl ex_db) \<and> verifyPassword (c_idkey ex_crypto) pass (row_password_hash r)"
proof -
  let ?h = "''Basic '' @ StdEncoding_EncodeToString (''kid'' @ '':'' @ ''pw'')"
  have "fst (DB_Check ex_crypto None 0 ?h ex_db) = Inr ''kid''"
  proof (rule ex_db_row)
    fix h
    assume h: "hashPassword (c_idkey ex_crypto) (Some ''salt'') ''pw'' = Some h"
      and e: "ex_db = ex_disk\<lparr>users_tbl := [new_row ''kid'' h 3129 0], enabledCache := [''kid'' \<mapsto> True]\<rparr>"
    show ?thesis using hash_verifies [OF ex_argon h] hash_no_rehash [OF h] ex_header [of "''pw''"]
      by (simp add: e DB_Check_def DB_Check_db_def Let_def sql_fault_def ex_disk_def find_user_def new_row_def)
  qed
  then show ?thesis using DB_Check_sound [OF ex_coherent ex_argon] by (fastforce simp: ex_crypto_def)
qed

theorem DB_ChangePassword_effective_witness:
  "\<exists>d. DB_ChangePassword ex_crypto (Some ''s2'') ''kid'' ''new'' ex_db = (Inr (), d) \<and>
     fst (DB_Check ex_crypto None 1 (''Basic '' @ StdEncoding_EncodeToString (''kid'' @ '':'' @ ''pw'')) d) =
       Inl (ErrWrongPassword ''kid'')"
proof -
  have "fst (DB_ChangePassword ex_crypto (Some ''s2'') ''kid'' ''new'' ex_db) = Inr ()"
    by (rule change_pw.known [OF ex_db_facts(1,2)])
  then obtain d where d: "DB_ChangePassword ex_crypto (Some ''s2'') ''kid'' ''new'' ex_db = (Inr (), d)"
    by (metis prod.collapse)
  have "sql_faults d = []" using d ex_db_facts(6)
    by (auto simp: DB_ChangePassword_def hashPassword_def Let_def sql_update_user_def
      sql_fault_def split: if_splits)
  then have nf: "fst (sql_fault d) = False" by (simp add: sql_fault_def)
  have ne: "c_idkey ex_crypto ''pw'' ''s2'' argonTime argonMemory argonThreads argonKeyLen \<noteq>
      c_idkey ex_crypto ''new'' ''s2'' argonTime argonMemory argonThreads argonKeyLen"
    by (simp add: ex_crypto_def argonKeyLen_def)
  show ?thesis
    using DB_ChangePassword_effective [OF ex_coherent ex_argon d ex_header [of "''pw''"] _ nf, of None 1] ne d by simp
qed

theorem DB_Add_port_witness:
  "\<exists>d. DB_Add ex_crypto (Some ''salt'') 0 ''kid'' ''pw'' 3129 3130 ex_disk = (Inr 3129, d) \<and> DB_IsEnabled ''kid'' d"
proof (rule ex_Add)
  fix h
  assume "DB_Add ex_crypto (Some ''salt'') 0 ''kid'' ''pw'' 3129 3130 ex_disk =
     (Inr 3129, ex_disk\<lparr>users_tbl := [new_row ''kid'' h 3129 0], enabledCache := [''kid'' \<mapsto> True]\<rparr>)"
  then show ?thesis using DB_Add_port by blast
qed

theorem DB_Add_exhausted_witness:
  "fst (DB_Add ex_crypto (Some ''x'') 0 ''kid2'' ''pw'' 3129 3129 ex_db) = Inl ErrNoPortAvailable"
  using DB_Add_exhausted [of "''kid2''" "''pw''" ex_db ex_crypto "''x''" 0 3129 3129] ex_db_facts(2,5)
  by simp

theorem DB_IsInDowntime_decision_witness:
  "\<exists>r. r \<in> set (users_tbl ex_db) \<and>
     \<not> DB_IsInDowntime (\<lambda>_. \<lparr>Weekday = 1, Hour = 2, Minute = 3\<rparr>) 7 (row_username r) ex_db"
proof -
  obtain h where h: "ex_db = ex_disk\<lparr>users_tbl := [new_row ''kid'' h 3129 0], enabledCache := [''kid'' \<mapsto> True]\<rparr>"
    by (rule ex_db_row)
  have row: "new_row ''kid'' h 3129 0 \<in> set (users_tbl ex_db)" and e: "downtimeUntilCache ex_db = Map.empty"
    by (simp_all add: h ex_disk_def)
  let ?loc = "\<lambda>_. \<lparr>Weekday = 1, Hour = 2, Minute = 3\<rparr>"
  have "wf_clock (?loc 7)" "zero_time \<le> 7" by (simp_all add: wf_clock_def zero_time_def)
  then have "\<not> DB_IsInDowntime ?loc 7 (row_username (new_row ''kid'' h 3129 0)) ex_db"
    using DB_IsInDowntime_decision [OF ex_coherent _ _ row, of ?loc 7] e
    by (simp add: new_row_def blocked_week_minute_def schedule_get_def)
  then show ?thesis using row by blast
qed

theorem readd_inherits_downtime_witness:
  "\<exists>d1 d2 port d3. DB_SetDowntimeUntil ''kid'' 100 ex_db = (Inr (), d1) \<and> DB_Delete ''kid'' d1 = (Inr (), d2) \<and>
     DB_Add ex_crypto (Some ''salt'') 2 ''kid'' ''pw2'' 3129 3130 d2 = (Inr port, d3) \<and>
     DB_IsInDowntime (\<lambda>_. \<lparr>Weekday = 1, Hour = 2, Minute = 3\<rparr>) 5 ''kid'' d3"
proof -
  obtain h2 where h2: "hashPassword (c_idkey ex_crypto) (Some ''salt'') ''pw2'' = Some h2" using ex_hash by blast
  have p: "first_free_port (\<lambda>p. False) 3129 3130 = Some 3129" by (simp add: first_free_port_Some)
  show ?thesis
  proof (rule ex_db_row)
    fix h
    assume e: "ex_db = ex_disk\<lparr>users_tbl := [new_row ''kid'' h 3129 0], enabledCache := [''kid'' \<mapsto> True]\<rparr>"
    obtain d1 where d1: "DB_SetDowntimeUntil ''kid'' 100 ex_db = (Inr (), d1)" "sql_faults d1 = []"
      "map row_username (users_tbl d1) = [''kid'']"
      by (simp add: e DB_SetDowntimeUntil_def sql_update_user_def sql_fault_def ex_disk_def new_row_def)
    obtain d2 where d2: "DB_Delete ''kid'' d1 = (Inr (), d2)" "sql_faults d2 = []" "users_tbl d2 = []"
      using d1(2,3) by (auto simp: DB_Delete_def sql_fault_def Let_def)
    obtain d3 where d3: "DB_Add ex_crypto (Some ''salt'') 2 ''kid'' ''pw2'' 3129 3130 d2 = (Inr 3129, d3)"
      using d2(2,3) h2 p by (simp add: DB_Add_def DB_nextAvailablePort_def sql_fault_def find_user_def)
    show ?thesis using readd_inherits_downtime [OF d1(1) d2(1) d3, of 5 "\<lambda>_. \<lparr>Weekday = 1, Hour = 2, Minute = 3\<rparr>"]
      d1(1) d2(1) d3 by (auto simp: zero_time_def)
  qed
qed

end
