(* ===== verification/Proxy_Props.thy ===== *)
theory Proxy_Props
  imports Proxy_Run UserDB_Props
begin

text \<open>
  The theorems about the proxy: admissions are backed by passwords and confined to the owner of the port,
  a paused user reaches nothing but the bypass list, credentials do not travel upstream or into the log,
  and where the two request paths differ.
\<close>

subsection \<open>Admissions\<close>

definition new_handler :: "DB \<Rightarrow> Limiter \<Rightarrow> Handler" where
  "new_handler d lim = \<lparr>h_db = d, h_limiter = lim, h_auth = Map.empty, h_resolvers = Map.empty\<rparr>"

lemma px_ok_new: "coherent (pe_crypto E) T d \<Longrightarrow> px_ok E T (new_handler d lim) []"
  by (simp add: px_ok_def new_handler_def)

lemma password_chain:
  assumes "\<forall>i<length adm. admission_ok (take i adm) (adm ! i)" "i < length adm"
  shows "\<exists>j\<le>i. ad_password (adm ! j) \<and> ad_ip (adm ! j) = ad_ip (adm ! i) \<and> ad_user (adm ! j) = ad_user (adm ! i)"
  using assms(2)
proof (induction i rule: less_induct)
  case (less i)
  have a: "admission_ok (take i adm) (adm ! i)" using assms(1) less.prems by blast
  show ?case
  proof (cases "ad_password (adm ! i)")
    case False
    then obtain b where "b \<in> set (take i adm)" and b: "ad_ip b = ad_ip (adm ! i)" "ad_user b = ad_user (adm ! i)"
      using a by (auto simp: admission_ok_def)
    then obtain j where j: "j < i" "adm ! j = b" using less.prems by (auto simp: in_set_conv_nth)
    then show ?thesis using less.IH [of j] less.prems b by (auto intro: order_trans [OF _ less_imp_le])
  qed auto
qed

text \<open>
  Every admission is backed by a password.  In any interleaving of CONNECT and plain
  requests, retries, sweeps and database changes on the per-user ports, a request is admitted only as the owner of its
  port; without credentials only if the same address was admitted as that user less than five minutes
  before; and somewhere back in that chain the password was shown from that address.
\<close>

theorem admissions_backed:
  assumes "coherent (pe_crypto E) T d" "argon_ok (pe_crypto E)" "\<forall>e\<in>set es. ev_ok E T e"
    and "px_run E es (new_handler d lim) [] = (h, adm)" "i < length adm"
  shows "ad_user (adm ! i) = ad_owner (adm ! i) \<and>
    (ad_password (adm ! i) \<or> (\<exists>j<i. ad_ip (adm ! j) = ad_ip (adm ! i) \<and> ad_user (adm ! j) = ad_user (adm ! i) \<and>
        ad_time (adm ! i) < ad_time (adm ! j) + authSessionTTL)) \<and>
    (\<exists>j\<le>i. ad_password (adm ! j) \<and> ad_ip (adm ! j) = ad_ip (adm ! i) \<and> ad_user (adm ! j) = ad_user (adm ! i))"
proof -
  have all: "\<forall>i<length adm. admission_ok (take i adm) (adm ! i)"
    using px_run_ok [OF px_ok_new [OF assms(1)] assms(2,3) _ assms(4)] by simp
  then have a: "admission_ok (take i adm) (adm ! i)" using assms(5) by blast
  have "\<exists>j<i. ad_ip (adm ! j) = ad_ip (adm ! i) \<and> ad_user (adm ! j) = ad_user (adm ! i) \<and>
        ad_time (adm ! i) < ad_time (adm ! j) + authSessionTTL" if "\<not> ad_password (adm ! i)"
    using a that assms(5) by (fastforce simp: admission_ok_def in_set_conv_nth)
  then show ?thesis using a password_chain [OF all assms(5)] by (auto simp: admission_ok_def)
qed

subsection \<open>Paused users\<close>

text \<open>What an act may reach: an upstream host under condition \<open>P\<close> for dials, nothing else.\<close>

fun reaches_only :: "(string \<Rightarrow> bool) \<Rightarrow> act \<Rightarrow> bool" where
  "reaches_only P (DialHost res host) = P host"
| "reaches_only P (Relay u host) = P host"
| "reaches_only P (Upstream res r) = False"
| "reaches_only P _ = True"

lemma tunnel_reaches: "list_all (reaches_only (\<lambda>x. x = host)) (fst (connectTunnel E ck ip host u h))"
  by (simp add: connectTunnel_def Let_def split: prod.splits sum.splits)

lemma reaches_mono: "list_all (reaches_only P) xs \<Longrightarrow> (\<And>x. P x \<Longrightarrow> Q x) \<Longrightarrow> list_all (reaches_only Q) xs"
proof -
  assume a: "list_all (reaches_only P) xs" and PQ: "\<And>x. P x \<Longrightarrow> Q x"
  have "reaches_only P a \<Longrightarrow> reaches_only Q a" for a by (cases a) (auto simp: PQ)
  then show "list_all (reaches_only Q) xs" using a by (auto simp: list_all_iff)
qed

lemma blockReason_record [simp]: "blockReason E now u (recordAuthSuccess t ip v h) = blockReason E now u h"
  by (simp add: blockReason_def recordAuthSuccess_def)

lemma admitted_reaches:
  assumes "blockReason E (ck_now ck) u h \<noteq> []"
  shows "list_all (reaches_only (\<lambda>x. MITMEnabled (pe_cfg E) \<and> Passthrough x)) (fst (connect_admitted E ck ip host u h))"
  using assms reaches_mono [OF tunnel_reaches, of host "\<lambda>x. MITMEnabled (pe_cfg E) \<and> Passthrough x" E ck ip u
      "recordAuthSuccess (ck_now ck) ip u h"]
  by (auto simp: connect_admitted_def serveBlocked_def Let_def case_prod_beta split: option.splits if_splits)

text \<open>A credential check does not change what decides about a pause.\<close>

lemma Check_keeps_policy:
  "DB_IsEnabled u (snd (DB_Check cr salt now creds d)) = DB_IsEnabled u d"
  "DB_IsInDowntime loc t u (snd (DB_Check cr salt now creds d)) = DB_IsInDowntime loc t u d"
proof -
  have up: "enabledCache (snd (sql_update_user v f d)) = enabledCache d \<and> downtimeCache (snd (sql_update_user v f d)) = downtimeCache d \<and>
      overrideCache (snd (sql_update_user v f d)) = overrideCache d \<and> downtimeUntilCache (snd (sql_update_user v f d)) = downtimeUntilCache d" for v f d
    by (simp add: sql_update_user_def sql_fault_def Let_def split: list.splits prod.splits bool.splits)
  have "enabledCache (snd (DB_Check cr salt now creds d)) = enabledCache d \<and>
      downtimeCache (snd (DB_Check cr salt now creds d)) = downtimeCache d \<and>
      overrideCache (snd (DB_Check cr salt now creds d)) = overrideCache d \<and>
      downtimeUntilCache (snd (DB_Check cr salt now creds d)) = downtimeUntilCache d"
    using up by (auto simp: DB_Check_def DB_Check_db_def Let_def sql_fault_def
        split: option.splits prod.splits bool.splits list.splits)
  then show "DB_IsEnabled u (snd (DB_Check cr salt now creds d)) = DB_IsEnabled u d"
    "DB_IsInDowntime loc t u (snd (DB_Check cr salt now creds d)) = DB_IsInDowntime loc t u d"
    by (simp_all add: DB_IsEnabled_def DB_IsInDowntime_def DB_GetDowntimeUntil_def DB_GetDowntimeOverride_def DB_GetDowntime_def)
qed

lemma Check_keeps_block:
  assumes "h_db h' = snd (DB_Check cr salt t creds (h_db h))"
  shows "blockReason E now u h' = blockReason E now u h"
  by (simp add: blockReason_def assms Check_keeps_policy)

text \<open>
  The owner of the port is paused when the request is decided: in downtime or, for a CONNECT with interception, disabled.
\<close>

definition user_paused :: "proxy_env \<Rightarrow> time \<Rightarrow> string \<Rightarrow> DB \<Rightarrow> bool" where
  "user_paused E now u d \<longleftrightarrow> DB_IsInDowntime (pe_loc E) now u d \<or> (MITMEnabled (pe_cfg E) \<and> \<not> DB_IsEnabled u d)"

fun ev_paused :: "proxy_env \<Rightarrow> Handler \<Rightarrow> px_event \<Rightarrow> bool" where
  "ev_paused E h (EvConnect salt ck hj r) \<longleftrightarrow> user_paused E (ck_now ck) (hr_portOwner r) (h_db h)"
| "ev_paused E h (EvRetry salt ck r e retry) \<longleftrightarrow> user_paused E (ck_now ck) (hr_portOwner r) (h_db h)"
| "ev_paused E h (EvForward salt ck r) \<longleftrightarrow> DB_IsInDowntime (pe_loc E) (ck_now ck) (hr_portOwner r) (h_db h)"
| "ev_paused E h _ \<longleftrightarrow> False"

lemma paused_reason: "user_paused E now u (h_db h) \<Longrightarrow> blockReason E now u h \<noteq> []"
  by (auto simp: user_paused_def blockReason_def)

lemma paused_connect:
  assumes "px_ok E T h adm" "argon_ok (pe_crypto E)" "plain_name (hr_portOwner r)"
    and "blockReason E (ck_now ck) (hr_portOwner r) h \<noteq> []"
  shows "list_all (reaches_only (\<lambda>x. MITMEnabled (pe_cfg E) \<and> Passthrough x)) (fst (px_step E (EvConnect salt ck hj r) h))"
proof -
  let ?P = "\<lambda>x. MITMEnabled (pe_cfg E) \<and> Passthrough x"
  obtain acts x h1 where f: "connect_first E salt ck hj r h = (acts, x, h1)" by (metis prod_cases3)
  have acts: "list_all (reaches_only ?P) acts"
    using f by (auto simp: connect_first_def Let_def split: hijack.splits prod.splits if_splits sum.splits)
  show ?thesis
  proof (cases "\<exists>u. x = Some (Inr u)")
    case True
    then obtain u where u: "x = Some (Inr u)" by blast
    let ?h = "h\<lparr>h_limiter := snd (Limiter_Allow (clientAddr r) (ck_now ck) (h_limiter h))\<rparr>"
    have au: "authenticate E salt (ck_now ck) r ?h = (Inr u, h1)"
      using f u by (auto simp: connect_first_def Let_def case_prod_beta prod_eq_iff split: hijack.splits if_splits sum.splits)
    from authenticate_admission [OF au _ assms(2,3), of T adm] assms(1)
    have "u = hr_portOwner r" by (simp add: px_ok_limiter admission_ok_def)
    moreover have "blockReason E (ck_now ck) u h1 = blockReason E (ck_now ck) u h"
      using authenticate_keeps(3) [OF au] by (intro Check_keeps_block) simp
    ultimately have "list_all (reaches_only ?P) (fst (connect_admitted E ck (clientAddr r) (hr_Host r) u h1))"
      using assms(4) by (intro admitted_reaches) simp
    then show ?thesis using acts by (simp add: f u case_prod_beta)
  next
    case False
    then show ?thesis using acts by (auto simp: f split: option.splits sum.splits)
  qed
qed

lemma paused_retry:
  assumes "px_ok E T h adm" "plain_name (hr_portOwner r)" "blockReason E (ck_now ck) (hr_portOwner r) h \<noteq> []"
  shows "list_all (reaches_only (\<lambda>x. MITMEnabled (pe_cfg E) \<and> Passthrough x)) (fst (connect_retry E salt ck r er retry h))"
proof (cases retry)
  case (Some r2)
  obtain x h1 where c: "check_owner E salt (ck_now ck) (Header_Get (hr_Header r2) ''Proxy-Authorization'') (hr_portOwner r) h = (x, h1)"
    by (cases "check_owner E salt (ck_now ck) (Header_Get (hr_Header r2) ''Proxy-Authorization'') (hr_portOwner r) h")
  show ?thesis
  proof (cases x)
    case (Inr u)
    have "u = hr_portOwner r" using check_owner_keeps(4) [OF c Inr] assms(2) by (auto simp: plain_name_def)
    moreover have "blockReason E (ck_now ck) u h1 = blockReason E (ck_now ck) u h"
      by (rule Check_keeps_block [OF check_owner_keeps(3) [OF c]])
    ultimately show ?thesis using assms(3) by (simp add: connect_retry_def Some c Inr Let_def admitted_reaches)
  qed (simp add: connect_retry_def Some c Let_def)
qed (simp add: connect_retry_def Let_def)

lemma paused_forward:
  assumes "px_ok E T h adm" "argon_ok (pe_crypto E)" "plain_name (hr_portOwner r)"
    and "DB_IsInDowntime (pe_loc E) (ck_now ck) (hr_portOwner r) (h_db h)"
  shows "list_all (reaches_only P) (fst (handleForward E salt ck r h))"
proof -
  obtain ok lim where l: "Limiter_Allow (clientAddr r) (ck_now ck) (h_limiter h) = (ok, lim)"
    by (cases "Limiter_Allow (clientAddr r) (ck_now ck) (h_limiter h)")
  obtain x h1 where a: "authenticate E salt (ck_now ck) r (h\<lparr>h_limiter := lim\<rparr>) = (x, h1)"
    by (cases "authenticate E salt (ck_now ck) r (h\<lparr>h_limiter := lim\<rparr>)")
  show ?thesis
  proof (cases x)
    case (Inr u)
    from authenticate_admission [OF a [unfolded Inr] _ assms(2,3), of T adm] assms(1)
    have "u = hr_portOwner r" by (simp add: px_ok_limiter admission_ok_def)
    moreover have "DB_IsInDowntime (pe_loc E) (ck_now ck) u (h_db h1) = DB_IsInDowntime (pe_loc E) (ck_now ck) u (h_db h)"
      using authenticate_keeps(3) [OF a] by (simp add: Check_keeps_policy)
    ultimately have "DB_IsInDowntime (pe_loc E) (ck_now ck) u (h_db (recordAuthSuccess (ck_now ck) (clientAddr r) u h1))"
      using assms(4) by (simp add: recordAuthSuccess_def)
    then show ?thesis by (simp add: handleForward_def l a Inr Let_def)
  qed (simp add: handleForward_def l a Let_def)
qed


subsection \<open>Headers\<close>

text \<open>The keys the proxy takes out of a forwarded request, in canonical form.\<close>

definition stripped_keys :: "string set" where
  "stripped_keys = set
     [''Connection'', ''Keep-Alive'', ''Proxy-Authenticate'', ''Proxy-Authorization'', ''Proxy-Connection'', ''Te'',
      ''Trailers'', ''Transfer-Encoding'', ''Upgrade'', ''Via'', ''X-Forwarded-For'']"

lemma stripped_keys_code: "stripped_keys = set (map CanonicalHeaderKey (hopByHopHeaders @ [''X-Forwarded-For'']))"
proof -
  have "map CanonicalHeaderKey (hopByHopHeaders @ [''X-Forwarded-For'']) =
     [''Connection'', ''Keep-Alive'', ''Proxy-Authenticate'', ''Proxy-Authorization'', ''Proxy-Connection'', ''Te'',
      ''Trailers'', ''Transfer-Encoding'', ''Upgrade'', ''Via'', ''X-Forwarded-For'']" by code_simp
  then show ?thesis by (simp only: stripped_keys_def)
qed

lemma strip_headers_map:
  "snd (strip_headers ks h) k = (if k \<in> CanonicalHeaderKey ` set ks then None else h k)"
proof (induction ks arbitrary: h)
  case (Cons hdr ks)
  have st: "snd (strip_headers (hdr # ks) h) = snd (strip_headers ks (Header_Del hdr h))"
    by (simp add: case_prod_beta Let_def)
  show ?case unfolding st Cons.IH by (simp add: Header_Del_def)
qed simp

lemma outbound_header_map: "snd (outbound_header h) k = (if k \<in> stripped_keys then None else h k)"
  unfolding stripped_keys_code
  by (auto simp: outbound_header_def Let_def case_prod_beta Header_Del_def strip_headers_map)

lemma stripped_credentials: "''Proxy-Authorization'' \<in> stripped_keys" "''X-Forwarded-For'' \<in> stripped_keys"
  unfolding stripped_keys_def by code_simp+

lemma forward_upstream:
  assumes "Upstream res out \<in> set (fst (handleForward E salt ck r h))"
  shows "out = r\<lparr>hr_Header := snd (outbound_header (hr_Header r)), hr_RequestURI := []\<rparr>"
  using assms
  by (auto simp: handleForward_def logForwardHeaders_def Let_def split: prod.splits sum.splits if_splits)

text \<open>
  C20. Forwarded requests are clean.  A request sent upstream is the client's with exactly the hop-by-hop headers
  and \<open>X-Forwarded-For\<close> removed and every other header as it was: the proxy password does not
  leave the proxy, and neither does the client's address by a header the client's own software added.
\<close>

theorem upstream_headers_clean:
  assumes "Upstream res out \<in> set (fst (handleForward E salt ck r h))"
  shows "hr_Header out k = (if k \<in> stripped_keys then None else hr_Header r k) \<and>
    hr_Header out ''Proxy-Authorization'' = None \<and> hr_Header out ''X-Forwarded-For'' = None \<and>
    hr_Method out = hr_Method r \<and> hr_Host out = hr_Host r \<and> hr_URL out = hr_URL r"
  using forward_upstream [OF assms] stripped_credentials by (simp add: outbound_header_map)

text \<open>
  The header dump redacts.  Two headers that differ only in the values of sensitive keys
  (the proxy and origin credentials and cookies) produce the same text.
\<close>

theorem header_dump_redacts:
  assumes "\<forall>k\<in>set keys. CanonicalHeaderKey k \<notin> set sensitiveHeaders \<longrightarrow>
      h (CanonicalHeaderKey k) = h' (CanonicalHeaderKey k)"
  shows "formatHeaders keys h = formatHeaders keys h'"
proof -
  have "format_part h k = format_part h' k" if "k \<in> set (sort keys)" for k
    using assms that by (simp add: format_part_def Let_def Header_Values_def)
  then have "map (format_part h) (sort keys) = map (format_part h') (sort keys)" by (intro map_cong) auto
  then show ?thesis by (simp only: formatHeaders_def)
qed

theorem header_dump_redacts_witness:
  "formatHeaders [''Cookie''] [''Cookie'' \<mapsto> [''a'']] = formatHeaders [''Cookie''] [''Cookie'' \<mapsto> [''b'']]"
proof (rule header_dump_redacts)
  have "CanonicalHeaderKey ''Cookie'' = ''Cookie''" by code_simp
  then show "\<forall>k\<in>set [''Cookie'']. CanonicalHeaderKey k \<notin> set sensitiveHeaders \<longrightarrow>
      [''Cookie'' \<mapsto> [''a'']] (CanonicalHeaderKey k) = [''Cookie'' \<mapsto> [''b'']] (CanonicalHeaderKey k)"
    by (simp add: sensitiveHeaders_def)
qed

subsection \<open>A disabled user and plain HTTP\<close>

lemma forward_sends:
  assumes "\<not> DB_IsInDowntime (pe_loc E) (ck_now ck) u (h_db h)" "\<forall>host. pe_acl E host"
    and "Limiter_Allow (clientAddr r) (ck_now ck) (h_limiter h) = (True, lim)"
    and "fst (authenticate E salt (ck_now ck) r (h\<lparr>h_limiter := lim\<rparr>)) = Inr u"
  shows "\<exists>res out. Upstream res out \<in> set (fst (handleForward E salt ck r h))"
proof -
  obtain h1 where a: "authenticate E salt (ck_now ck) r (h\<lparr>h_limiter := lim\<rparr>) = (Inr u, h1)"
    using assms(4) by (metis prod.collapse)
  let ?h = "recordAuthSuccess (ck_now ck) (clientAddr r) u h1"
  have nd: "\<not> DB_IsInDowntime (pe_loc E) (ck_now ck) u (h_db ?h)"
    using assms(1) authenticate_keeps(3) [OF a] by (simp add: recordAuthSuccess_def Check_keeps_policy)
  obtain ctx h2 where c: "ctxWithUserDNS u ?h = (ctx, h2)" by (cases "ctxWithUserDNS u ?h")
  obtain st hd where o: "outbound_header (hr_Header r) = (st, hd)" by (cases "outbound_header (hr_Header r)")
  show ?thesis
    by (intro exI [of _ "resolverFromCtx E ctx"] exI [of _ "r\<lparr>hr_Header := hd, hr_RequestURI := []\<rparr>"])
       (simp add: handleForward_def assms(3) a nd c o assms(2) Let_def case_prod_beta split: sum.splits)
qed

text \<open>
  With interception the enabled flag guards CONNECT only.  The listener of a disabled user stays
  bound; a CONNECT is answered with the block page, but a plain HTTP request of the same user is forwarded.
\<close>

theorem forward_ignores_disabled:
  assumes "MITMEnabled (pe_cfg E)" "\<not> DB_IsEnabled u (h_db h)" "\<not> DB_IsInDowntime (pe_loc E) (ck_now ck) u (h_db h)"
    and "\<forall>host. pe_acl E host" "Limiter_Allow (clientAddr r) (ck_now ck) (h_limiter h) = (True, lim)"
    and "fst (authenticate E salt (ck_now ck) r (h\<lparr>h_limiter := lim\<rparr>)) = Inr u"
  shows "blockReason E (ck_now ck) u h = ''disabled'' \<and> (\<exists>res out. Upstream res out \<in> set (fst (handleForward E salt ck r h)))"
  using forward_sends [OF assms(3-6)] assms(1,2) by (simp add: blockReason_def)

subsection \<open>Instances\<close>

definition ex_px :: proxy_env where
  "ex_px = \<lparr>pe_cfg = (config_from_env ex_duration ex_env)\<lparr>MITMEnabled := True\<rparr>, pe_crypto = ex_crypto,
     pe_loc = (\<lambda>_. \<lparr>Weekday = 1, Hour = 2, Minute = 3\<rparr>), pe_default = ResDefault, pe_acl = (\<lambda>_. True), pe_mitm = None,
     pe_lookup = (\<lambda>_ _. Inr [[1, 2, 3, 4]]), pe_dialer = (\<lambda>_. Inr (10, 20)), pe_ip_string = (\<lambda>_. ''1.2.3.4''),
     pe_roundtrip = (\<lambda>_ _. Inr \<lparr>ur_StatusCode = 200, ur_Header = Map.empty, ur_copied = 5\<rparr>), pe_keys = (\<lambda>_. []),
     pe_errtext = (\<lambda>_. ''error''), pe_dialtext = (\<lambda>_. ''error''), pe_quote = (\<lambda>s. s)\<rparr>"

definition ex_creds :: string where
  "ex_creds = ''Basic '' @ StdEncoding_EncodeToString (''kid'' @ '':'' @ ''pw'')"

definition ex_req :: px_request where
  "ex_req = \<lparr>hr_Method = ''GET'', hr_RemoteAddr = ''10.0.0.1:5'', hr_Host = ''a.com'', hr_URL = ''http://a.com/'',
     hr_URLHost = ''a.com'', hr_URLPath = ''/'', hr_RequestURI = ''/'',
     hr_Header = [''Proxy-Authorization'' \<mapsto> [ex_creds]], hr_portOwner = ''kid''\<rparr>"

definition ex_clk :: clock where "ex_clk = \<lparr>ck_start = 0, ck_now = 5, ck_end = 9\<rparr>"

definition ex_lim :: Limiter where "ex_lim = Limiter_New 5 (60 * second)"

lemma ex_px_parts [simp]:
  "pe_crypto ex_px = ex_crypto" "MITMEnabled (pe_cfg ex_px)" "pe_acl ex_px host"
  by (simp_all add: ex_px_def)

lemma ex_req_parts: "Header_Get (hr_Header ex_req) ''Proxy-Authorization'' = ex_creds" "hr_portOwner ex_req = ''kid''"
proof -
  have "CanonicalHeaderKey ''Proxy-Authorization'' = ''Proxy-Authorization''" by code_simp
  then show "Header_Get (hr_Header ex_req) ''Proxy-Authorization'' = ex_creds" by (simp add: Header_Get_def ex_req_def)
  show "hr_portOwner ex_req = ''kid''" by (simp add: ex_req_def)
qed

lemma ex_creds_parts: "parseBasicAuth ex_creds = Some (''kid'', ''pw'')" "ex_creds \<noteq> []"
  unfolding ex_creds_def by (rule ex_header) simp

lemma ex_allow: "Limiter_Allow ip now ex_lim = (True, ex_lim)"
  by (simp add: ex_lim_def Limiter_Allow_def Limiter_New_def)

text \<open>The password of the example user is accepted, whatever its row and caches say otherwise.\<close>

lemma ex_check:
  assumes "sql_faults d = []" "auth_cache d = Map.empty"
    and "find_user ''kid'' d = Some r" "hashPassword (c_idkey ex_crypto) (Some ''salt'') ''pw'' = Some (row_password_hash r)"
  shows "fst (DB_Check ex_crypto salt now ex_creds d) = Inr ''kid''"
  using hash_verifies [OF ex_argon assms(4)] hash_no_rehash [OF assms(4)] assms(1-3) ex_creds_parts
  by (simp add: DB_Check_def DB_Check_db_def Let_def sql_fault_def)

lemma ex_authenticate:
  assumes "fst (DB_Check ex_crypto salt 5 ex_creds d) = Inr ''kid''"
  shows "fst (authenticate ex_px salt 5 ex_req (new_handler d lim)) = Inr ''kid''"
  using assms
  by (auto simp: authenticate_def check_owner_def ex_req_parts new_handler_def Let_def split: prod.splits sum.splits)

lemma ex_db_check: "fst (DB_Check ex_crypto salt now ex_creds ex_db) = Inr ''kid''"
proof (rule ex_db_row)
  fix h
  assume h: "hashPassword (c_idkey ex_crypto) (Some ''salt'') ''pw'' = Some h"
    and e: "ex_db = ex_disk\<lparr>users_tbl := [new_row ''kid'' h 3129 0], enabledCache := [''kid'' \<mapsto> True]\<rparr>"
  show ?thesis
    by (rule ex_check [where r = "new_row ''kid'' h 3129 0"])
       (use h in \<open>simp_all add: e ex_disk_def find_user_def new_row_def\<close>)
qed

definition ex_event :: px_event where "ex_event = EvForward None ex_clk ex_req"

lemma ex_event_ok: "ev_ok ex_px 0 ex_event"
  by (simp add: ex_event_def plain_name_def ex_req_parts)

theorem admissions_backed_witness:
  "\<exists>h adm. px_run ex_px [ex_event] (new_handler ex_db ex_lim) [] = (h, adm) \<and> length adm = 1 \<and>
     ad_user (adm ! 0) = ''kid'' \<and> ad_owner (adm ! 0) = ''kid'' \<and> ad_password (adm ! 0)"
proof -
  obtain h adm where run: "px_run ex_px [ex_event] (new_handler ex_db ex_lim) [] = (h, adm)"
    by (cases "px_run ex_px [ex_event] (new_handler ex_db ex_lim) []")
  have lim: "new_handler ex_db ex_lim\<lparr>h_limiter := ex_lim\<rparr> = new_handler ex_db ex_lim" by (simp add: new_handler_def)
  have "adm = px_admits ex_px ex_event (new_handler ex_db ex_lim)" using run by simp
  also have "\<dots> = [\<lparr>ad_ip = clientAddr ex_req, ad_owner = ''kid'', ad_user = ''kid'', ad_time = 5, ad_password = True\<rparr>]"
    using ex_authenticate [OF ex_db_check, of None ex_lim]
    by (simp add: ex_event_def ex_clk_def ex_req_parts ex_creds_parts lim Let_def new_handler_def ex_allow)
  finally have adm: "length adm = 1" "ad_user (adm ! 0) = ''kid''" "ad_owner (adm ! 0) = ''kid''" by simp_all
  moreover have "ad_password (adm ! 0)"
    using admissions_backed [where E = ex_px and T = 0 and es = "[ex_event]" and i = 0, OF _ _ _ run] ex_coherent ex_argon
      ex_event_ok adm by simp
  ultimately show ?thesis using run by blast
qed

text \<open>The example user under an ad-hoc downtime until instant 100, and disabled.\<close>

definition ex_paused :: DB where "ex_paused = snd (DB_SetDowntimeUntil ''kid'' 100 ex_db)"
definition ex_disabled :: DB where "ex_disabled = snd (DB_SetEnabled ''kid'' False ex_db)"

lemma ex_paused_down: "DB_IsInDowntime loc 5 ''kid'' ex_paused"
proof (rule ex_db_row)
  fix h
  assume e: "ex_db = ex_disk\<lparr>users_tbl := [new_row ''kid'' h 3129 0], enabledCache := [''kid'' \<mapsto> True]\<rparr>"
  show ?thesis
    by (simp add: ex_paused_def e DB_SetDowntimeUntil_def sql_update_user_def sql_fault_def ex_disk_def new_row_def
        DB_IsInDowntime_def DB_GetDowntimeUntil_def IsZero_def zero_time_def Let_def)
qed

lemma ex_disabled_row:
  obtains r where "hashPassword (c_idkey ex_crypto) (Some ''salt'') ''pw'' = Some (row_password_hash r)" "row_username r = ''kid''"
    "ex_disabled = ex_disk\<lparr>users_tbl := [r], enabledCache := [''kid'' \<mapsto> False]\<rparr>"
proof (rule ex_db_row)
  fix h
  assume h: "hashPassword (c_idkey ex_crypto) (Some ''salt'') ''pw'' = Some h"
    and e: "ex_db = ex_disk\<lparr>users_tbl := [new_row ''kid'' h 3129 0], enabledCache := [''kid'' \<mapsto> True]\<rparr>"
  show thesis
    by (rule that [of "(new_row ''kid'' h 3129 0)\<lparr>row_enabled := 0\<rparr>"])
       (use h in \<open>simp_all add: ex_disabled_def e DB_SetEnabled_def sql_update_user_def sql_fault_def ex_disk_def new_row_def\<close>)
qed

lemma ex_disabled_facts:
  "\<not> DB_IsEnabled ''kid'' ex_disabled" "\<not> DB_IsInDowntime loc 5 ''kid'' ex_disabled"
  "fst (DB_Check ex_crypto salt 5 ex_creds ex_disabled) = Inr ''kid''"
proof -
  obtain r where r: "hashPassword (c_idkey ex_crypto) (Some ''salt'') ''pw'' = Some (row_password_hash r)" "row_username r = ''kid''"
    and e: "ex_disabled = ex_disk\<lparr>users_tbl := [r], enabledCache := [''kid'' \<mapsto> False]\<rparr>" by (rule ex_disabled_row)
  show "\<not> DB_IsEnabled ''kid'' ex_disabled" "\<not> DB_IsInDowntime loc 5 ''kid'' ex_disabled"
    by (simp_all add: e ex_disk_def DB_IsEnabled_def DB_IsInDowntime_def DB_GetDowntimeUntil_def
        DB_GetDowntimeOverride_def DB_GetDowntime_def IsZero_def Let_def)
  show "fst (DB_Check ex_crypto salt 5 ex_creds ex_disabled) = Inr ''kid''"
    by (rule ex_check [OF _ _ _ r(1)]) (use r in \<open>simp_all add: e ex_disk_def find_user_def\<close>)
qed

lemma ex_handler_parts:
  "h_db (new_handler d ex_lim) = d" "h_limiter (new_handler d ex_lim) = ex_lim"
  "new_handler d ex_lim\<lparr>h_limiter := ex_lim\<rparr> = new_handler d ex_lim" "ck_now ex_clk = 5"
  by (simp_all add: new_handler_def ex_clk_def)

theorem forward_ignores_disabled_witness:
  "blockReason ex_px 5 ''kid'' (new_handler ex_disabled ex_lim) = ''disabled'' \<and>
   (\<exists>res out. Upstream res out \<in> set (fst (handleForward ex_px None ex_clk ex_req (new_handler ex_disabled ex_lim))))"
  using forward_ignores_disabled [where E = ex_px and u = "''kid''" and h = "new_handler ex_disabled ex_lim" and ck = ex_clk
      and r = ex_req and salt = None and lim = ex_lim] ex_authenticate [OF ex_disabled_facts(3), of None ex_lim]
  by (simp add: ex_handler_parts ex_allow ex_disabled_facts)

theorem upstream_headers_clean_witness:
  "\<exists>res out. Upstream res out \<in> set (fst (handleForward ex_px None ex_clk ex_req (new_handler ex_disabled ex_lim))) \<and>
     hr_Header out ''Proxy-Authorization'' = None"
proof -
  have "\<exists>res out. Upstream res out \<in> set (fst (handleForward ex_px None ex_clk ex_req (new_handler ex_disabled ex_lim)))"
    using ex_authenticate [OF ex_disabled_facts(3), of None ex_lim]
    by (intro forward_sends [where u = "''kid''" and lim = ex_lim]) (simp_all add: ex_handler_parts ex_allow ex_disabled_facts)
  then obtain res out where u: "Upstream res out \<in> set (fst (handleForward ex_px None ex_clk ex_req (new_handler ex_disabled ex_lim)))"
    by blast
  show ?thesis by (rule exI [of _ res], rule exI [of _ out]) (use u upstream_headers_clean [OF u] in blast)
qed


end
