(* ===== verification/UserPorts.thy ===== *)
theory UserPorts
  imports UserDB_Run Config
begin

text \<open>
  Per-user dedicated listeners (src/pkg/proxy/userports.go): which ports are bound for which
  user, the start-up pass, the reconciler, and the \<open>PortManager\<close> operations the admin API calls.

  A server object is a record with an identity (the pointer the code compares), the port it
  binds and the port owner its handler closure captured.  A \<open>range\<close> over the port map visits it in
  the order \<open>order\<close>, an argument; theorems quantify over it.  The part of an operation that runs
  under one hold of \<open>portMu\<close> is one definition, so the reconciler is two of them.
\<close>

record Server =
  srv_id :: nat
  srv_port :: int
  srv_owner :: string

record Ports =
  portUsers :: "int \<rightharpoonup> string"
  userServers :: "int \<rightharpoonup> Server"
  next_srv :: nat

definition no_ports :: Ports where
  "no_ports = \<lparr>portUsers = Map.empty, userServers = Map.empty, next_srv = 0\<rparr>"

subsection \<open>The operations\<close>

definition listenerWanted :: "Config \<Rightarrow> (time \<Rightarrow> wall_clock) \<Rightarrow> time \<Rightarrow> DB \<Rightarrow> string \<Rightarrow> bool" where
  "listenerWanted cfg loc now d u =
     (if MITMEnabled cfg then True
      else if \<not> DB_IsEnabled u d then False
      else \<not> DB_IsInDowntime loc now u d)"

text \<open>
  The map part of \<open>startListenerLocked\<close>; the goroutine it starts reports a failed bind later
  (\<open>listen_failed\<close>).  In demo mode no goroutine is started.
\<close>

definition startListenerLocked :: "int \<Rightarrow> string \<Rightarrow> Ports \<Rightarrow> Ports" where
  "startListenerLocked port u h =
     h\<lparr>userServers := (userServers h)(port \<mapsto> \<lparr>srv_id = next_srv h, srv_port = port, srv_owner = u\<rparr>),
       next_srv := next_srv h + 1\<rparr>"

definition listen_failed :: "int \<Rightarrow> nat \<Rightarrow> Ports \<Rightarrow> Ports" where
  "listen_failed port srv h =
     (case userServers h port of
        Some s \<Rightarrow>
          if srv_id s = srv
          then h\<lparr>userServers := (userServers h)(port := None), portUsers := (portUsers h)(port := None)\<rparr>
          else h
      | None \<Rightarrow> h)"

fun start_listeners :: "Config \<Rightarrow> (string \<Rightarrow> bool) \<Rightarrow> (int \<times> string) list \<Rightarrow> Ports \<Rightarrow> Ports" where
  "start_listeners cfg wanted [] h = h"
| "start_listeners cfg wanted ((port, u) # rest) h =
     (if port < UserPortMin cfg \<or> port > UserPortMax cfg then start_listeners cfg wanted rest h
      else if \<not> wanted u then start_listeners cfg wanted rest h
      else start_listeners cfg wanted rest
             (startListenerLocked port u (h\<lparr>portUsers := (portUsers h)(port \<mapsto> u)\<rparr>)))"

text \<open>The entries of a Go map in one visiting order.\<close>

definition visit :: "(int \<rightharpoonup> 'a) \<Rightarrow> int list \<Rightarrow> (int \<times> 'a) list" where
  "visit m order = map (\<lambda>k. (k, the (m k))) (filter (\<lambda>k. m k \<noteq> None) order)"

definition StartUserListeners ::
  "Config \<Rightarrow> (time \<Rightarrow> wall_clock) \<Rightarrow> time \<Rightarrow> int list \<Rightarrow> Ports \<Rightarrow> DB \<Rightarrow> (db_error + unit) \<times> Ports \<times> DB" where
  "StartUserListeners cfg loc now order h d =
     (case DB_ListPorts d of
        (Inl e, d) \<Rightarrow> (Inl e, h, d)
      | (Inr ports, d) \<Rightarrow>
          (Inr (), start_listeners cfg (listenerWanted cfg loc now d) (visit ports order) h, d))"

definition shouldRun :: "Config \<Rightarrow> (string \<Rightarrow> bool) \<Rightarrow> (int \<rightharpoonup> string) \<Rightarrow> (int \<rightharpoonup> string)" where
  "shouldRun cfg wanted ports = (\<lambda>port.
     case ports port of
       None \<Rightarrow> None
     | Some u \<Rightarrow>
         if port < UserPortMin cfg \<or> port > UserPortMax cfg then None
         else if \<not> wanted u then None
         else Some u)"

definition reconcile_stop :: "(int \<rightharpoonup> string) \<Rightarrow> Ports \<Rightarrow> Ports" where
  "reconcile_stop run h =
     h\<lparr>userServers := (\<lambda>p. if userServers h p \<noteq> None \<and> run p = None then None else userServers h p),
       portUsers := (\<lambda>p. if userServers h p \<noteq> None \<and> run p = None then None else portUsers h p)\<rparr>"

fun reconcile_start :: "(int \<times> string) list \<Rightarrow> Ports \<Rightarrow> Ports" where
  "reconcile_start [] h = h"
| "reconcile_start ((port, u) # rest) h =
     (if userServers h port = None
      then reconcile_start rest
             (startListenerLocked port u (h\<lparr>portUsers := (portUsers h)(port \<mapsto> u)\<rparr>))
      else reconcile_start rest h)"

definition reconcileListeners ::
  "Config \<Rightarrow> (time \<Rightarrow> wall_clock) \<Rightarrow> time \<Rightarrow> int list \<Rightarrow> Ports \<Rightarrow> DB \<Rightarrow> Ports \<times> DB" where
  "reconcileListeners cfg loc now order h d =
     (case DB_ListPorts d of
        (Inl e, d) \<Rightarrow> (h, d)
      | (Inr ports, d) \<Rightarrow>
          let run = shouldRun cfg (listenerWanted cfg loc now d) ports
          in (reconcile_start (visit run order) (reconcile_stop run h), d))"

definition StopUserListener :: "int \<Rightarrow> Ports \<Rightarrow> Ports" where
  "StopUserListener port h =
     (if userServers h port \<noteq> None
      then h\<lparr>userServers := (userServers h)(port := None), portUsers := (portUsers h)(port := None)\<rparr>
      else h)"

definition StartListener :: "string \<Rightarrow> int \<Rightarrow> Ports \<Rightarrow> Ports" where
  "StartListener u port h =
     (let h = h\<lparr>portUsers := (portUsers h)(port \<mapsto> u)\<rparr>
      in if userServers h port \<noteq> None then h else startListenerLocked port u h)"

definition StopListener :: "Config \<Rightarrow> int \<Rightarrow> Ports \<Rightarrow> Ports" where
  "StopListener cfg port h = (if MITMEnabled cfg then h else StopUserListener port h)"

text \<open>
  The search for the user's current port takes the first match in map order; 0 stands for none,
  as in the code.
\<close>

definition old_port :: "string \<Rightarrow> int list \<Rightarrow> Ports \<Rightarrow> int" where
  "old_port u order h = (case find (\<lambda>p. portUsers h p = Some u) order of None \<Rightarrow> 0 | Some p \<Rightarrow> p)"

definition UpdateUserPort ::
  "int list \<Rightarrow> string \<Rightarrow> int \<Rightarrow> Ports \<Rightarrow> DB \<Rightarrow> (db_error + unit) \<times> Ports \<times> DB" where
  "UpdateUserPort order u port h d =
     (let old = old_port u order h;
          h = (if old \<noteq> 0 then StopUserListener old h else h)
      in case DB_UpdatePort u port d of
           (Inl e, d) \<Rightarrow> (Inl e, h, d)
         | (Inr _, d) \<Rightarrow>
             if port = 0 then (Inr (), h, d)
             else (Inr (), startListenerLocked port u (h\<lparr>portUsers := (portUsers h)(port \<mapsto> u)\<rparr>), d))"

definition ShutdownUserListeners :: "Ports \<Rightarrow> Ports" where
  "ShutdownUserListeners h = h\<lparr>userServers := Map.empty, portUsers := Map.empty\<rparr>"

definition UserPortRange :: "Config \<Rightarrow> int \<times> int" where
  "UserPortRange cfg = (UserPortMin cfg, UserPortMax cfg)"

subsection \<open>Owner agreement\<close>

text \<open>
  Every bound port serves the user the port map names, and the two maps have the same ports.
\<close>

definition owners_agree :: "Ports \<Rightarrow> bool" where
  "owners_agree h \<longleftrightarrow>
     (\<forall>p. portUsers h p = map_option srv_owner (userServers h p)) \<and>
     (\<forall>p s. userServers h p = Some s \<longrightarrow> srv_port s = p)"

text \<open>The user served on a port.\<close>

definition served :: "Ports \<Rightarrow> int \<Rightarrow> string option" where
  "served h p = map_option srv_owner (userServers h p)"

lemma owners_agreeD: "owners_agree h \<Longrightarrow> portUsers h = served h"
  by (auto simp: owners_agree_def served_def)

lemma start_agree:
  assumes "owners_agree h"
  shows "owners_agree (startListenerLocked p u (h\<lparr>portUsers := (portUsers h)(p \<mapsto> u)\<rparr>))"
    and "served (startListenerLocked p u (h\<lparr>portUsers := (portUsers h)(p \<mapsto> u)\<rparr>)) = (served h)(p \<mapsto> u)"
  using assms by (auto simp: owners_agree_def startListenerLocked_def served_def)

lemma stop_agree:
  assumes "owners_agree h"
  shows "owners_agree (StopUserListener p h)" "served (StopUserListener p h) = (served h)(p := None)"
  using assms by (auto simp: owners_agree_def StopUserListener_def served_def)

lemma listen_failed_agree:
  assumes "owners_agree h"
  shows "owners_agree (listen_failed p i h)" "served (listen_failed p i h) \<in> {served h, (served h)(p := None)}"
  using assms by (auto simp: owners_agree_def listen_failed_def served_def split: option.splits)

lemma StartListener_agree:
  assumes "owners_agree h" "served h p \<in> {None, Some u}"
  shows "owners_agree (StartListener u p h)" "served (StartListener u p h) = (served h)(p \<mapsto> u)"
proof -
  have "h\<lparr>portUsers := (portUsers h)(p \<mapsto> u)\<rparr> = h" if "userServers h p \<noteq> None"
  proof -
    have "portUsers h p = Some u" using assms that by (auto simp: owners_agree_def served_def)
    then show ?thesis by (simp add: fun_upd_idem)
  qed
  then show "owners_agree (StartListener u p h)" "served (StartListener u p h) = (served h)(p \<mapsto> u)"
    using assms start_agree [OF assms(1), of p u]
    by (auto simp: StartListener_def Let_def served_def fun_upd_idem_iff)
qed

lemma reconcile_stop_agree:
  assumes "owners_agree h"
  shows "owners_agree (reconcile_stop run h)"
    "served (reconcile_stop run h) p = (if run p = None then None else served h p)"
  using assms by (auto simp: owners_agree_def reconcile_stop_def served_def)

lemma reconcile_start_agree:
  assumes "owners_agree h" "distinct (map fst ps)"
  shows "owners_agree (reconcile_start ps h) \<and>
    (\<forall>p. served (reconcile_start ps h) p = (if served h p = None then map_of ps p else served h p))"
  using assms
proof (induction ps arbitrary: h)
  case (Cons pu ps)
  obtain q u where pu: "pu = (q, u)" by (cases pu)
  show ?case
  proof (cases "userServers h q")
    case None
    let ?h = "startListenerLocked q u (h\<lparr>portUsers := (portUsers h)(q \<mapsto> u)\<rparr>)"
    have "owners_agree (reconcile_start ps ?h) \<and>
        (\<forall>p. served (reconcile_start ps ?h) p = (if served ?h p = None then map_of ps p else served ?h p))"
      using Cons start_agree(1) [OF Cons.prems(1), of q u] by simp
    moreover have "served h q = None" using None by (simp add: served_def)
    ultimately show ?thesis using None by (auto simp: pu start_agree(2) [OF Cons.prems(1)])
  next
    case (Some s)
    then have "served h q \<noteq> None" by (simp add: served_def)
    then show ?thesis using Some Cons by (auto simp: pu)
  qed
qed simp

lemma map_of_visit: "set order \<supseteq> dom m \<Longrightarrow> distinct order \<Longrightarrow> map_of (visit m order) = m"
proof
  fix k
  assume o: "set order \<supseteq> dom m" "distinct order"
  have "map_of (map (\<lambda>k. (k, the (m k))) xs) k = (if k \<in> set xs then Some (the (m k)) else None)" for xs
    by (induction xs) auto
  then show "map_of (visit m order) k = m k" using o by (cases "m k") (auto simp: visit_def dest: domI)
qed

lemma visit_distinct: "distinct order \<Longrightarrow> distinct (map fst (visit m order))"
  by (simp add: visit_def comp_def)

end
