(* ===== verification/DeviceTokens.thy ===== *)
theory DeviceTokens
  imports UserDB_Inv
begin

text \<open>
  Paired devices (src/pkg/userdb/devicetokens.go): long-lived bearer tokens of which only the
  SHA-256 is stored.  \<open>id\<close> is the primary key and \<open>token_sha256\<close> is unique, so an INSERT that would
  duplicate either fails.  The random bytes are an argument, \<open>None\<close> when \<open>rand.Read\<close> fails.
\<close>

definition DB_CreateDeviceToken ::
  "crypto \<Rightarrow> string option \<Rightarrow> time \<Rightarrow> string \<Rightarrow> DB \<Rightarrow> (db_error + string \<times> string) \<times> DB" where
  "DB_CreateDeviceToken cr rand now name d =
     (case rand of
        None \<Rightarrow> (Inl ErrHashing, d)
      | Some raw \<Rightarrow>
          let token = RawURLEncoding_EncodeToString raw;
              sum = c_sha256 cr token;
              dev = RawURLEncoding_EncodeToString (take 8 sum)
          in case sql_fault d of
               (True, d) \<Rightarrow> (Inl (ErrSql ''inserting device token''), d)
             | (False, d) \<Rightarrow>
                 if (\<exists>r\<in>set (device_tbl d). dev_id r = dev \<or> dev_token_sha256 r = sum)
                 then (Inl (ErrSql ''inserting device token''), d)
                 else (Inr (token, dev),
                       d\<lparr>device_tbl := device_tbl d @
                          [\<lparr>dev_id = dev, dev_token_sha256 = sum, dev_name = name,
                            dev_created_at = now div second * second, dev_last_seen_at = None\<rparr>]\<rparr>))"

text \<open>The error of the \<open>last_seen_at\<close> UPDATE is ignored.\<close>

definition DB_ValidateDeviceToken :: "crypto \<Rightarrow> time \<Rightarrow> string \<Rightarrow> DB \<Rightarrow> string option \<times> DB" where
  "DB_ValidateDeviceToken cr now token d =
     (if token = [] then (None, d)
      else let sum = c_sha256 cr token
           in case sql_fault d of
                (True, d) \<Rightarrow> (None, d)
              | (False, d) \<Rightarrow>
                  (case find (\<lambda>r. dev_token_sha256 r = sum) (device_tbl d) of
                     None \<Rightarrow> (None, d)
                   | Some r \<Rightarrow>
                       (case sql_fault d of
                          (True, d) \<Rightarrow> (Some (dev_name r), d)
                        | (False, d) \<Rightarrow>
                            (Some (dev_name r),
                             d\<lparr>device_tbl := map (\<lambda>r. if dev_token_sha256 r = sum
                                 then r\<lparr>dev_last_seen_at := Some (now div second * second)\<rparr> else r)
                                 (device_tbl d)\<rparr>))))"

definition DB_ListDeviceTokens :: "DB \<Rightarrow> (db_error + device_row list) \<times> DB" where
  "DB_ListDeviceTokens d =
     (case sql_fault d of
        (True, d) \<Rightarrow> (Inl (ErrSql ''listing device tokens''), d)
      | (False, d) \<Rightarrow> (Inr (sort_key dev_created_at (device_tbl d)), d))"

definition DB_RevokeDeviceToken :: "string \<Rightarrow> DB \<Rightarrow> (db_error + unit) \<times> DB" where
  "DB_RevokeDeviceToken dev d =
     (case sql_fault d of
        (True, d) \<Rightarrow> (Inl (ErrSql ''revoking device token''), d)
      | (False, d) \<Rightarrow>
          let n = length (filter (\<lambda>r. dev_id r = dev) (device_tbl d));
              d = d\<lparr>device_tbl := filter (\<lambda>r. dev_id r \<noteq> dev) (device_tbl d)\<rparr>
          in if n = 0 then (Inl ErrUnknownDevice, d) else (Inr (), d))"

subsection \<open>The device table\<close>

definition wf_devices :: "crypto \<Rightarrow> DB \<Rightarrow> bool" where
  "wf_devices cr d \<longleftrightarrow>
     distinct (map dev_token_sha256 (device_tbl d)) \<and> distinct (map dev_id (device_tbl d)) \<and>
     (\<forall>r\<in>set (device_tbl d). dev_id r = RawURLEncoding_EncodeToString (take 8 (dev_token_sha256 r)))"

text \<open>Whose token a table accepts: the name stored with the token's digest.\<close>

definition device_of :: "crypto \<Rightarrow> string \<Rightarrow> DB \<Rightarrow> string option" where
  "device_of cr token d =
     map_option dev_name (find (\<lambda>r. dev_token_sha256 r = c_sha256 cr token) (device_tbl d))"

lemma find_append_opt: "find P (xs @ ys) = (case find P xs of Some x \<Rightarrow> Some x | None \<Rightarrow> find P ys)"
  by (induction xs) auto

lemma find_map_seen:
  "map_option dev_name (find (\<lambda>r. dev_token_sha256 r = y)
      (map (\<lambda>r. if dev_token_sha256 r = x then r\<lparr>dev_last_seen_at := t\<rparr> else r) rs)) =
   map_option dev_name (find (\<lambda>r. dev_token_sha256 r = y) rs)"
  by (induction rs) auto

lemma Create_cases:
  obtains (err) e fs where "DB_CreateDeviceToken cr rand now name d = (Inl e, d\<lparr>sql_faults := fs\<rparr>)"
  | (made) raw fs r where "rand = Some raw"
      "r = \<lparr>dev_id = RawURLEncoding_EncodeToString (take 8 (c_sha256 cr (RawURLEncoding_EncodeToString raw))),
            dev_token_sha256 = c_sha256 cr (RawURLEncoding_EncodeToString raw), dev_name = name,
            dev_created_at = now div second * second, dev_last_seen_at = None\<rparr>"
      "dev_id r \<notin> dev_id ` set (device_tbl d)" "dev_token_sha256 r \<notin> dev_token_sha256 ` set (device_tbl d)"
      "DB_CreateDeviceToken cr rand now name d =
         (Inr (RawURLEncoding_EncodeToString raw, dev_id r),
          d\<lparr>sql_faults := fs, device_tbl := device_tbl d @ [r]\<rparr>)"
proof -
  obtain fs fl where f: "sql_fault d = (fl, d\<lparr>sql_faults := fs\<rparr>)" by (rule sql_fault_cases)
  show ?thesis
  proof (cases rand)
    case None
    then show ?thesis using err [of ErrHashing "sql_faults d"] by (simp add: DB_CreateDeviceToken_def)
  next
    case (Some raw)
    let ?s = "c_sha256 cr (RawURLEncoding_EncodeToString raw)"
    let ?i = "RawURLEncoding_EncodeToString (take 8 ?s)"
    let ?r = "\<lparr>dev_id = ?i, dev_token_sha256 = ?s, dev_name = name,
       dev_created_at = now div second * second, dev_last_seen_at = None\<rparr>"
    show ?thesis
    proof (cases "fl \<or> (\<exists>r\<in>set (device_tbl d). dev_id r = ?i \<or> dev_token_sha256 r = ?s)")
      case True
      then show ?thesis using f Some
        by (intro err [of "ErrSql ''inserting device token''" fs]) (auto simp: DB_CreateDeviceToken_def Let_def split: bool.splits)
    next
      case False
      then show ?thesis using f Some
        by (intro made [of raw ?r fs]) (auto simp: DB_CreateDeviceToken_def Let_def)
    qed
  qed
qed

lemma Validate_device:
  assumes "token \<noteq> []" "fst (sql_fault d) = False"
  shows "fst (DB_ValidateDeviceToken cr now token d) = device_of cr token d"
proof -
  obtain fs where f: "sql_fault d = (False, d\<lparr>sql_faults := fs\<rparr>)"
    using assms(2) by (rule_tac sql_fault_cases [of d]) auto
  show ?thesis using assms(1) f
    by (auto simp: DB_ValidateDeviceToken_def Let_def device_of_def split: option.splits prod.splits bool.splits)
qed

lemma Validate_keeps:
  "map dev_id (device_tbl (snd (DB_ValidateDeviceToken cr now token d))) = map dev_id (device_tbl d) \<and>
   map dev_token_sha256 (device_tbl (snd (DB_ValidateDeviceToken cr now token d))) = map dev_token_sha256 (device_tbl d) \<and>
   device_of cr t (snd (DB_ValidateDeviceToken cr now token d)) = device_of cr t d"
proof -
  obtain fs fl where f: "sql_fault d = (fl, d\<lparr>sql_faults := fs\<rparr>)" by (rule sql_fault_cases)
  obtain fs2 fl2 where f2: "sql_fault (d\<lparr>sql_faults := fs\<rparr>) = (fl2, d\<lparr>sql_faults := fs\<rparr>\<lparr>sql_faults := fs2\<rparr>)"
    by (rule sql_fault_cases)
  show ?thesis using find_map_seen
    by (cases fl; cases fl2)
       (auto simp: DB_ValidateDeviceToken_def Let_def f f2 device_of_def split: option.splits)
qed

lemma Revoke_device:
  assumes wf: "wf_devices cr d" and ok: "fst (DB_RevokeDeviceToken dev d) = Inr ()"
  shows "device_of cr t (snd (DB_RevokeDeviceToken dev d)) =
    (if RawURLEncoding_EncodeToString (take 8 (c_sha256 cr t)) = dev then None else device_of cr t d)"
proof -
  have tbl: "device_tbl (snd (DB_RevokeDeviceToken dev d)) = filter (\<lambda>r. dev_id r \<noteq> dev) (device_tbl d)"
    using ok by (rule_tac sql_fault_cases [of d])
      (auto simp: DB_RevokeDeviceToken_def Let_def split: bool.splits if_splits)
  have "find (\<lambda>r. dev_token_sha256 r = c_sha256 cr t) (filter (\<lambda>r. dev_id r \<noteq> dev) rs) =
     (if RawURLEncoding_EncodeToString (take 8 (c_sha256 cr t)) = dev then None
      else find (\<lambda>r. dev_token_sha256 r = c_sha256 cr t) rs)"
    if "\<forall>r\<in>set rs. dev_id r = RawURLEncoding_EncodeToString (take 8 (dev_token_sha256 r))" for rs
    using that by (induction rs) auto
  from this [of "device_tbl d"] show ?thesis using wf by (auto simp: device_of_def tbl wf_devices_def)
qed

lemma wf_Create: "wf_devices cr d \<Longrightarrow> wf_devices cr (snd (DB_CreateDeviceToken cr rand now name d))"
  by (rule Create_cases [of cr rand now name d]) (auto simp: wf_devices_def)

text \<open>
  C31. The life of a paired device.  A freshly minted token is accepted under its device name and no
  other device is affected; revoking its id ends exactly this token, and every other device is accepted as
  before.
\<close>

theorem device_token_lifecycle:
  assumes wf: "wf_devices cr d" and raw: "raw \<noteq> []" and nofault: "sql_faults d = []"
    and mint: "DB_CreateDeviceToken cr (Some raw) now name d = (Inr (token, dev), d1)"
    and revoke: "DB_RevokeDeviceToken dev d1 = (Inr (), d2)"
  shows "fst (DB_ValidateDeviceToken cr now' token d1) = Some name \<and>
     fst (DB_ValidateDeviceToken cr now' token d2) = None \<and>
     (\<forall>t. t \<noteq> [] \<and> c_sha256 cr t \<noteq> c_sha256 cr token \<longrightarrow>
        fst (DB_ValidateDeviceToken cr now' t d1) = fst (DB_ValidateDeviceToken cr now' t d) \<and>
        fst (DB_ValidateDeviceToken cr now' t d2) = fst (DB_ValidateDeviceToken cr now' t d))"
proof (rule Create_cases [of cr "Some raw" now name d])
  fix raw' fs r
  assume raw': "Some raw = Some raw'"
    and r: "r = \<lparr>dev_id = RawURLEncoding_EncodeToString (take 8 (c_sha256 cr (RawURLEncoding_EncodeToString raw'))),
            dev_token_sha256 = c_sha256 cr (RawURLEncoding_EncodeToString raw'), dev_name = name,
            dev_created_at = now div second * second, dev_last_seen_at = None\<rparr>"
    and fresh: "dev_id r \<notin> dev_id ` set (device_tbl d)" "dev_token_sha256 r \<notin> dev_token_sha256 ` set (device_tbl d)"
    and made: "DB_CreateDeviceToken cr (Some raw) now name d =
         (Inr (RawURLEncoding_EncodeToString raw', dev_id r),
          d\<lparr>sql_faults := fs, device_tbl := device_tbl d @ [r]\<rparr>)"
  have tok: "token = RawURLEncoding_EncodeToString raw" "dev = dev_id r"
    and d1: "d1 = d\<lparr>sql_faults := fs, device_tbl := device_tbl d @ [r]\<rparr>"
    using made mint raw' by auto
  have nf1: "sql_faults d1 = []"
    using mint nofault by (auto simp: DB_CreateDeviceToken_def Let_def sql_fault_def split: if_splits)
  have nf2: "sql_faults d2 = []"
    using revoke nf1 by (auto simp: DB_RevokeDeviceToken_def Let_def sql_fault_def split: if_splits)
  have nf: "fst (sql_fault d) = False" "fst (sql_fault d1) = False" "fst (sql_fault d2) = False"
    using nofault nf1 nf2 by (simp_all add: sql_fault_def)
  have ne: "token \<noteq> []" using RawURL_nonempty [OF raw] tok by simp
  have dev1: "device_of cr t d1 = (if c_sha256 cr t = c_sha256 cr token then Some name else device_of cr t d)" for t
  proof -
    have "find (\<lambda>x. dev_token_sha256 x = c_sha256 cr token) (device_tbl d) = None"
      using fresh(2) raw' by (simp add: r tok find_None_iff) (metis imageI)
    then show ?thesis using raw' by (auto simp: device_of_def d1 find_append_opt r tok split: option.splits)
  qed
  have wf1: "wf_devices cr d1" using wf_Create [OF wf, of "Some raw" now name] mint by simp
  have dev2: "device_of cr t d2 = (if RawURLEncoding_EncodeToString (take 8 (c_sha256 cr t)) = dev then None
      else device_of cr t d1)" for t
    using Revoke_device [OF wf1, of dev t] revoke by simp
  have own: "RawURLEncoding_EncodeToString (take 8 (c_sha256 cr token)) = dev" using raw' by (simp add: tok r)
  have none: "device_of cr t d = None" if "RawURLEncoding_EncodeToString (take 8 (c_sha256 cr t)) = dev" for t
    using that fresh(1) wf by (auto simp: device_of_def tok wf_devices_def find_None_iff image_iff)
  show ?thesis using Validate_device nf ne dev1 dev2 own none by simp
qed (use mint in auto)

theorem device_token_lifecycle_witness:
  "\<exists>cr d token dev d1 d2. wf_devices cr d \<and> DB_CreateDeviceToken cr (Some ''0123'') 0 ''phone'' d = (Inr (token, dev), d1) \<and>
     DB_RevokeDeviceToken dev d1 = (Inr (), d2) \<and> fst (DB_ValidateDeviceToken cr 9 token d2) = None"
proof -
  define cr where "cr = \<lparr>c_idkey = (\<lambda>p s t m th k. p), c_sha256 = (\<lambda>p. p)\<rparr>"
  define d where "d = \<lparr>users_tbl = [], users_cols = [], device_tbl = [], sql_faults = [],
     auth_cache = Map.empty, dnsCache = Map.empty, downtimeCache = Map.empty,
     overrideCache = Map.empty, downtimeUntilCache = Map.empty, enabledCache = Map.empty\<rparr>"
  have wf: "wf_devices cr d" and nf: "sql_faults d = []" by (simp_all add: wf_devices_def d_def)
  obtain token dev d1 where m: "DB_CreateDeviceToken cr (Some ''0123'') 0 ''phone'' d = (Inr (token, dev), d1)"
    "map dev_id (device_tbl d1) = [dev]" "sql_faults d1 = []"
    by (simp add: DB_CreateDeviceToken_def Let_def sql_fault_def d_def)
  obtain d2 where r: "DB_RevokeDeviceToken dev d1 = (Inr (), d2)"
    using m(2,3) by (auto simp: DB_RevokeDeviceToken_def Let_def sql_fault_def)
  have "fst (DB_ValidateDeviceToken cr 9 token d2) = None"
    using device_token_lifecycle [OF wf _ nf m(1) r, of 9] by simp
  then show ?thesis using wf m(1) r by blast
qed

end
