(* ===== verification/AdminApi.thy ===== *)
theory AdminApi
  imports UserPorts Sessions DeviceTokens Dns Utf8
begin

text \<open>
  The admin API (src/pkg/admin/api.go, devices.go, cookie.go, server.go; src/pkg/auth/admin.go):
  every handler that reads or changes state, the authentication wrappers and the routing table.

  A request carries, for each request struct of the code, the outcome of decoding its body into
  that struct (\<open>None\<close>: \<open>Decode\<close> reports an error).  Handlers take the state and return the
  response and the new state.  Clock readings (\<open>now\<close>), random bytes (\<open>rnd\<close>), the hash functions and
  the bcrypt comparison are arguments; \<open>order\<close> is the visiting order of the port map.
\<close>

subsection \<open>Requests, responses, state\<close>

record loginRequest =
  lr_Username :: string
  lr_Password :: string

record portRequest =
  pr_Username :: string
  pr_Port :: int

record enabledRequest =
  er_Username :: string
  er_Enabled :: bool

record dnsRequest =
  dr_Username :: string
  dr_DNSServer :: string
  dr_DNSProtocol :: string

record downtimeRequest =
  tr_Username :: string
  tr_DowntimeSchedule :: DowntimeSchedule

record overrideRequest =
  or_Username :: string
  or_DurationMinutes :: int

record pairRequest =
  pq_Code :: string
  pq_DeviceName :: string

record request =
  rq_Method :: string
  rq_Path :: string
  rq_Host :: string
  rq_TLS :: bool
  rq_RemoteAddr :: string
  rq_XForwardedFor :: string
  rq_XForwardedProto :: string
  rq_Authorization :: string
  rq_Cookie :: "string option"
  rq_query :: "string \<Rightarrow> string"
  rq_login :: "loginRequest option"
  rq_port :: "portRequest option"
  rq_enabled :: "enabledRequest option"
  rq_dns :: "dnsRequest option"
  rq_downtime :: "downtimeRequest option"
  rq_override :: "overrideRequest option"
  rq_pair :: "pairRequest option"

record Cookie =
  ck_Name :: string
  ck_Value :: string
  ck_Path :: string
  ck_HttpOnly :: bool
  ck_Secure :: bool
  ck_SameSiteStrict :: bool
  ck_MaxAge :: int

datatype payload =
    NoBody
  | ErrorText string
  | ScheduleErrorText schedule_error  \<comment> \<open>the text of the error\<close>
  | UsersJSON "UserInfo list"
  | EnrollJSON string string int bool
  | TokenJSON string
  | DevicesJSON "device_row list"
  | QRCode string
  | DNSTestJSON bool "string list" string
  | StatsJSON
  | VersionJSON
  | StaticFile string
  | Redirect string

record response =
  rs_Status :: nat
  rs_Cookie :: "Cookie option"
  rs_RetryAfter :: string
  rs_Body :: payload

definition reply :: "nat \<Rightarrow> response" where
  "reply status = \<lparr>rs_Status = status, rs_Cookie = None, rs_RetryAfter = [], rs_Body = NoBody\<rparr>"

definition http_Error :: "string \<Rightarrow> nat \<Rightarrow> response" where
  "http_Error msg status = (reply status)\<lparr>rs_Body := ErrorText msg\<rparr>"

definition reply_json :: "payload \<Rightarrow> response" where
  "reply_json b = (reply 200)\<lparr>rs_Body := b\<rparr>"

record AdminAuth =
  aa_user :: string
  aa_bcryptHash :: string

text \<open>What does not change while the server runs.\<close>

record api_env =
  ae_cfg :: Config
  ae_crypto :: crypto
  ae_bcrypt :: "string \<Rightarrow> string \<Rightarrow> bool"
  ae_loc :: "time \<Rightarrow> wall_clock"
  ae_auth :: AdminAuth
  ae_trustedProxies :: "IPNet list"
  ae_loginRetryAfter :: string
  ae_secureCookies :: bool
  ae_demoMode :: bool
  ae_quote :: "string \<Rightarrow> string"  \<comment> \<open>\<open>%q\<close>\<close>

record api =
  a_users :: DB
  a_ports :: Ports
  a_sessions :: SessionStore
  a_loginLimiter :: Limiter
  a_globalFails :: globalCounter
  a_enroll :: enrollStore

subsection \<open>Administrator credentials and cookies\<close>

datatype auth_error = AdminUnknownUser string | AdminWrongPassword

text \<open>The password is always compared; the user name decides which error is reported.\<close>

definition AdminAuth_Check ::
  "(string \<Rightarrow> string \<Rightarrow> bool) \<Rightarrow> AdminAuth \<Rightarrow> string \<Rightarrow> string \<Rightarrow> auth_error + unit" where
  "AdminAuth_Check bcrypt aa user password =
     (let userMatch = (user = aa_user aa);
          passOk = bcrypt (aa_bcryptHash aa) password
      in if \<not> userMatch then Inl (AdminUnknownUser user)
         else if \<not> passOk then Inl AdminWrongPassword
         else Inr ())"

definition sessionCookieFor :: "string \<Rightarrow> bool \<Rightarrow> Cookie" where
  "sessionCookieFor token secure =
     \<lparr>ck_Name = sessionCookie, ck_Value = token, ck_Path = ''/'', ck_HttpOnly = True,
      ck_Secure = secure, ck_SameSiteStrict = True, ck_MaxAge = 86400\<rparr>"

definition clearedSessionCookie :: "bool \<Rightarrow> Cookie" where
  "clearedSessionCookie secure =
     \<lparr>ck_Name = sessionCookie, ck_Value = [], ck_Path = ''/'', ck_HttpOnly = True,
      ck_Secure = secure, ck_SameSiteStrict = True, ck_MaxAge = -1\<rparr>"

subsection \<open>Login\<close>

definition handleLogin :: "api_env \<Rightarrow> time \<Rightarrow> string \<Rightarrow> request \<Rightarrow> api \<Rightarrow> response \<times> api" where
  "handleLogin E now rnd r a =
     (if rq_Method r \<noteq> ''POST'' then (reply 405, a)
      else
        let ip = clientIP (rq_RemoteAddr r) (rq_XForwardedFor r) (ae_trustedProxies E);
            (ok1, lim) = Limiter_Allow ip now (a_loginLimiter a);
            a = a\<lparr>a_loginLimiter := lim\<rparr>;
            (ok2, glob) = (if ok1 then globalCounter_allow now (a_globalFails a) else (False, a_globalFails a));
            a = a\<lparr>a_globalFails := glob\<rparr>
        in if \<not> ok1 \<or> \<not> ok2 then ((reply 429)\<lparr>rs_RetryAfter := ae_loginRetryAfter E\<rparr>, a)
           else (case rq_login r of
                   None \<Rightarrow> (reply 400, a)
                 | Some req \<Rightarrow>
                     (case AdminAuth_Check (ae_bcrypt E) (ae_auth E) (lr_Username req) (lr_Password req) of
                        Inl e \<Rightarrow>
                          (reply 401,
                           a\<lparr>a_loginLimiter := Limiter_RecordFailure ip now (a_loginLimiter a),
                             a_globalFails := globalCounter_record now (a_globalFails a)\<rparr>)
                      | Inr _ \<Rightarrow>
                          let (token, ss) = SessionStore_Create rnd now (a_sessions a)
                          in ((reply 200)\<lparr>rs_Cookie := Some (sessionCookieFor token (ae_secureCookies E))\<rparr>,
                              a\<lparr>a_sessions := ss\<rparr>))))"

definition handleLogout :: "api_env \<Rightarrow> request \<Rightarrow> api \<Rightarrow> response \<times> api" where
  "handleLogout E r a =
     (if rq_Method r \<noteq> ''POST'' then (reply 405, a)
      else ((reply 200)\<lparr>rs_Cookie := Some (clearedSessionCookie (ae_secureCookies E))\<rparr>,
            (case rq_Cookie r of
               Some c \<Rightarrow> a\<lparr>a_sessions := SessionStore_Delete c (a_sessions a)\<rparr>
             | None \<Rightarrow> a)))"

subsection \<open>Authentication wrappers\<close>

definition session_ok :: "time \<Rightarrow> request \<Rightarrow> api \<Rightarrow> bool \<times> api" where
  "session_ok now r a =
     (case rq_Cookie r of
        None \<Rightarrow> (False, a)
      | Some c \<Rightarrow> let (ok, ss) = SessionStore_Validate c now (a_sessions a) in (ok, a\<lparr>a_sessions := ss\<rparr>))"

definition api_authed :: "api_env \<Rightarrow> time \<Rightarrow> request \<Rightarrow> api \<Rightarrow> bool \<times> api" where
  "api_authed E now r a =
     (let (dev, a) =
        (if HasPrefix (rq_Authorization r) ''Bearer ''
         then let (name, d) = DB_ValidateDeviceToken (ae_crypto E) now
                                (TrimPrefix (rq_Authorization r) ''Bearer '') (a_users a)
              in (name \<noteq> None, a\<lparr>a_users := d\<rparr>)
         else (False, a))
      in if dev then (True, a) else session_ok now r a)"

definition requireSession ::
  "api_env \<Rightarrow> time \<Rightarrow> (request \<Rightarrow> api \<Rightarrow> response \<times> api) \<Rightarrow> request \<Rightarrow> api \<Rightarrow> response \<times> api" where
  "requireSession E now h r a =
     (if ae_demoMode E then h r a
      else let (ok, a) = api_authed E now r a in if \<not> ok then (reply 401, a) else h r a)"

definition requireAdminSession ::
  "time \<Rightarrow> (request \<Rightarrow> api \<Rightarrow> response \<times> api) \<Rightarrow> request \<Rightarrow> api \<Rightarrow> response \<times> api" where
  "requireAdminSession now h r a =
     (let (ok, a) = session_ok now r a in if \<not> ok then (reply 401, a) else h r a)"

definition requireSessionPage ::
  "time \<Rightarrow> (request \<Rightarrow> api \<Rightarrow> response \<times> api) \<Rightarrow> request \<Rightarrow> api \<Rightarrow> response \<times> api" where
  "requireSessionPage now h r a =
     (let (ok, a) = session_ok now r a
      in if \<not> ok then ((reply 303)\<lparr>rs_Body := Redirect ''/login''\<rparr>, a) else h r a)"

subsection \<open>Users\<close>

text \<open>The mapping of a database error to a response that the update handlers share.\<close>

definition db_error_reply :: "db_error \<Rightarrow> response" where
  "db_error_reply e =
     (case e of ErrUnknownUser _ \<Rightarrow> http_Error ''user not found'' 404
      | _ \<Rightarrow> http_Error ''internal error'' 500)"

text \<open>\<open>users, _ := a.users.List()\<close>: an error leaves the slice nil.\<close>

definition list_or_nil :: "time \<Rightarrow> DB \<Rightarrow> UserInfo list \<times> DB" where
  "list_or_nil now d = (case DB_List now d of (Inl _, d) \<Rightarrow> ([], d) | (Inr us, d) \<Rightarrow> (us, d))"

text \<open>The first listed user with the name and a port, as the loops with \<open>break\<close> pick it.\<close>

definition listed_port :: "string \<Rightarrow> UserInfo list \<Rightarrow> UserInfo option" where
  "listed_port u us = find (\<lambda>x. ui_Username x = u \<and> ui_Port x > 0) us"

definition handleListUsers :: "time \<Rightarrow> api \<Rightarrow> response \<times> api" where
  "handleListUsers now a =
     (case DB_List now (a_users a) of
        (Inl _, d) \<Rightarrow> (http_Error ''internal error'' 500, a\<lparr>a_users := d\<rparr>)
      | (Inr us, d) \<Rightarrow> (reply_json (UsersJSON us), a\<lparr>a_users := d\<rparr>))"

definition handleCreateUser ::
  "api_env \<Rightarrow> time \<Rightarrow> string option \<Rightarrow> int list \<Rightarrow> request \<Rightarrow> api \<Rightarrow> response \<times> api" where
  "handleCreateUser E now salt order r a =
     (case rq_login r of
        None \<Rightarrow> (http_Error ''bad request'' 400, a)
      | Some req \<Rightarrow>
          if lr_Username req = [] \<or> lr_Password req = []
          then (http_Error ''username and password required'' 400, a)
          else let (mn, mx) = UserPortRange (ae_cfg E)
               in case DB_Add (ae_crypto E) salt now (lr_Username req) (lr_Password req) mn mx (a_users a) of
                    (Inl e, d) \<Rightarrow>
                      ((case e of
                          ErrUserExists _ \<Rightarrow> http_Error ''user already exists'' 409
                        | ErrNoPortAvailable \<Rightarrow> http_Error ''no ports available'' 409
                        | _ \<Rightarrow> http_Error ''internal error'' 500), a\<lparr>a_users := d\<rparr>)
                  | (Inr port, d) \<Rightarrow>
                      (case UpdateUserPort order (lr_Username req) port (a_ports a) d of
                         (_, h, d) \<Rightarrow> (reply 201, a\<lparr>a_users := d, a_ports := h\<rparr>)))"

definition handleDeleteUser :: "time \<Rightarrow> int list \<Rightarrow> request \<Rightarrow> api \<Rightarrow> response \<times> api" where
  "handleDeleteUser now order r a =
     (let username = rq_query r ''username''
      in if username = [] then (http_Error ''username required'' 400, a)
         else let (us, d) = list_or_nil now (a_users a);
                  (h, d) = (case listed_port username us of
                              None \<Rightarrow> (a_ports a, d)
                            | Some _ \<Rightarrow>
                                (case UpdateUserPort order username 0 (a_ports a) d of (_, h, d) \<Rightarrow> (h, d)))
              in case DB_Delete username d of
                   (Inl e, d) \<Rightarrow> (db_error_reply e, a\<lparr>a_users := d, a_ports := h\<rparr>)
                 | (Inr _, d) \<Rightarrow> (reply 200, a\<lparr>a_users := d, a_ports := h\<rparr>))"

definition handleUsers ::
  "api_env \<Rightarrow> time \<Rightarrow> string option \<Rightarrow> int list \<Rightarrow> request \<Rightarrow> api \<Rightarrow> response \<times> api" where
  "handleUsers E now salt order r a =
     (if rq_Method r = ''GET'' then handleListUsers now a
      else if rq_Method r = ''POST'' then handleCreateUser E now salt order r a
      else if rq_Method r = ''DELETE'' then handleDeleteUser now order r a
      else (reply 405, a))"

definition handleChangePassword :: "api_env \<Rightarrow> string option \<Rightarrow> request \<Rightarrow> api \<Rightarrow> response \<times> api" where
  "handleChangePassword E salt r a =
     (if rq_Method r \<noteq> ''PUT'' then (reply 405, a)
      else (case rq_login r of
              None \<Rightarrow> (http_Error ''bad request'' 400, a)
            | Some req \<Rightarrow>
                if lr_Username req = [] \<or> lr_Password req = []
                then (http_Error ''username and password required'' 400, a)
                else (case DB_ChangePassword (ae_crypto E) salt (lr_Username req) (lr_Password req) (a_users a) of
                        (Inl e, d) \<Rightarrow> (db_error_reply e, a\<lparr>a_users := d\<rparr>)
                      | (Inr _, d) \<Rightarrow> (reply 200, a\<lparr>a_users := d\<rparr>))))"

definition handleUpdatePort :: "api_env \<Rightarrow> int list \<Rightarrow> request \<Rightarrow> api \<Rightarrow> response \<times> api" where
  "handleUpdatePort E order r a =
     (if rq_Method r \<noteq> ''PUT'' then (reply 405, a)
      else (case rq_port r of
              None \<Rightarrow> (http_Error ''bad request'' 400, a)
            | Some req \<Rightarrow>
                if pr_Username req = [] then (http_Error ''username required'' 400, a)
                else
                  let (mn, mx) = UserPortRange (ae_cfg E);
                      (stop, d) =
                        (if pr_Port req = 0 then (None, a_users a)
                         else if pr_Port req < mn \<or> pr_Port req > mx
                         then (Some (http_Error (''port must be between '' @ Itoa mn @ '' and '' @ Itoa mx) 400), a_users a)
                         else (case DB_PortOwner (pr_Port req) (a_users a) of
                                 (Inl _, d) \<Rightarrow> (Some (http_Error ''internal error'' 500), d)
                               | (Inr owner, d) \<Rightarrow>
                                   (if owner \<noteq> [] \<and> owner \<noteq> pr_Username req
                                    then Some (http_Error (''port '' @ Itoa (pr_Port req) @ '' is already assigned to '' @ ae_quote E owner) 409) else None, d)));
                      a = a\<lparr>a_users := d\<rparr>
                  in case stop of
                       Some e \<Rightarrow> (e, a)
                     | None \<Rightarrow>
                         (case UpdateUserPort order (pr_Username req) (pr_Port req) (a_ports a) (a_users a) of
                            (Inl e, h, d) \<Rightarrow> (db_error_reply e, a\<lparr>a_users := d, a_ports := h\<rparr>)
                          | (Inr _, h, d) \<Rightarrow> (reply 200, a\<lparr>a_users := d, a_ports := h\<rparr>))))"

definition handleSetEnabled :: "api_env \<Rightarrow> time \<Rightarrow> request \<Rightarrow> api \<Rightarrow> response \<times> api" where
  "handleSetEnabled E now r a =
     (if rq_Method r \<noteq> ''PUT'' then (reply 405, a)
      else (case rq_enabled r of
              None \<Rightarrow> (http_Error ''bad request'' 400, a)
            | Some req \<Rightarrow>
                if er_Username req = [] then (http_Error ''username required'' 400, a)
                else (case DB_SetEnabled (er_Username req) (er_Enabled req) (a_users a) of
                        (Inl e, d) \<Rightarrow> (db_error_reply e, a\<lparr>a_users := d\<rparr>)
                      | (Inr _, d) \<Rightarrow>
                          let (us, d) = list_or_nil now d;
                              h = (case listed_port (er_Username req) us of
                                     None \<Rightarrow> a_ports a
                                   | Some u \<Rightarrow>
                                       if er_Enabled req
                                       then StartListener (er_Username req) (ui_Port u) (a_ports a)
                                       else StopListener (ae_cfg E) (ui_Port u) (a_ports a))
                          in (reply 200, a\<lparr>a_users := d, a_ports := h\<rparr>))))"

subsection \<open>DNS\<close>

definition handleUpdateDNS :: "request \<Rightarrow> api \<Rightarrow> response \<times> api" where
  "handleUpdateDNS r a =
     (if rq_Method r \<noteq> ''PUT'' then (reply 405, a)
      else (case rq_dns r of
              None \<Rightarrow> (http_Error ''bad request'' 400, a)
            | Some req \<Rightarrow>
                if dr_Username req = [] then (http_Error ''username required'' 400, a)
                else if dr_DNSServer req \<noteq> [] \<and> dr_DNSProtocol req \<notin> {''plain'', ''tls'', ''https''}
                then (http_Error (''dns_protocol must be '' @ [SQ] @ ''plain'' @ [SQ] @ '', '' @ [SQ] @ ''tls'' @ [SQ] @ '', or '' @ [SQ] @ ''https'' @ [SQ]) 400, a)
                else let server = (if dr_DNSServer req \<noteq> []
                                   then normalizeDNSServer (dr_DNSServer req) (dr_DNSProtocol req)
                                   else dr_DNSServer req)
                     in case DB_UpdateDNS (dr_Username req) server (dr_DNSProtocol req) (a_users a) of
                          (Inl e, d) \<Rightarrow> (db_error_reply e, a\<lparr>a_users := d\<rparr>)
                        | (Inr _, d) \<Rightarrow> (reply 200, a\<lparr>a_users := d\<rparr>)))"

text \<open>\<open>look\<close> is the lookup of a name by a resolver, \<open>ip_string\<close> prints an address.\<close>

definition handleTestDNS ::
  "(string \<Rightarrow> string) \<Rightarrow> (Resolver \<Rightarrow> string \<Rightarrow> string + IP list) \<Rightarrow> (IP \<Rightarrow> string) \<Rightarrow> request \<Rightarrow> api \<Rightarrow> response \<times> api" where
  "handleTestDNS quote look ip_string r a =
     (if rq_Method r \<noteq> ''POST'' then (reply 405, a)
      else (case rq_dns r of
              None \<Rightarrow> (http_Error ''bad request'' 400, a)
            | Some req \<Rightarrow>
                if dr_DNSProtocol req \<notin> {''plain'', ''tls'', ''https''}
                then (reply_json (DNSTestJSON False [] ''invalid protocol''), a)
                else (case Resolver_New (dr_DNSProtocol req)
                             (normalizeDNSServer (dr_DNSServer req) (dr_DNSProtocol req)) of
                        Inl e \<Rightarrow> (reply_json (DNSTestJSON False [] (dns_error_text quote e)), a)
                      | Inr res \<Rightarrow>
                          (case look res ''google.com'' of
                             Inl e \<Rightarrow> (reply_json (DNSTestJSON False [] e), a)
                           | Inr addrs \<Rightarrow> (reply_json (DNSTestJSON True (map ip_string addrs) []), a)))))"

subsection \<open>Downtime\<close>

definition handleUpdateDowntime :: "request \<Rightarrow> api \<Rightarrow> response \<times> api" where
  "handleUpdateDowntime r a =
     (if rq_Method r \<noteq> ''PUT'' then (reply 405, a)
      else (case rq_downtime r of
              None \<Rightarrow> (http_Error ''bad request'' 400, a)
            | Some req \<Rightarrow>
                if tr_Username req = [] then (http_Error ''username required'' 400, a)
                else (case (if length (tr_DowntimeSchedule req) > 0 then ValidateSchedule (tr_DowntimeSchedule req) else Inr ()) of
                        Inl err \<Rightarrow> ((reply 400)\<lparr>rs_Body := ScheduleErrorText err\<rparr>, a)
                      | Inr _ \<Rightarrow>
                          (case DB_UpdateDowntime (tr_Username req) (tr_DowntimeSchedule req) (a_users a) of
                             (Inl e, d) \<Rightarrow> (db_error_reply e, a\<lparr>a_users := d\<rparr>)
                           | (Inr _, d) \<Rightarrow> (reply 200, a\<lparr>a_users := d\<rparr>)))))"

text \<open>\<open>time.Duration(minutes) * time.Minute\<close> wraps at 64 bits.\<close>

definition minutes_duration :: "int \<Rightarrow> duration" where
  "minutes_duration m = wrap64 (m * minute)"

definition handleDowntimeOverride :: "time \<Rightarrow> request \<Rightarrow> api \<Rightarrow> response \<times> api" where
  "handleDowntimeOverride now r a =
     (if rq_Method r \<noteq> ''PUT'' then (reply 405, a)
      else (case rq_override r of
              None \<Rightarrow> (http_Error ''bad request'' 400, a)
            | Some req \<Rightarrow>
                if or_Username req = [] then (http_Error ''username required'' 400, a)
                else if or_DurationMinutes req \<le> 0 then
                  (case DB_ClearDowntimeOverride (or_Username req) (a_users a) of
                     (Inl e, d) \<Rightarrow> (db_error_reply e, a\<lparr>a_users := d\<rparr>)
                   | (Inr _, d) \<Rightarrow> (reply 200, a\<lparr>a_users := d\<rparr>))
                else
                  (case DB_SetDowntimeOverride (or_Username req)
                          (now + minutes_duration (or_DurationMinutes req)) (a_users a) of
                     (Inl e, d) \<Rightarrow> (db_error_reply e, a\<lparr>a_users := d\<rparr>)
                   | (Inr _, d) \<Rightarrow>
                       let (us, d) = list_or_nil now d;
                           h = (case listed_port (or_Username req) us of
                                  None \<Rightarrow> a_ports a
                                | Some u \<Rightarrow> StartListener (or_Username req) (ui_Port u) (a_ports a))
                       in (reply 200, a\<lparr>a_users := d, a_ports := h\<rparr>))))"

definition handleDowntimeNow :: "api_env \<Rightarrow> time \<Rightarrow> request \<Rightarrow> api \<Rightarrow> response \<times> api" where
  "handleDowntimeNow E now r a =
     (if rq_Method r \<noteq> ''PUT'' then (reply 405, a)
      else (case rq_override r of
              None \<Rightarrow> (http_Error ''bad request'' 400, a)
            | Some req \<Rightarrow>
                if or_Username req = [] then (http_Error ''username required'' 400, a)
                else if or_DurationMinutes req \<le> 0 then
                  (case DB_ClearDowntimeUntil (or_Username req) (a_users a) of
                     (Inl e, d) \<Rightarrow> (db_error_reply e, a\<lparr>a_users := d\<rparr>)
                   | (Inr _, d) \<Rightarrow>
                       let (us, d) = list_or_nil now d;
                           h = (case find (\<lambda>x. ui_Username x = or_Username req \<and> ui_Port x > 0 \<and> ui_Enabled x) us of
                                  None \<Rightarrow> a_ports a
                                | Some u \<Rightarrow> StartListener (or_Username req) (ui_Port u) (a_ports a))
                       in (reply 200, a\<lparr>a_users := d, a_ports := h\<rparr>))
                else
                  (case DB_SetDowntimeUntil (or_Username req)
                          (now + minutes_duration (or_DurationMinutes req)) (a_users a) of
                     (Inl e, d) \<Rightarrow> (db_error_reply e, a\<lparr>a_users := d\<rparr>)
                   | (Inr _, d) \<Rightarrow>
                       let (us, d) = list_or_nil now d;
                           h = (case listed_port (or_Username req) us of
                                  None \<Rightarrow> a_ports a
                                | Some u \<Rightarrow> StopListener (ae_cfg E) (ui_Port u) (a_ports a))
                       in (reply 200, a\<lparr>a_users := d, a_ports := h\<rparr>))))"

subsection \<open>Paired devices\<close>

definition url_unreserved :: "char \<Rightarrow> bool" where
  "url_unreserved c \<longleftrightarrow> is_digit c \<or> (65 \<le> byte_of c \<and> byte_of c \<le> 90) \<or> (97 \<le> byte_of c \<and> byte_of c \<le> 122) \<or>
     c \<in> {CHR ''-'', CHR ''_'', CHR ''.'', CHR ''~''}"

definition QueryEscape :: "string \<Rightarrow> string" where
  "QueryEscape s = concat (map (\<lambda>c. if url_unreserved c then [c] else if c = CHR '' '' then ''+''
     else [CHR ''%'', ''0123456789ABCDEF'' ! (byte_of c div 16), ''0123456789ABCDEF'' ! (byte_of c mod 16)]) s)"

definition pairURL :: "string \<Rightarrow> string \<Rightarrow> string \<Rightarrow> string" where
  "pairURL scheme host code =
     ''evanproxy://pair?scheme='' @ QueryEscape scheme @ ''&host='' @ QueryEscape host @
     ''&code='' @ QueryEscape code"

definition requestScheme :: "request \<Rightarrow> string" where
  "requestScheme r = (if rq_TLS r \<or> rq_XForwardedProto r = ''https'' then ''https'' else ''http'')"

text \<open>\<open>qr\<close> is the third-party QR encoder: the module matrix of a text, or an error.\<close>

fun qr_row :: "nat \<Rightarrow> nat \<Rightarrow> bool list \<Rightarrow> string" where
  "qr_row x y [] = []"
| "qr_row x y (on # row) =
     (if on then ''M'' @ nat_str x @ '' '' @ nat_str y @ ''h1v1h-1z'' else []) @ qr_row (Suc x) y row"

fun qr_rows :: "nat \<Rightarrow> bool list list \<Rightarrow> string" where
  "qr_rows y [] = []"
| "qr_rows y (row # rows) = qr_row 0 y row @ qr_rows (Suc y) rows"

definition qrSVG :: "(string \<Rightarrow> bool list list option) \<Rightarrow> string \<Rightarrow> string option" where
  "qrSVG qr content =
     (case qr content of
        None \<Rightarrow> None
      | Some bm \<Rightarrow>
          let n = nat_str (length bm); Q = [DQ]
          in Some (''<svg xmlns='' @ Q @ ''http://www.w3.org/2000/svg'' @ Q @ '' viewBox='' @ Q @ ''0 0 '' @ n @ '' '' @ n @ Q @
               '' shape-rendering='' @ Q @ ''crispEdges'' @ Q @ ''>'' @
               ''<rect width='' @ Q @ ''100%'' @ Q @ '' height='' @ Q @ ''100%'' @ Q @ '' fill='' @ Q @ ''#ffffff'' @ Q @ ''/>'' @
               ''<path fill='' @ Q @ ''#000000'' @ Q @ '' d='' @ Q @ qr_rows 0 bm @ Q @ ''/></svg>''))"

definition handleEnroll ::
  "(string \<Rightarrow> bool list list option) \<Rightarrow> time \<Rightarrow> string \<Rightarrow> request \<Rightarrow> api \<Rightarrow> response \<times> api" where
  "handleEnroll qr now rnd r a =
     (if rq_Method r = ''POST'' then
        let (code, es) = enrollStore_create rnd now (a_enroll a);
            expiresIn = (if es_persistent es then 0 else es_ttl es div second)
        in (reply_json (EnrollJSON code (pairURL (requestScheme r) (rq_Host r) code) expiresIn (es_persistent es)),
            a\<lparr>a_enroll := es\<rparr>)
      else if rq_Method r = ''GET'' then
        let code = rq_query r ''code''
        in if code = [] \<or> \<not> enrollStore_peek code now (a_enroll a)
           then (http_Error ''unknown or expired code'' 404, a)
           else (case qrSVG qr (pairURL (requestScheme r) (rq_Host r) code) of
                   None \<Rightarrow> (http_Error ''internal error'' 500, a)
                 | Some svg \<Rightarrow> (reply_json (QRCode svg), a))
      else (reply 405, a))"

definition handlePair :: "api_env \<Rightarrow> time \<Rightarrow> string option \<Rightarrow> request \<Rightarrow> api \<Rightarrow> response \<times> api" where
  "handlePair E now rnd r a =
     (if rq_Method r \<noteq> ''POST'' then (reply 405, a)
      else (case rq_pair r of
              None \<Rightarrow> (reply 400, a)
            | Some req \<Rightarrow>
                if pq_Code req = [] then (reply 401, a)
                else let (ok, es) = enrollStore_consume (pq_Code req) now (a_enroll a);
                         a = a\<lparr>a_enroll := es\<rparr>
                     in if \<not> ok then (reply 401, a)
                        else let name = (if pq_DeviceName req = [] then ''device'' else pq_DeviceName req);
                                 name = truncate_runes 64 name
                             in case DB_CreateDeviceToken (ae_crypto E) rnd now name (a_users a) of
                                  (Inl e, d) \<Rightarrow> (http_Error ''internal error'' 500, a\<lparr>a_users := d\<rparr>)
                                | (Inr (token, dev), d) \<Rightarrow> (reply_json (TokenJSON token), a\<lparr>a_users := d\<rparr>)))"

definition handleDevices :: "request \<Rightarrow> api \<Rightarrow> response \<times> api" where
  "handleDevices r a =
     (if rq_Method r = ''GET'' then
        (case DB_ListDeviceTokens (a_users a) of
           (Inl e, d) \<Rightarrow> (http_Error ''internal error'' 500, a\<lparr>a_users := d\<rparr>)
         | (Inr devs, d) \<Rightarrow> (reply_json (DevicesJSON devs), a\<lparr>a_users := d\<rparr>))
      else if rq_Method r = ''DELETE'' then
        (if rq_query r ''id'' = [] then (http_Error ''id required'' 400, a)
         else (case DB_RevokeDeviceToken (rq_query r ''id'') (a_users a) of
                 (Inl ErrUnknownDevice, d) \<Rightarrow> (http_Error ''device not found'' 404, a\<lparr>a_users := d\<rparr>)
               | (Inl e, d) \<Rightarrow> (http_Error ''internal error'' 500, a\<lparr>a_users := d\<rparr>)
               | (Inr _, d) \<Rightarrow> (reply 200, a\<lparr>a_users := d\<rparr>)))
      else (reply 405, a))"

subsection \<open>Routing\<close>

text \<open>
  The inputs of one request that the handlers draw from outside: the clock, random bytes, the
  password salt, the port map order, the name lookup, the address printer and the QR encoder.
\<close>

record ambient =
  am_now :: time
  am_rnd :: string
  am_salt :: "string option"
  am_order :: "int list"
  am_look :: "Resolver \<Rightarrow> string \<Rightarrow> string + IP list"
  am_ip_string :: "IP \<Rightarrow> string"
  am_qr :: "string \<Rightarrow> bool list list option"

definition stats_page :: "request \<Rightarrow> api \<Rightarrow> response \<times> api" where
  "stats_page r a = (reply_json StatsJSON, a)"

definition serveFile :: "string \<Rightarrow> request \<Rightarrow> api \<Rightarrow> response \<times> api" where
  "serveFile name r a = ((reply 200)\<lparr>rs_Body := StaticFile name\<rparr>, a)"

text \<open>
  The mux of \<open>NewServer\<close>: exact patterns first, then the subtree patterns \<open>/static/\<close> and \<open>/\<close>.
  The three statistics pages and the log stream have no effect on the state modelled here.
\<close>

definition admin_route :: "api_env \<Rightarrow> ambient \<Rightarrow> request \<Rightarrow> api \<Rightarrow> response \<times> api" where
  "admin_route E m r a =
     (let p = rq_Path r; now = am_now m; authed = requireSession E now
      in if p = ''/api/login'' then handleLogin E now (am_rnd m) r a
         else if p = ''/api/logout'' then handleLogout E r a
         else if p \<in> {''/api/stats/top-sites'', ''/api/stats/top-blocked'', ''/api/stats/traffic'', ''/api/logs''}
         then authed stats_page r a
         else if p = ''/api/users'' then authed (handleUsers E now (am_salt m) (am_order m)) r a
         else if p = ''/api/users/password'' then authed (handleChangePassword E (am_salt m)) r a
         else if p = ''/api/users/port'' then authed (handleUpdatePort E (am_order m)) r a
         else if p = ''/api/users/dns'' then authed handleUpdateDNS r a
         else if p = ''/api/users/dns/test'' then authed (handleTestDNS (ae_quote E) (am_look m) (am_ip_string m)) r a
         else if p = ''/api/users/enabled'' then authed (handleSetEnabled E now) r a
         else if p = ''/api/users/downtime'' then authed handleUpdateDowntime r a
         else if p = ''/api/users/downtime-override'' then authed (handleDowntimeOverride now) r a
         else if p = ''/api/users/downtime-now'' then authed (handleDowntimeNow E now) r a
         else if p = ''/api/devices/enroll'' then requireAdminSession now (handleEnroll (am_qr m) now (am_rnd m)) r a
         else if p = ''/api/devices'' then requireAdminSession now handleDevices r a
         else if p = ''/api/pair'' then handlePair E now (Some (am_rnd m)) r a
         else if p = ''/api/version'' then (reply_json VersionJSON, a)
         else if p = ''/login'' then serveFile ''static/login.html'' r a
         else if HasPrefix p ''/static/'' then serveFile (drop 1 p) r a
         else requireSessionPage now (serveFile ''static/index.html'') r a)"

text \<open>The headers \<open>securityHeaders\<close> sets on every response.\<close>

definition securityHeaders :: "bool \<Rightarrow> (string \<times> string) list" where
  "securityHeaders hsts =
     [(''X-Content-Type-Options'', ''nosniff''), (''X-Frame-Options'', ''DENY''), (''Referrer-Policy'', ''no-referrer'')] @
     (if hsts then [(''Strict-Transport-Security'', ''max-age=31536000; includeSubDomains'')] else [])"

subsection \<open>A concrete server\<close>

text \<open>The instances at which the theorems about the admin server are used.\<close>

definition ex_api_env :: api_env where
  "ex_api_env = \<lparr>ae_cfg = config_from_env ex_duration ex_env, ae_crypto = ex_crypto,
     ae_bcrypt = (\<lambda>h p. h = p), ae_loc = (\<lambda>_. \<lparr>Weekday = 1, Hour = 12, Minute = 0\<rparr>),
     ae_auth = \<lparr>aa_user = ''root'', aa_bcryptHash = ''secret''\<rparr>, ae_trustedProxies = [],
     ae_loginRetryAfter = ''900'', ae_secureCookies = True, ae_demoMode = False, ae_quote = id\<rparr>"

definition ex_api :: api where
  "ex_api = \<lparr>a_users = ex_disk, a_ports = no_ports, a_sessions = NewSessionStore (24 * hour),
     a_loginLimiter = Limiter_New 2 (60 * second), a_globalFails = newGlobalCounter 100 (60 * second),
     a_enroll = newEnrollStore (5 * minute) False\<rparr>"

definition ex_request :: "string \<Rightarrow> string \<Rightarrow> request" where
  "ex_request meth path = \<lparr>rq_Method = meth, rq_Path = path, rq_Host = ''h'', rq_TLS = False,
     rq_RemoteAddr = ''10.0.0.1:5'', rq_XForwardedFor = [], rq_XForwardedProto = [], rq_Authorization = [],
     rq_Cookie = None, rq_query = (\<lambda>_. []), rq_login = None, rq_port = None, rq_enabled = None, rq_dns = None,
     rq_downtime = None, rq_override = None, rq_pair = None\<rparr>"

definition ex_ambient :: ambient where
  "ex_ambient = \<lparr>am_now = 0, am_rnd = ''0123456789abcdef'', am_salt = Some ''salt'', am_order = [],
     am_look = (\<lambda>_ _. Inl ''none''), am_ip_string = (\<lambda>_. []), am_qr = (\<lambda>_. None)\<rparr>"

end
