(* ===== verification/Listeners.thy ===== *)
theory Listeners
  imports AdminApi
begin

text \<open>
  Listeners and port assignments together: in every state reachable by admin requests,
  reconciler passes and failed binds, a bound port serves exactly the user the database assigns
  it to, and no two users share a port.
\<close>

subsection \<open>Port assignment of a database\<close>

definition port_of :: "DB \<Rightarrow> string \<rightharpoonup> int" where
  "port_of d u = map_option row_port (find_user u d)"

definition ports_unique :: "(string \<rightharpoonup> int) \<Rightarrow> bool" where
  "ports_unique P \<longleftrightarrow> (\<forall>u v p. P u = Some p \<longrightarrow> P v = Some p \<longrightarrow> 0 < p \<longrightarrow> u = v)"

definition listeners_match :: "Ports \<Rightarrow> (string \<rightharpoonup> int) \<Rightarrow> bool" where
  "listeners_match h P \<longleftrightarrow>
     owners_agree h \<and> ports_unique P \<and> (\<forall>p u. served h p = Some u \<longrightarrow> 0 < p \<and> P u = Some p)"

definition covers :: "int list \<Rightarrow> Ports \<Rightarrow> bool" where
  "covers order h \<longleftrightarrow> distinct order \<and> dom (portUsers h) \<subseteq> set order"

lemma port_of_faults [simp]: "port_of (d\<lparr>sql_faults := fs\<rparr>) = port_of d"
  by (simp add: port_of_def fun_eq_iff)

lemma match_owner:
  assumes "listeners_match h P" "P u = Some p" "0 < p"
  shows "served h p \<in> {None, Some u}"
proof (cases "served h p")
  case (Some v)
  then have "P v = Some p" using assms(1) by (simp add: listeners_match_def)
  then have "v = u" using assms unfolding listeners_match_def ports_unique_def by blast
  then show ?thesis using Some by simp
qed simp

lemma match_StartListener:
  assumes "listeners_match h P" "P u = Some p" "0 < p"
  shows "listeners_match (StartListener u p h) P"
  using StartListener_agree [of h p u] match_owner [OF assms] assms
  by (auto simp: listeners_match_def)

lemma match_StopUserListener: "listeners_match h P \<Longrightarrow> listeners_match (StopUserListener p h) P"
  using stop_agree [of h p] by (auto simp: listeners_match_def)

lemma match_StopListener: "listeners_match h P \<Longrightarrow> listeners_match (StopListener cfg p h) P"
  using match_StopUserListener by (simp add: StopListener_def)

lemma match_listen_failed: "listeners_match h P \<Longrightarrow> listeners_match (listen_failed p i h) P"
  using listen_failed_agree [of h p i] by (auto simp: listeners_match_def split: if_splits)

lemma match_start:
  assumes "listeners_match h P" "P u = Some p" "0 < p"
  shows "listeners_match (startListenerLocked p u (h\<lparr>portUsers := (portUsers h)(p \<mapsto> u)\<rparr>)) P"
  using start_agree [of h p u] assms by (auto simp: listeners_match_def)

text \<open>After the old listener of a user is stopped no port serves the user.\<close>

lemma old_port_stopped:
  assumes m: "listeners_match h P" and o: "covers order h"
  shows "\<exists>h'. (if old_port u order h \<noteq> 0 then StopUserListener (old_port u order h) h else h) = h' \<and>
     listeners_match h' P \<and> (\<forall>q. served h' q \<noteq> Some u)"
proof -
  have ag: "owners_agree h" and pu: "portUsers h = served h"
    using m owners_agreeD by (auto simp: listeners_match_def)
  show ?thesis
  proof (cases "find (\<lambda>p. portUsers h p = Some u) order")
    case None
    then have "\<forall>q. served h q \<noteq> Some u"
      using o by (auto simp: find_None_iff covers_def pu dom_def)
    then show ?thesis using None m by (simp add: old_port_def)
  next
    case (Some p)
    then have s: "served h p = Some u" by (auto simp: find_Some_iff pu)
    then have "P u = Some p" "0 < p" using m by (auto simp: listeners_match_def)
    then have "\<forall>q. served (StopUserListener p h) q \<noteq> Some u"
      using m stop_agree(2) [OF ag, of p] by (auto simp: listeners_match_def)
    then show ?thesis using Some match_StopUserListener [OF m] \<open>0 < p\<close> by (simp add: old_port_def)
  qed
qed

lemma match_upd:
  assumes "listeners_match h P" "\<forall>q. served h q \<noteq> Some u" "p > 0 \<longrightarrow> (\<forall>v. v \<noteq> u \<longrightarrow> P v \<noteq> Some p)"
  shows "listeners_match h (P(u \<mapsto> p))"
  using assms unfolding listeners_match_def ports_unique_def by (auto split: if_splits)

lemma match_del:
  assumes "listeners_match h P" "\<forall>q. served h q \<noteq> Some u"
  shows "listeners_match h (P(u := None))"
  using assms unfolding listeners_match_def ports_unique_def by (auto split: if_splits)

subsection \<open>Database operations\<close>

lemma port_of_setter:
  assumes "user_setter op u f" "\<And>r. row_port (f r) = row_port r"
  shows "port_of (snd (op d)) = port_of d"
proof
  fix v
  show "port_of (snd (op d)) v = port_of d v"
  proof (cases "fst (op d) = Inr ()")
    case True
    then show ?thesis using user_setter.rows [OF assms(1) True, of v] assms(2)
      by (auto simp: port_of_def option.map_comp comp_def)
  next
    case False
    then show ?thesis using user_setter.failed [OF assms(1) False] by (auto simp: port_of_def)
  qed
qed

lemmas port_of_setters =
  port_of_setter [OF set_dns.user_setter_axioms] port_of_setter [OF set_sched.user_setter_axioms]
  port_of_setter [OF set_override.user_setter_axioms] port_of_setter [OF clear_override.user_setter_axioms]
  port_of_setter [OF set_until.user_setter_axioms] port_of_setter [OF clear_until.user_setter_axioms]
  port_of_setter [OF set_enabled.user_setter_axioms]

lemma port_of_UpdatePort:
  "fst (DB_UpdatePort u p d) = Inr () \<Longrightarrow> port_of (snd (DB_UpdatePort u p d)) = (port_of d)(u \<mapsto> p)"
  "fst (DB_UpdatePort u p d) \<noteq> Inr () \<Longrightarrow> port_of (snd (DB_UpdatePort u p d)) = port_of d"
proof -
  show "fst (DB_UpdatePort u p d) \<noteq> Inr () \<Longrightarrow> port_of (snd (DB_UpdatePort u p d)) = port_of d"
    using set_port.failed [of u p d] by (auto simp: port_of_def)
  assume ok: "fst (DB_UpdatePort u p d) = Inr ()"
  have "\<exists>r. find_user u d = Some r" using set_port.ok [OF ok] by auto
  then show "port_of (snd (DB_UpdatePort u p d)) = (port_of d)(u \<mapsto> p)"
    using set_port.rows [OF ok] by (auto simp: port_of_def)
qed

lemma match_UpdateUserPort:
  assumes m: "listeners_match h (port_of d)" and o: "covers order h"
    and port: "port = 0 \<or> 0 < port \<and> (\<forall>v. v \<noteq> u \<longrightarrow> port_of d v \<noteq> Some port)"
    and res: "UpdateUserPort order u port h d = (res, h', d')"
  shows "listeners_match h' (port_of d') \<and> d' = snd (DB_UpdatePort u port d) \<and>
     (port = 0 \<longrightarrow> (\<forall>q. served h' q \<noteq> Some u))"
proof -
  let ?h = "if old_port u order h \<noteq> 0 then StopUserListener (old_port u order h) h else h"
  have h: "listeners_match ?h (port_of d)" "\<forall>q. served ?h q \<noteq> Some u"
    using old_port_stopped [OF m o, of u] by auto
  show ?thesis
  proof (cases "DB_UpdatePort u port d")
    case (Pair e d1)
    show ?thesis
    proof (cases e)
      case (Inl x)
      then show ?thesis using res Pair h port_of_UpdatePort(2) [of u port d]
        by (auto simp: UpdateUserPort_def Let_def)
    next
      case (Inr x)
      then have P: "port_of d1 = (port_of d)(u \<mapsto> port)" using port_of_UpdatePort(1) [of u port d] Pair by simp
      have m1: "listeners_match ?h (port_of d1)"
        unfolding P using h port by (intro match_upd) auto
      show ?thesis
      proof (cases "port = 0")
        case True
        then show ?thesis using res Pair Inr m1 h by (auto simp: UpdateUserPort_def Let_def)
      next
        case False
        then have "listeners_match (startListenerLocked port u (?h\<lparr>portUsers := (portUsers ?h)(port \<mapsto> u)\<rparr>)) (port_of d1)"
          using m1 port by (intro match_start) (auto simp: P)
        then show ?thesis using res Pair Inr False by (auto simp: UpdateUserPort_def Let_def)
      qed
    qed
  qed
qed

subsection \<open>The handlers\<close>

definition sys_ok :: "api \<Rightarrow> bool" where
  "sys_ok a \<longleftrightarrow> listeners_match (a_ports a) (port_of (a_users a)) \<and> wf_users (a_users a) \<and>
     sql_faults (a_users a) = []"

lemma sql_fault_nil [simp]: "sql_faults d = [] \<Longrightarrow> sql_fault d = (False, d)"
  by (simp add: sql_fault_def)

lemmas setter_op_defs = DB_UpdateDNS_def DB_UpdateDowntime_def DB_SetDowntimeOverride_def
  DB_ClearDowntimeOverride_def DB_SetDowntimeUntil_def DB_ClearDowntimeUntil_def DB_SetEnabled_def
  DB_UpdatePort_def

lemma setter_faults:
  assumes "sql_faults d = []"
  shows "sql_faults (snd (DB_UpdateDNS u s p d)) = []" "sql_faults (snd (DB_UpdateDowntime u sch d)) = []"
    "sql_faults (snd (DB_SetDowntimeOverride u t d)) = []" "sql_faults (snd (DB_ClearDowntimeOverride u d)) = []"
    "sql_faults (snd (DB_SetDowntimeUntil u t d)) = []" "sql_faults (snd (DB_ClearDowntimeUntil u d)) = []"
    "sql_faults (snd (DB_SetEnabled u b d)) = []" "sql_faults (snd (DB_UpdatePort u port d)) = []"
    "sql_faults (snd (DB_ChangePassword cr salt u pw d)) = []"
  using assms
  by (simp_all add: setter_op_defs DB_ChangePassword_def sql_update_user_def Let_def split: option.splits)

lemmas setter_wf = set_dns.wf_kept set_sched.wf_kept set_override.wf_kept clear_override.wf_kept
  set_until.wf_kept clear_until.wf_kept set_enabled.wf_kept set_port.wf_kept

lemma ChangePassword_ports:
  "port_of (snd (DB_ChangePassword cr salt u pw d)) = port_of d"
  "wf_users d \<Longrightarrow> wf_users (snd (DB_ChangePassword cr salt u pw d))"
proof -
  have "DB_ChangePassword cr salt u pw d = (Inl ErrEmptyCredentials, d) \<or>
      DB_ChangePassword cr salt u pw d = (Inl ErrHashing, d) \<or> (\<exists>c cs s. pw = c # cs \<and> salt = Some s)"
    by (cases pw; cases salt) (auto simp: DB_ChangePassword_def hashPassword_def)
  then show "port_of (snd (DB_ChangePassword cr salt u pw d)) = port_of d"
    "wf_users d \<Longrightarrow> wf_users (snd (DB_ChangePassword cr salt u pw d))"
    using change_pw.wf_kept port_of_setter [OF change_pw.user_setter_axioms]
    by (auto simp: row_new_hash_def)
qed

lemma list_or_nil_rows:
  assumes "sql_faults d = []"
  shows "list_or_nil now d =
    (map (user_info now) (sort_key (\<lambda>r. map byte_of (row_username r)) (users_tbl d)), d)"
  using assms by (simp add: list_or_nil_def DB_List_def)

lemma find_info:
  assumes "wf_users d" "sql_faults d = []" "find Q (fst (list_or_nil now d)) = Some x" "ui_Username x = u"
  shows "port_of d u = Some (ui_Port x)"
proof -
  have "x \<in> user_info now ` set (users_tbl d)"
    using assms(2,3) by (auto simp: list_or_nil_rows find_Some_iff in_set_conv_nth)
      (metis length_sort nth_mem set_sort imageI)
  then obtain r where r: "r \<in> set (users_tbl d)" "x = user_info now r" by auto
  then show ?thesis using find_user_mem [OF assms(1) r(1)] assms(4) by (simp add: port_of_def user_info_def)
qed

lemma listed_port_Some:
  assumes "wf_users d" "sql_faults d = []" "listed_port u (fst (list_or_nil now d)) = Some x"
  shows "port_of d u = Some (ui_Port x) \<and> 0 < ui_Port x"
proof -
  have "ui_Username x = u" "0 < ui_Port x" using assms(3) by (auto simp: listed_port_def find_Some_iff)
  then show ?thesis using find_info [OF assms(1,2)] assms(3) unfolding listed_port_def by blast
qed

lemma listed_port_None:
  assumes "wf_users d" "sql_faults d = []" "listed_port u (fst (list_or_nil now d)) = None" "port_of d u = Some p"
  shows "p \<le> 0"
proof -
  obtain r where r: "find_user u d = Some r" "row_port r = p" using assms(4) by (auto simp: port_of_def)
  then have "r \<in> set (users_tbl d)" "row_username r = u" using find_user_name by auto
  then have "user_info now r \<in> set (fst (list_or_nil now d))" using assms(2) by (simp add: list_or_nil_rows)
  then have "\<not> (ui_Username (user_info now r) = u \<and> ui_Port (user_info now r) > 0)"
    using assms(3) unfolding listed_port_def find_None_iff by blast
  then show ?thesis using r(2) \<open>row_username r = u\<close> by (simp add: user_info_def)
qed

lemma snd_list_or_nil: "sql_faults d = [] \<Longrightarrow> list_or_nil now d = (fst (list_or_nil now d), d)"
  by (simp add: list_or_nil_rows)

lemma sys_ok_users:
  assumes "sys_ok a" "port_of d = port_of (a_users a)" "wf_users d" "sql_faults d = []"
  shows "sys_ok (a\<lparr>a_users := d\<rparr>)"
  using assms by (simp add: sys_ok_def)

lemma sys_ok_listener:
  assumes "sys_ok a" "port_of d = port_of (a_users a)" "wf_users d" "sql_faults d = []"
    and "listeners_match h (port_of d)"
  shows "sys_ok (a\<lparr>a_users := d, a_ports := h\<rparr>)"
  using assms by (simp add: sys_ok_def)

lemma sys_ok_create:
  assumes ok: "sys_ok a" and c: "covers order (a_ports a)" and mn: "UserPortMin (ae_cfg E) > 0"
  shows "sys_ok (snd (handleCreateUser E now salt order r a))"
proof (cases "rq_login r")
  case (Some req)
  let ?u = "lr_Username req" and ?d = "a_users a"
  have m: "listeners_match (a_ports a) (port_of ?d)" "wf_users ?d" "sql_faults ?d = []"
    using ok by (auto simp: sys_ok_def)
  show ?thesis
  proof (cases "?u = [] \<or> lr_Password req = []")
    case False
    obtain res d1 where add: "DB_Add (ae_crypto E) salt now ?u (lr_Password req) (UserPortMin (ae_cfg E))
        (UserPortMax (ae_cfg E)) ?d = (res, d1)" by fastforce
    have f1: "sql_faults d1 = []" using add m(3)
      by (auto simp: DB_Add_def DB_nextAvailablePort_def Let_def split: option.splits if_splits)
    show ?thesis
    proof (rule Add_cases [of "ae_crypto E" salt now ?u "lr_Password req" "UserPortMin (ae_cfg E)" "UserPortMax (ae_cfg E)" ?d])
      fix e fs
      assume e: "DB_Add (ae_crypto E) salt now ?u (lr_Password req) (UserPortMin (ae_cfg E))
        (UserPortMax (ae_cfg E)) ?d = (Inl e, ?d\<lparr>sql_faults := fs\<rparr>)"
      then have "sys_ok (a\<lparr>a_users := ?d\<lparr>sql_faults := fs\<rparr>\<rparr>)"
        using add f1 m by (auto simp: sys_ok_def port_of_def wf_users_def)
      then show ?thesis using Some False e by (simp add: handleCreateUser_def UserPortRange_def)
    next
      fix port h fs
      assume e: "DB_Add (ae_crypto E) salt now ?u (lr_Password req) (UserPortMin (ae_cfg E)) (UserPortMax (ae_cfg E)) ?d =
          (Inr port, ?d\<lparr>sql_faults := fs, users_tbl := users_tbl ?d @ [new_row ?u h port now],
             enabledCache := (enabledCache ?d)(?u \<mapsto> True)\<rparr>)"
        and none: "find_user ?u ?d = None" and une: "?u \<noteq> []"
        and free: "first_free_port (\<lambda>p. p \<in> set (filter (\<lambda>p. UserPortMin (ae_cfg E) \<le> p \<and> p \<le> UserPortMax (ae_cfg E))
           (map row_port (users_tbl ?d)))) (UserPortMin (ae_cfg E)) (UserPortMax (ae_cfg E)) = Some port"
      have d1: "d1 = ?d\<lparr>sql_faults := fs, users_tbl := users_tbl ?d @ [new_row ?u h port now],
             enabledCache := (enabledCache ?d)(?u \<mapsto> True)\<rparr>" using add e by simp
      have P1: "port_of d1 = (port_of ?d)(?u \<mapsto> port)"
        using find_user_snoc [where d = ?d and r = "new_row ?u h port now"] none
        by (auto simp: port_of_def d1 new_row_def find_user_def split: option.splits)
      have wf1: "wf_users d1" using m(2) none une
        by (auto simp: wf_users_def d1 new_row_def find_user_None)
      obtain port_free: "0 < port" "port \<notin> row_port ` set (users_tbl ?d)"
        using free mn by (auto simp: first_free_port_Some)
      have fresh: "port_of ?d v \<noteq> Some port" for v
        using port_free(2) find_user_name [of v ?d] by (auto simp: port_of_def)
      have "\<forall>q. served (a_ports a) q \<noteq> Some ?u"
        using m(1) none unfolding listeners_match_def port_of_def by fastforce
      then have m1: "listeners_match (a_ports a) (port_of d1)"
        unfolding P1 using m(1) fresh by (intro match_upd) auto
      obtain res2 h2 d2 where up: "UpdateUserPort order ?u port (a_ports a) d1 = (res2, h2, d2)"
        by (metis prod_cases3)
      have "listeners_match h2 (port_of d2) \<and> d2 = snd (DB_UpdatePort ?u port d1)"
        using match_UpdateUserPort [OF m1 c _ up] port_free(1) fresh by (auto simp: P1)
      then have "sys_ok (a\<lparr>a_users := d2, a_ports := h2\<rparr>)"
        using setter_wf(8) [OF wf1] setter_faults(8) [OF f1] by (auto simp: sys_ok_def)
      then show ?thesis using Some False e d1 up by (simp add: handleCreateUser_def UserPortRange_def)
    qed
  qed (use ok Some in \<open>auto simp: handleCreateUser_def\<close>)
qed (use ok in \<open>simp add: handleCreateUser_def\<close>)

lemma port_of_Delete:
  assumes "sql_faults d = []"
  shows "port_of (snd (DB_Delete u d)) = (port_of d)(u := None)" "sql_faults (snd (DB_Delete u d)) = []"
    "wf_users d \<Longrightarrow> wf_users (snd (DB_Delete u d))"
proof -
  have f: "find_user v (snd (DB_Delete u d)) = (if v = u then None else find_user v d)" for v
    using find_user_filter [where d = d and u = u and v = v] assms
    by (auto simp: DB_Delete_def Let_def find_user_def)
  then show "port_of (snd (DB_Delete u d)) = (port_of d)(u := None)" by (auto simp: port_of_def)
  show "sql_faults (snd (DB_Delete u d)) = []" using assms by (simp add: DB_Delete_def Let_def)
  show "wf_users d \<Longrightarrow> wf_users (snd (DB_Delete u d))"
    using assms by (auto simp: DB_Delete_def Let_def wf_users_def distinct_map_filter)
qed

lemma sys_ok_delete:
  assumes ok: "sys_ok a" and c: "covers order (a_ports a)"
  shows "sys_ok (snd (handleDeleteUser now order r a))"
proof (cases "rq_query r ''username'' = []")
  case False
  let ?u = "rq_query r ''username''" and ?d = "a_users a"
  have m: "listeners_match (a_ports a) (port_of ?d)" "wf_users ?d" "sql_faults ?d = []"
    using ok by (auto simp: sys_ok_def)
  obtain h d where hd: "(case listed_port ?u (fst (list_or_nil now ?d)) of
        None \<Rightarrow> (a_ports a, ?d)
      | Some _ \<Rightarrow> (case UpdateUserPort order ?u 0 (a_ports a) ?d of (_, h, d) \<Rightarrow> (h, d))) = (h, d)"
    by fastforce
  have "listeners_match h (port_of d) \<and> wf_users d \<and> sql_faults d = [] \<and> (\<forall>q. served h q \<noteq> Some ?u)"
  proof (cases "listed_port ?u (fst (list_or_nil now ?d))")
    case None
    have "served (a_ports a) q \<noteq> Some ?u" for q
    proof
      assume "served (a_ports a) q = Some ?u"
      then have "0 < q" "port_of ?d ?u = Some q" using m(1) by (auto simp: listeners_match_def)
      then show False using listed_port_None [OF m(2,3) None] by fastforce
    qed
    then show ?thesis using hd None m by auto
  next
    case (Some x)
    obtain res h2 d2 where up: "UpdateUserPort order ?u 0 (a_ports a) ?d = (res, h2, d2)" by (metis prod_cases3)
    have "listeners_match h2 (port_of d2) \<and> d2 = snd (DB_UpdatePort ?u 0 ?d) \<and> (\<forall>q. served h2 q \<noteq> Some ?u)"
      using match_UpdateUserPort [OF m(1) c _ up] by auto
    then show ?thesis using hd Some up setter_wf(8) [OF m(2)] setter_faults(8) [OF m(3)] by auto
  qed
  then have "sys_ok (a\<lparr>a_users := snd (DB_Delete ?u d), a_ports := h\<rparr>)"
    using match_del port_of_Delete [of d ?u] by (simp add: sys_ok_def)
  then show ?thesis
    using False hd snd_list_or_nil [OF m(3), of now]
    by (cases "DB_Delete ?u d"; cases "fst (DB_Delete ?u d)")
       (auto simp: handleDeleteUser_def Let_def split: prod.splits)
qed (use ok in \<open>simp add: handleDeleteUser_def\<close>)

lemma sys_ok_port:
  assumes ok: "sys_ok a" and c: "covers order (a_ports a)" and mn: "UserPortMin (ae_cfg E) > 0"
  shows "sys_ok (snd (handleUpdatePort E order r a))"
proof (cases "rq_Method r = ''PUT''")
  case True
  show ?thesis
  proof (cases "rq_port r")
    case (Some req)
    let ?u = "pr_Username req" and ?p = "pr_Port req" and ?d = "a_users a"
    have m: "listeners_match (a_ports a) (port_of ?d)" "wf_users ?d" "sql_faults ?d = []"
      using ok by (auto simp: sys_ok_def)
    have same: "a\<lparr>a_users := a_users a\<rparr> = a" by simp
    have owner: "DB_PortOwner ?p ?d = (Inr (case find (\<lambda>r. row_port r = ?p) (users_tbl ?d) of
        None \<Rightarrow> [] | Some r \<Rightarrow> row_username r), ?d)"
      using m(3) by (auto simp: DB_PortOwner_def split: option.splits)
    show ?thesis
    proof (cases "?u = [] \<or> (?p \<noteq> 0 \<and> (?p < UserPortMin (ae_cfg E) \<or> ?p > UserPortMax (ae_cfg E) \<or>
        (fst (DB_PortOwner ?p ?d) \<noteq> Inr [] \<and> fst (DB_PortOwner ?p ?d) \<noteq> Inr ?u)))")
      case True
      then have "snd (handleUpdatePort E order r a) = a"
        using \<open>rq_Method r = _\<close> Some owner same
        by (auto simp: handleUpdatePort_def UserPortRange_def Let_def split: option.splits if_splits)
      then show ?thesis using ok by simp
    next
      case False
      have free: "port_of ?d v \<noteq> Some ?p" if "?p \<noteq> 0" "v \<noteq> ?u" for v
      proof
        assume "port_of ?d v = Some ?p"
        then obtain x where x: "find_user v ?d = Some x" "row_port x = ?p" by (auto simp: port_of_def)
        then have xs: "x \<in> set (users_tbl ?d)" "row_username x = v" using find_user_name by auto
        then obtain y where y: "find (\<lambda>r. row_port r = ?p) (users_tbl ?d) = Some y" "y \<in> set (users_tbl ?d)" "row_port y = ?p"
          using x(2) by (metis (mono_tags, lifting) find_None_iff find_Some_iff not_None_eq nth_mem)
        have "row_username y \<noteq> []" using m(2) y(2) by (metis imageI wf_users_def)
        then have "row_username y = ?u" using False that(1) owner y(1) by auto
        moreover have "port_of ?d (row_username y) = Some ?p"
          using find_user_mem [OF m(2) y(2)] y(3) by (simp add: port_of_def)
        moreover have "0 < ?p" using False that(1) mn by auto
        ultimately have "v = ?u"
          using \<open>port_of ?d v = Some ?p\<close> m(1) unfolding listeners_match_def ports_unique_def by blast
        then show False using that(2) by simp
      qed
      have pos: "?p = 0 \<or> 0 < ?p" using False mn by auto
      obtain res h2 d2 where up: "UpdateUserPort order ?u ?p (a_ports a) ?d = (res, h2, d2)" by (metis prod_cases3)
      have "listeners_match h2 (port_of d2) \<and> d2 = snd (DB_UpdatePort ?u ?p ?d)"
        using match_UpdateUserPort [OF m(1) c _ up] pos free by blast
      then have "sys_ok (a\<lparr>a_users := d2, a_ports := h2\<rparr>)"
        using setter_wf(8) [OF m(2)] setter_faults(8) [OF m(3)] by (auto simp: sys_ok_def)
      then show ?thesis using \<open>rq_Method r = _\<close> Some False owner up same
        by (auto simp: handleUpdatePort_def UserPortRange_def Let_def split: option.splits if_splits sum.splits)
    qed
  qed (use ok in \<open>simp add: handleUpdatePort_def\<close>)
qed (use ok in \<open>simp add: handleUpdatePort_def\<close>)

text \<open>A setter followed by a listener update for the user it found in the list.\<close>

lemma sys_ok_setter_listener:
  assumes ok: "sys_ok a"
    and d: "port_of d = port_of (a_users a)" "wf_users d" "sql_faults d = []"
    and h: "\<And>x. find Q (fst (list_or_nil now d)) = Some x \<Longrightarrow> Q x \<Longrightarrow>
      h = StartListener u (ui_Port x) (a_ports a) \<or> h = StopListener cfg (ui_Port x) (a_ports a)"
    and Q: "\<And>x. Q x \<Longrightarrow> ui_Username x = u \<and> 0 < ui_Port x"
    and none: "find Q (fst (list_or_nil now d)) = None \<Longrightarrow> h = a_ports a"
  shows "sys_ok (a\<lparr>a_users := d, a_ports := h\<rparr>)"
proof (cases "find Q (fst (list_or_nil now d))")
  case None
  then show ?thesis using ok d none by (simp add: sys_ok_def)
next
  case (Some x)
  have m: "listeners_match (a_ports a) (port_of d)" using ok d by (simp add: sys_ok_def)
  have x: "Q x" using Some by (auto simp: find_Some_iff)
  have "port_of d u = Some (ui_Port x)" "0 < ui_Port x" using find_info [OF d(2,3) Some] Q [OF x] by auto
  then show ?thesis using h [OF Some x] m d match_StartListener [OF m] match_StopListener [OF m]
    by (auto simp: sys_ok_def)
qed

lemma sys_ok_enabled:
  assumes ok: "sys_ok a" shows "sys_ok (snd (handleSetEnabled E now r a))"
proof (cases "rq_Method r = ''PUT'' \<and> (\<exists>req. rq_enabled r = Some req \<and> er_Username req \<noteq> [])")
  case True
  then obtain req where req: "rq_Method r = ''PUT''" "rq_enabled r = Some req" "er_Username req \<noteq> []" by auto
  obtain res d where s: "DB_SetEnabled (er_Username req) (er_Enabled req) (a_users a) = (res, d)" by fastforce
  have d: "port_of d = port_of (a_users a)" "wf_users d" "sql_faults d = []"
    using port_of_setters(7) [where u = "er_Username req" and b = "er_Enabled req"]
      setter_wf(7) [of "a_users a" "er_Username req" "er_Enabled req"]
      setter_faults(7) [of "a_users a" "er_Username req" "er_Enabled req"] ok s
    by (auto simp: sys_ok_def) (metis snd_conv)
  show ?thesis
  proof (cases res)
    case (Inl e)
    then show ?thesis using req s sys_ok_users [OF ok d] by (simp add: handleSetEnabled_def)
  next
    case (Inr x)
    let ?h = "case listed_port (er_Username req) (fst (list_or_nil now d)) of None \<Rightarrow> a_ports a
      | Some u \<Rightarrow> if er_Enabled req then StartListener (er_Username req) (ui_Port u) (a_ports a)
          else StopListener (ae_cfg E) (ui_Port u) (a_ports a)"
    have "sys_ok (a\<lparr>a_users := d, a_ports := ?h\<rparr>)"
      by (rule sys_ok_setter_listener [OF ok d, where u = "er_Username req" and cfg = "ae_cfg E" and now = now and
            Q = "\<lambda>x. ui_Username x = er_Username req \<and> ui_Port x > 0"])
         (auto simp: listed_port_def)
    then show ?thesis using req s Inr snd_list_or_nil [OF d(3), of now]
      by (auto simp: handleSetEnabled_def Let_def split: prod.splits)
  qed
qed (use ok in \<open>auto simp: handleSetEnabled_def split: option.splits\<close>)

lemma sys_ok_override:
  assumes ok: "sys_ok a" shows "sys_ok (snd (handleDowntimeOverride now r a))"
proof (cases "rq_Method r = ''PUT'' \<and> (\<exists>req. rq_override r = Some req \<and> or_Username req \<noteq> [])")
  case True
  then obtain req where req: "rq_Method r = ''PUT''" "rq_override r = Some req" "or_Username req \<noteq> []" by auto
  let ?u = "or_Username req" and ?t = "now + minutes_duration (or_DurationMinutes req)"
  have m: "wf_users (a_users a)" "sql_faults (a_users a) = []" using ok by (auto simp: sys_ok_def)
  obtain res d where s: "DB_SetDowntimeOverride ?u ?t (a_users a) = (res, d)" by fastforce
  obtain res' d' where s': "DB_ClearDowntimeOverride ?u (a_users a) = (res', d')" by fastforce
  have d: "port_of d = port_of (a_users a)" "wf_users d" "sql_faults d = []"
    using port_of_setters(3) [of ?t ?u "a_users a"] setter_wf(3) [OF m(1), of ?u ?t]
      setter_faults(3) [OF m(2), of ?u ?t] s by auto
  have d': "port_of d' = port_of (a_users a)" "wf_users d'" "sql_faults d' = []"
    using port_of_setters(4) [of ?u "a_users a"] setter_wf(4) [OF m(1), of ?u]
      setter_faults(4) [OF m(2), of ?u] s' by auto
  show ?thesis
  proof (cases "or_DurationMinutes req \<le> 0")
    case True
    then show ?thesis using req s' sys_ok_users [OF ok d']
      by (auto simp: handleDowntimeOverride_def split: sum.splits)
  next
    case False
    let ?h = "case listed_port ?u (fst (list_or_nil now d)) of None \<Rightarrow> a_ports a
      | Some x \<Rightarrow> StartListener ?u (ui_Port x) (a_ports a)"
    have "sys_ok (a\<lparr>a_users := d, a_ports := ?h\<rparr>)"
      by (rule sys_ok_setter_listener [OF ok d, where u = ?u and now = now and
            Q = "\<lambda>x. ui_Username x = ?u \<and> ui_Port x > 0"])
         (auto simp: listed_port_def)
    then show ?thesis using req s False sys_ok_users [OF ok d] snd_list_or_nil [OF d(3), of now]
      by (cases res) (auto simp: handleDowntimeOverride_def Let_def split: prod.splits)
  qed
qed (use ok in \<open>auto simp: handleDowntimeOverride_def split: option.splits\<close>)

lemma sys_ok_downtime_now:
  assumes ok: "sys_ok a" shows "sys_ok (snd (handleDowntimeNow E now r a))"
proof (cases "rq_Method r = ''PUT'' \<and> (\<exists>req. rq_override r = Some req \<and> or_Username req \<noteq> [])")
  case True
  then obtain req where req: "rq_Method r = ''PUT''" "rq_override r = Some req" "or_Username req \<noteq> []" by auto
  let ?u = "or_Username req" and ?t = "now + minutes_duration (or_DurationMinutes req)"
  have m: "wf_users (a_users a)" "sql_faults (a_users a) = []" using ok by (auto simp: sys_ok_def)
  obtain res d where s: "DB_SetDowntimeUntil ?u ?t (a_users a) = (res, d)" by fastforce
  obtain res' d' where s': "DB_ClearDowntimeUntil ?u (a_users a) = (res', d')" by fastforce
  have d: "port_of d = port_of (a_users a)" "wf_users d" "sql_faults d = []"
    using port_of_setters(5) [of ?t ?u "a_users a"] setter_wf(5) [OF m(1), of ?u ?t]
      setter_faults(5) [OF m(2), of ?u ?t] s by auto
  have d': "port_of d' = port_of (a_users a)" "wf_users d'" "sql_faults d' = []"
    using port_of_setters(6) [of ?u "a_users a"] setter_wf(6) [OF m(1), of ?u]
      setter_faults(6) [OF m(2), of ?u] s' by auto
  show ?thesis
  proof (cases "or_DurationMinutes req \<le> 0")
    case True
    let ?Q = "\<lambda>x. ui_Username x = ?u \<and> ui_Port x > 0 \<and> ui_Enabled x"
    let ?h = "case find ?Q (fst (list_or_nil now d')) of None \<Rightarrow> a_ports a
      | Some x \<Rightarrow> StartListener ?u (ui_Port x) (a_ports a)"
    have "sys_ok (a\<lparr>a_users := d', a_ports := ?h\<rparr>)"
      by (rule sys_ok_setter_listener [OF ok d', where u = ?u and now = now and Q = ?Q]) auto
    then show ?thesis using req s' True sys_ok_users [OF ok d'] snd_list_or_nil [OF d'(3), of now]
      by (cases res') (auto simp: handleDowntimeNow_def Let_def split: prod.splits)
  next
    case False
    let ?h = "case listed_port ?u (fst (list_or_nil now d)) of None \<Rightarrow> a_ports a
      | Some x \<Rightarrow> StopListener (ae_cfg E) (ui_Port x) (a_ports a)"
    have "sys_ok (a\<lparr>a_users := d, a_ports := ?h\<rparr>)"
      by (rule sys_ok_setter_listener [OF ok d, where u = ?u and now = now and cfg = "ae_cfg E" and
            Q = "\<lambda>x. ui_Username x = ?u \<and> ui_Port x > 0"])
         (auto simp: listed_port_def)
    then show ?thesis using req s False sys_ok_users [OF ok d] snd_list_or_nil [OF d(3), of now]
      by (cases res) (auto simp: handleDowntimeNow_def Let_def split: prod.splits)
  qed
qed (use ok in \<open>auto simp: handleDowntimeNow_def split: option.splits\<close>)

text \<open>Handlers that change the database only, and not its port column.\<close>

lemma snd_db_reply [simp]:
  "snd (case x of (Inl e, d) \<Rightarrow> (f e, a\<lparr>a_users := d\<rparr>) | (Inr v, d) \<Rightarrow> (g, a\<lparr>a_users := d\<rparr>)) =
   a\<lparr>a_users := snd x\<rparr>"
  by (cases x; cases "fst x") auto

lemma sys_ok_plain:
  assumes ok: "sys_ok a"
  shows "sys_ok (snd (handleUpdateDNS r a))" "sys_ok (snd (handleUpdateDowntime r a))"
    "sys_ok (snd (handleChangePassword E salt r a))" "sys_ok (snd (handleListUsers now a))"
    "sys_ok (snd (handleTestDNS quote look ip_string r a))"
proof -
  have m: "wf_users (a_users a)" "sql_faults (a_users a) = []" using ok by (auto simp: sys_ok_def)
  have 1: "sys_ok (a\<lparr>a_users := snd (DB_UpdateDNS u s p (a_users a))\<rparr>)" for u s p
    using port_of_setters(1) setter_wf(1) [OF m(1)] setter_faults(1) [OF m(2)] by (intro sys_ok_users [OF ok]) auto
  show "sys_ok (snd (handleUpdateDNS r a))"
    using ok 1 by (simp add: handleUpdateDNS_def Let_def split: option.split)
  have 2: "sys_ok (a\<lparr>a_users := snd (DB_UpdateDowntime u sch (a_users a))\<rparr>)" for u sch
    using port_of_setters(2) setter_wf(2) [OF m(1)] setter_faults(2) [OF m(2)] by (intro sys_ok_users [OF ok]) auto
  show "sys_ok (snd (handleUpdateDowntime r a))"
    using ok 2 by (simp add: handleUpdateDowntime_def Let_def split: option.split sum.split)
  have 3: "sys_ok (a\<lparr>a_users := snd (DB_ChangePassword cr s u p (a_users a))\<rparr>)" for cr s u p
    using ChangePassword_ports setter_faults(9) [OF m(2)] m(1) by (intro sys_ok_users [OF ok]) auto
  show "sys_ok (snd (handleChangePassword E salt r a))"
    using ok 3 by (simp add: handleChangePassword_def Let_def split: option.split)
  show "sys_ok (snd (handleListUsers now a))" using ok m(2) by (simp add: handleListUsers_def DB_List_def)
  show "sys_ok (snd (handleTestDNS quote look ip_string r a))"
    using ok by (auto simp: handleTestDNS_def split: option.splits sum.splits)
qed

end
