(* ===== verification/Admin_Props.thy ===== *)
theory Admin_Props
  imports Listeners
begin

text \<open>
  The theorems about the admin server as a whole: port listeners follow the database in every
  reachable state, the reconciler establishes the exact set of listeners, nothing is changed
  without authentication, device tokens cannot manage devices, login attempts are bounded.
\<close>

subsection \<open>Every request keeps listeners and assignments together\<close>

lemma sys_ok_same_users:
  assumes "sys_ok a" "users_tbl d = users_tbl (a_users a)" "sql_faults d = []"
  shows "sys_ok (a\<lparr>a_users := d\<rparr>)"
proof (rule sys_ok_users [OF assms(1) _ _ assms(3)])
  show "port_of d = port_of (a_users a)" using assms(2) by (simp add: port_of_def find_user_def fun_eq_iff)
  show "wf_users d" using assms(1,2) by (simp add: sys_ok_def wf_users_def)
qed

lemma sys_ok_other [simp]:
  "sys_ok (a\<lparr>a_sessions := x\<rparr>) = sys_ok a" "sys_ok (a\<lparr>a_loginLimiter := y\<rparr>) = sys_ok a"
  "sys_ok (a\<lparr>a_globalFails := z\<rparr>) = sys_ok a" "sys_ok (a\<lparr>a_enroll := w\<rparr>) = sys_ok a"
  by (simp_all add: sys_ok_def)

lemma device_ops_users:
  assumes "sql_faults d = []"
  shows "users_tbl (snd (DB_CreateDeviceToken cr rnd now name d)) = users_tbl d \<and>
       sql_faults (snd (DB_CreateDeviceToken cr rnd now name d)) = []"
    "users_tbl (snd (DB_ValidateDeviceToken cr now token d)) = users_tbl d \<and>
       sql_faults (snd (DB_ValidateDeviceToken cr now token d)) = []"
    "users_tbl (snd (DB_ListDeviceTokens d)) = users_tbl d \<and> sql_faults (snd (DB_ListDeviceTokens d)) = []"
    "users_tbl (snd (DB_RevokeDeviceToken dev d)) = users_tbl d \<and> sql_faults (snd (DB_RevokeDeviceToken dev d)) = []"
  using assms
  by (auto simp: DB_CreateDeviceToken_def DB_ValidateDeviceToken_def DB_ListDeviceTokens_def
      DB_RevokeDeviceToken_def Let_def split: option.splits)

lemma sys_ok_device:
  assumes "sys_ok a"
  shows "sys_ok (a\<lparr>a_users := snd (DB_CreateDeviceToken cr rnd now name (a_users a))\<rparr>)"
    "sys_ok (a\<lparr>a_users := snd (DB_ValidateDeviceToken cr now token (a_users a))\<rparr>)"
    "sys_ok (a\<lparr>a_users := snd (DB_ListDeviceTokens (a_users a))\<rparr>)"
    "sys_ok (a\<lparr>a_users := snd (DB_RevokeDeviceToken dev (a_users a))\<rparr>)"
proof -
  have nf: "sql_faults (a_users a) = []" using assms by (simp add: sys_ok_def)
  note ops = device_ops_users [OF nf]
  show "sys_ok (a\<lparr>a_users := snd (DB_CreateDeviceToken cr rnd now name (a_users a))\<rparr>)"
    "sys_ok (a\<lparr>a_users := snd (DB_ValidateDeviceToken cr now token (a_users a))\<rparr>)"
    "sys_ok (a\<lparr>a_users := snd (DB_ListDeviceTokens (a_users a))\<rparr>)"
    "sys_ok (a\<lparr>a_users := snd (DB_RevokeDeviceToken dev (a_users a))\<rparr>)"
    by (rule sys_ok_same_users [OF assms]; simp add: ops)+
qed

lemma sys_ok_session: "sys_ok a \<Longrightarrow> sys_ok (snd (session_ok now r a))"
  by (auto simp: session_ok_def split: option.splits prod.splits)

lemma sys_ok_authed:
  assumes "sys_ok a" shows "sys_ok (snd (api_authed E now r a))"
proof (cases "HasPrefix (rq_Authorization r) ''Bearer ''")
  case True
  let ?x = "DB_ValidateDeviceToken (ae_crypto E) now (TrimPrefix (rq_Authorization r) ''Bearer '') (a_users a)"
  have "sys_ok (a\<lparr>a_users := snd ?x\<rparr>)" using sys_ok_device(2) [OF assms] .
  then show ?thesis using True sys_ok_session [of "a\<lparr>a_users := snd ?x\<rparr>"]
    by (auto simp: api_authed_def split: prod.splits)
next
  case False
  then show ?thesis using sys_ok_session [OF assms] by (simp add: api_authed_def)
qed

lemma session_keeps: "a_ports (snd (session_ok now r a)) = a_ports a \<and> a_users (snd (session_ok now r a)) = a_users a \<and>
    a_enroll (snd (session_ok now r a)) = a_enroll a"
  by (auto simp: session_ok_def split: option.splits prod.splits)

lemma authed_keeps: "a_ports (snd (api_authed E now r a)) = a_ports a \<and> a_enroll (snd (api_authed E now r a)) = a_enroll a"
  using session_keeps by (auto simp: api_authed_def split: prod.splits)

lemma sys_ok_requireSession:
  assumes "sys_ok a" "\<And>b. sys_ok b \<Longrightarrow> a_ports b = a_ports a \<Longrightarrow> sys_ok (snd (h r b))"
  shows "sys_ok (snd (requireSession E now h r a))"
  using assms sys_ok_authed [OF assms(1), of E now r] authed_keeps [of E now r a]
  by (auto simp: requireSession_def split: prod.splits)

lemma sys_ok_requireAdmin:
  assumes "sys_ok a" "\<And>b. sys_ok b \<Longrightarrow> sys_ok (snd (h r b))"
  shows "sys_ok (snd (requireAdminSession now h r a))" "sys_ok (snd (requireSessionPage now h r a))"
  using assms sys_ok_session [OF assms(1), of now r]
  by (auto simp: requireAdminSession_def requireSessionPage_def split: prod.splits)

lemma sys_ok_login: "sys_ok a \<Longrightarrow> sys_ok (snd (handleLogin E now rnd r a))"
  by (auto simp: handleLogin_def Let_def split: prod.splits option.splits sum.splits)

lemma sys_ok_logout: "sys_ok a \<Longrightarrow> sys_ok (snd (handleLogout E r a))"
  by (auto simp: handleLogout_def split: option.splits)

lemma sys_ok_enroll: "sys_ok a \<Longrightarrow> sys_ok (snd (handleEnroll qr now rnd r a))"
  by (auto simp: handleEnroll_def Let_def split: prod.splits option.splits)

lemma sys_ok_pair:
  assumes "sys_ok a" shows "sys_ok (snd (handlePair E now rnd r a))"
proof -
  have "sys_ok (a\<lparr>a_enroll := es, a_users := d\<rparr>)" if "DB_CreateDeviceToken cr rnd now name (a_users a) = (x, d)"
    for es cr name x d
  proof -
    have "sys_ok ((a\<lparr>a_users := d\<rparr>)\<lparr>a_enroll := es\<rparr>)"
      using sys_ok_device(1) [OF assms, of cr rnd now name] that by simp
    then show ?thesis by (simp add: sys_ok_def)
  qed
  then show ?thesis using assms
    by (auto simp: handlePair_def Let_def split: prod.splits option.splits sum.splits)
qed

lemma sys_ok_devices: 
  assumes "sys_ok a" shows "sys_ok (snd (handleDevices r a))"
  using assms sys_ok_device(3,4) [OF assms]
  by (auto simp: handleDevices_def split: prod.splits sum.splits db_error.splits) (metis snd_conv)+

lemma sys_ok_users_page:
  assumes "sys_ok a" "covers order (a_ports a)" "UserPortMin (ae_cfg E) > 0"
  shows "sys_ok (snd (handleUsers E now salt order r a))"
  using assms sys_ok_create sys_ok_delete sys_ok_plain(4) by (simp add: handleUsers_def)

lemma sys_ok_static: "sys_ok a \<Longrightarrow> sys_ok (snd (stats_page r a))" "sys_ok a \<Longrightarrow> sys_ok (snd (serveFile f r a))"
  by (simp_all add: stats_page_def serveFile_def)

lemma sys_ok_if: "sys_ok (snd x) \<Longrightarrow> sys_ok (snd y) \<Longrightarrow> sys_ok (snd (if b then x else y))"
  by simp

lemma sys_ok_route:
  assumes ok: "sys_ok a" and c: "covers (am_order m) (a_ports a)" and mn: "UserPortMin (ae_cfg E) > 0"
  shows "sys_ok (snd (admin_route E m r a))"
  unfolding admin_route_def Let_def
  by (intro sys_ok_if sys_ok_login [OF ok] sys_ok_logout [OF ok] sys_ok_pair [OF ok]
        sys_ok_requireSession [OF ok] sys_ok_requireAdmin [OF ok] sys_ok_users_page sys_ok_port
        sys_ok_plain sys_ok_enabled sys_ok_override sys_ok_downtime_now sys_ok_enroll sys_ok_devices
        sys_ok_static)
     (simp_all add: ok c mn)

subsection \<open>Reachable states\<close>

text \<open>
  The steps of the running server that touch users or listeners: an admin request (any request,
  in any order), a pass of the reconciler, a listener that could not bind, and a credential check
  by the proxy, which may re-hash a password.
\<close>

inductive sys_step :: "api_env \<Rightarrow> api \<Rightarrow> api \<Rightarrow> bool" for E where
  step_request: "covers (am_order m) (a_ports a) \<Longrightarrow> sys_step E a (snd (admin_route E m r a))"
| step_reconcile: "distinct order \<Longrightarrow> row_port ` set (users_tbl (a_users a)) \<subseteq> set order \<Longrightarrow>
    reconcileListeners (ae_cfg E) (ae_loc E) now order (a_ports a) (a_users a) = (h, d) \<Longrightarrow>
    sys_step E a (a\<lparr>a_ports := h, a_users := d\<rparr>)"
| step_bind_failed: "sys_step E a (a\<lparr>a_ports := listen_failed p i (a_ports a)\<rparr>)"
| step_check: "sys_step E a (a\<lparr>a_users := snd (DB_Check (ae_crypto E) salt now header (a_users a))\<rparr>)"

lemma ListPorts_port_of:
  assumes "wf_users d" "ports_unique (port_of d)" "sql_faults d = []"
  shows "\<exists>ports. DB_ListPorts d = (Inr ports, d) \<and> (\<forall>p u. ports p = Some u \<longleftrightarrow> 0 < p \<and> port_of d u = Some p)"
proof -
  define rs where "rs = filter (\<lambda>r. row_port r > 0) (users_tbl d)"
  have fold: "foldl (\<lambda>m r. m(row_port r \<mapsto> row_username r)) m xs p = Some u \<longleftrightarrow>
      (\<exists>r\<in>set xs. row_port r = p \<and> row_username r = u) \<or> (m p = Some u \<and> p \<notin> row_port ` set xs)"
    if "inj_on row_port (set xs)" for m xs p u
    using that
  proof (induction xs arbitrary: m)
    case (Cons r xs)
    then show ?case by (auto simp: inj_on_def)
  qed simp
  have row: "port_of d u = Some p \<longleftrightarrow> (\<exists>r\<in>set (users_tbl d). row_username r = u \<and> row_port r = p)" for u p
    using find_user_mem [OF assms(1)] find_user_name by (fastforce simp: port_of_def)
  have inj: "inj_on row_port (set rs)"
  proof (rule inj_onI)
    fix x y assume xy: "x \<in> set rs" "y \<in> set rs" "row_port x = row_port y"
    then have "port_of d (row_username x) = Some (row_port x)" "port_of d (row_username y) = Some (row_port x)" "0 < row_port x"
      using row by (auto simp: rs_def)
    then have "row_username x = row_username y" using assms(2) unfolding ports_unique_def by blast
    moreover have "x \<in> set (users_tbl d)" "y \<in> set (users_tbl d)" using xy by (auto simp: rs_def)
    ultimately show "x = y" using find_user_mem [OF assms(1)] by (metis option.inject)
  qed
  have "foldl (\<lambda>m r. m(row_port r \<mapsto> row_username r)) Map.empty rs p = Some u \<longleftrightarrow> 0 < p \<and> port_of d u = Some p" for p u
    unfolding fold [OF inj] row by (auto simp: rs_def)
  then show ?thesis using assms(3) by (auto simp: DB_ListPorts_def rs_def)
qed

lemma sys_ok_reconcile:
  assumes ok: "sys_ok a" and o: "distinct order" "row_port ` set (users_tbl (a_users a)) \<subseteq> set order"
    and rec: "reconcileListeners cfg loc now order (a_ports a) (a_users a) = (h, d)"
  shows "sys_ok (a\<lparr>a_ports := h, a_users := d\<rparr>)"
    and "served h p = Some u \<longleftrightarrow>
      port_of (a_users a) u = Some p \<and> 0 < p \<and> UserPortMin cfg \<le> p \<and> p \<le> UserPortMax cfg \<and>
      listenerWanted cfg loc now (a_users a) u"
proof -
  let ?d = "a_users a"
  have m: "listeners_match (a_ports a) (port_of ?d)" "wf_users ?d" "sql_faults ?d = []"
    using ok by (auto simp: sys_ok_def)
  then have u: "ports_unique (port_of ?d)" and ag: "owners_agree (a_ports a)"
    and sv: "\<And>p u. served (a_ports a) p = Some u \<Longrightarrow> 0 < p \<and> port_of ?d u = Some p"
    by (auto simp: listeners_match_def)
  obtain ports where ports: "DB_ListPorts ?d = (Inr ports, ?d)"
    "\<And>p u. ports p = Some u \<longleftrightarrow> 0 < p \<and> port_of ?d u = Some p"
    using ListPorts_port_of [OF m(2) u m(3)] by blast
  define run where "run = shouldRun cfg (listenerWanted cfg loc now ?d) ports"
  have run: "run p = Some u \<longleftrightarrow> 0 < p \<and> port_of ?d u = Some p \<and> UserPortMin cfg \<le> p \<and> p \<le> UserPortMax cfg \<and>
      listenerWanted cfg loc now ?d u" for p u
  proof -
    have "run p = Some u \<longleftrightarrow> ports p = Some u \<and> UserPortMin cfg \<le> p \<and> p \<le> UserPortMax cfg \<and>
        listenerWanted cfg loc now ?d u"
      by (auto simp: run_def shouldRun_def split: option.splits if_splits)
    then show ?thesis unfolding ports(2) by blast
  qed
  have "dom run \<subseteq> row_port ` set (users_tbl ?d)"
    using run find_user_name by (fastforce simp: port_of_def)
  then have vis: "map_of (visit run order) = run" "distinct (map fst (visit run order))"
    using map_of_visit [of run order] visit_distinct o by auto
  have hd: "h = reconcile_start (visit run order) (reconcile_stop run (a_ports a))" "d = ?d"
    using rec ports(1) by (auto simp: reconcileListeners_def run_def Let_def)
  have h: "owners_agree h" "\<And>p. served h p = run p"
  proof -
    note st = reconcile_start_agree [OF reconcile_stop_agree(1) [OF ag, of run] vis(2)]
    show "owners_agree h" using st hd by simp
    fix p
    have "served (a_ports a) p = run p" if some: "run p \<noteq> None" "served (a_ports a) p \<noteq> None"
    proof -
      obtain v w where vw: "run p = Some v" "served (a_ports a) p = Some w" using some by auto
      then have "port_of ?d v = Some p" "port_of ?d w = Some p" "0 < p" using run sv by auto
      then have "v = w" using u unfolding ports_unique_def by blast
      then show ?thesis using vw by simp
    qed
    then show "served h p = run p"
      using st by (auto simp: hd reconcile_stop_agree(2) [OF ag] vis(1))
  qed
  show "served h p = Some u \<longleftrightarrow>
      port_of ?d u = Some p \<and> 0 < p \<and> UserPortMin cfg \<le> p \<and> p \<le> UserPortMax cfg \<and>
      listenerWanted cfg loc now ?d u"
    using h(2) run by auto
  have "listeners_match h (port_of ?d)" using h run u by (auto simp: listeners_match_def)
  then show "sys_ok (a\<lparr>a_ports := h, a_users := d\<rparr>)" using m hd by (simp add: sys_ok_def)
qed

lemma wf_names: "map row_username (users_tbl d') = map row_username (users_tbl d) \<Longrightarrow> wf_users d \<Longrightarrow> wf_users d'"
  unfolding wf_users_def by (metis list.set_map)

lemma port_of_map:
  assumes "users_tbl d' = map (\<lambda>r. if row_username r = u then f r else r) (users_tbl d)"
    and "\<And>r. row_username (f r) = row_username r" "\<And>r. row_port (f r) = row_port r"
  shows "port_of d' = port_of d"
proof
  fix v
  have "find_user v d' = (if v = u then map_option f (find_user u d) else find_user v d)"
    using find_map_upd [OF assms(2), of v u "users_tbl d"] assms(1) by (simp add: find_user_def)
  then show "port_of d' v = port_of d v" using assms(3) by (auto simp: port_of_def option.map_comp comp_def)
qed

lemma Check_db_users:
  assumes "sql_faults d = []"
  shows "\<exists>h. users_tbl (snd (DB_Check_db cr salt now u pw sha d)) \<in>
      {users_tbl d, map (\<lambda>r. if row_username r = u then r\<lparr>row_password_hash := h\<rparr> else r) (users_tbl d)} \<and>
    sql_faults (snd (DB_Check_db cr salt now u pw sha d)) = []"
  using assms by (auto simp: DB_Check_db_def Let_def sql_update_user_def split: option.split)

lemma sys_ok_check:
  assumes ok: "sys_ok a"
  shows "sys_ok (a\<lparr>a_users := snd (DB_Check cr salt now header (a_users a))\<rparr>)"
proof -
  let ?d = "a_users a"
  have m: "wf_users ?d" "sql_faults ?d = []" using ok by (auto simp: sys_ok_def)
  have db: "sys_ok (a\<lparr>a_users := snd (DB_Check_db cr salt now u pw sha ?d)\<rparr>)" for u pw sha
  proof -
    let ?d' = "snd (DB_Check_db cr salt now u pw sha ?d)"
    obtain h where h: "users_tbl ?d' = users_tbl ?d \<or>
        users_tbl ?d' = map (\<lambda>r. if row_username r = u then r\<lparr>row_password_hash := h\<rparr> else r) (users_tbl ?d)"
      and nf: "sql_faults ?d' = []" using Check_db_users [OF m(2)] by blast
    from h show ?thesis
    proof
      assume "users_tbl ?d' = users_tbl ?d"
      then show ?thesis using sys_ok_same_users [OF ok _ nf] by simp
    next
      assume t: "users_tbl ?d' = map (\<lambda>r. if row_username r = u then r\<lparr>row_password_hash := h\<rparr> else r) (users_tbl ?d)"
      have "port_of ?d' = port_of ?d" by (rule port_of_map [OF t]) simp_all
      moreover have "wf_users ?d'" by (rule wf_names [OF _ m(1)]) (simp add: t)
      ultimately show ?thesis using sys_ok_users [OF ok] nf by blast
    qed
  qed
  have same: "a\<lparr>a_users := a_users a\<rparr> = a" by simp
  show ?thesis
  proof (cases "header = [] \<or> parseBasicAuth header = None")
    case True
    then have "snd (DB_Check cr salt now header ?d) = ?d" by (auto simp: DB_Check_def)
    then show ?thesis using ok same by simp
  next
    case False
    then obtain u pw where p: "parseBasicAuth header = Some (u, pw)" "header \<noteq> []" by auto
    then have "snd (DB_Check cr salt now header ?d) \<in> {?d, snd (DB_Check_db cr salt now u pw (c_sha256 cr pw) ?d)}"
      by (simp add: DB_Check_def Let_def split: option.split)
    then consider "snd (DB_Check cr salt now header ?d) = ?d"
      | "snd (DB_Check cr salt now header ?d) = snd (DB_Check_db cr salt now u pw (c_sha256 cr pw) ?d)" by blast
    then show ?thesis by cases (simp_all only: same ok db)
  qed
qed

lemma sys_ok_step:
  assumes "sys_step E a b" "sys_ok a" "UserPortMin (ae_cfg E) > 0"
  shows "sys_ok b"
  using assms
proof (induction rule: sys_step.induct)
  case (step_request m a r)
  then show ?case using sys_ok_route by blast
next
  case (step_reconcile order a now h d)
  show ?case by (rule sys_ok_reconcile(1) [OF step_reconcile(4,1,2,3)])
next
  case (step_bind_failed a p i)
  then show ?case using match_listen_failed by (auto simp: sys_ok_def)
next
  case (step_check a salt now header)
  then show ?case using sys_ok_check by blast
qed

lemma sys_ok_reach:
  assumes "(sys_step E)\<^sup>*\<^sup>* a b" "sys_ok a" "UserPortMin (ae_cfg E) > 0"
  shows "sys_ok b"
  using assms by (induction rule: rtranclp_induct) (auto intro: sys_ok_step)


text \<open>
  C25. The reconciler is exact.  After a pass, the ports that are bound are exactly those of
  the users with a port in the configured range that want a listener: without interception the enabled
  users outside downtime, with it everybody.
\<close>

theorem reconcile_exact:
  assumes "sys_ok a" "distinct order" "row_port ` set (users_tbl (a_users a)) \<subseteq> set order"
    and "reconcileListeners cfg loc now order (a_ports a) (a_users a) = (h, d)"
  shows "{p. userServers h p \<noteq> None} = {p. \<exists>u. port_of (a_users a) u = Some p \<and> 0 < p \<and>
       UserPortMin cfg \<le> p \<and> p \<le> UserPortMax cfg \<and> listenerWanted cfg loc now (a_users a) u} \<and>
     (\<not> MITMEnabled cfg \<longrightarrow> (\<forall>p s. userServers h p = Some s \<longrightarrow>
        DB_IsEnabled (srv_owner s) (a_users a) \<and> \<not> DB_IsInDowntime loc now (srv_owner s) (a_users a)))"
proof -
  note sv = sys_ok_reconcile(2) [OF assms]
  have "userServers h p \<noteq> None \<longleftrightarrow> (\<exists>u. served h p = Some u)" for p by (auto simp: served_def)
  then have 1: "{p. userServers h p \<noteq> None} = {p. \<exists>u. port_of (a_users a) u = Some p \<and> 0 < p \<and>
       UserPortMin cfg \<le> p \<and> p \<le> UserPortMax cfg \<and> listenerWanted cfg loc now (a_users a) u}"
    using sv by simp
  have 2: "DB_IsEnabled (srv_owner s) (a_users a) \<and> \<not> DB_IsInDowntime loc now (srv_owner s) (a_users a)"
    if "\<not> MITMEnabled cfg" "userServers h p = Some s" for p s
  proof -
    have "served h p = Some (srv_owner s)" using that(2) by (simp add: served_def)
    then show ?thesis using sv [of p "srv_owner s"] that(1) by (simp add: listenerWanted_def split: if_splits)
  qed
  show ?thesis using 1 2 by blast
qed

subsection \<open>Instances\<close>

text \<open>One user, the port 8081 assigned, no listener yet.\<close>

definition ex_kid :: DB where
  "ex_kid = ex_disk\<lparr>users_tbl := [new_row ''kid'' ''h'' 8081 0], enabledCache := [''kid'' \<mapsto> True]\<rparr>"

definition ex_sys :: api where
  "ex_sys = ex_api\<lparr>a_users := ex_kid\<rparr>"

definition ex_bound :: Ports where
  "ex_bound = \<lparr>portUsers = [8081 \<mapsto> ''kid''],
     userServers = [8081 \<mapsto> \<lparr>srv_id = 0, srv_port = 8081, srv_owner = ''kid''\<rparr>], next_srv = 1\<rparr>"

lemma ex_sys_parts [simp]: "a_users ex_sys = ex_kid" "a_ports ex_sys = no_ports"
  by (simp_all add: ex_sys_def ex_api_def)

lemma ex_kid_tbl [simp]: "users_tbl ex_kid = [new_row ''kid'' ''h'' 8081 0]"
  by (simp add: ex_kid_def)

lemma ex_kid_port: "port_of ex_kid = [''kid'' \<mapsto> 8081]"
  by (auto simp: port_of_def find_user_def new_row_def fun_eq_iff)

lemma ex_sys_ok: "sys_ok ex_sys"
proof -
  have "listeners_match no_ports (port_of ex_kid)"
    by (auto simp: listeners_match_def owners_agree_def ports_unique_def served_def ex_kid_port
        no_ports_def split: if_splits)
  moreover have "wf_users ex_kid" by (simp add: wf_users_def new_row_def)
  ultimately show ?thesis by (simp add: sys_ok_def ex_kid_def ex_disk_def)
qed

lemma ex_port_range: "UserPortMin (ae_cfg ex_api_env) = 8081" "UserPortMax (ae_cfg ex_api_env) = 8090"
  by (simp_all add: ex_api_env_def config_from_env_def envInt_def ex_env_def)

lemma ex_kid_up: "DB_IsEnabled ''kid'' ex_kid" "\<not> DB_IsInDowntime loc now ''kid'' ex_kid"
  by (simp_all add: DB_IsEnabled_def DB_IsInDowntime_def DB_GetDowntimeUntil_def
      DB_GetDowntimeOverride_def DB_GetDowntime_def ex_kid_def ex_disk_def IsZero_def Let_def)

lemma ex_reconcile:
  "reconcileListeners (ae_cfg ex_api_env) (ae_loc ex_api_env) 0 [8081] (a_ports ex_sys) (a_users ex_sys)
     = (ex_bound, ex_kid)"
proof -
  have l: "DB_ListPorts ex_kid = (Inr [8081 \<mapsto> ''kid''], ex_kid)"
    by (simp add: DB_ListPorts_def sql_fault_def ex_kid_def ex_disk_def new_row_def)
  have "listenerWanted (ae_cfg ex_api_env) (ae_loc ex_api_env) 0 ex_kid ''kid''"
    by (simp add: listenerWanted_def ex_kid_up)
  then have r: "shouldRun (ae_cfg ex_api_env) (listenerWanted (ae_cfg ex_api_env) (ae_loc ex_api_env) 0 ex_kid)
      [8081 \<mapsto> ''kid''] = [8081 \<mapsto> ''kid'']"
    by (simp add: shouldRun_def fun_eq_iff ex_port_range)
  show ?thesis
    by (simp add: reconcileListeners_def l r visit_def reconcile_stop_def startListenerLocked_def
        no_ports_def ex_bound_def fun_eq_iff)
qed


theorem reconcile_exact_witness:
  "userServers ex_bound 8081 \<noteq> None \<and> {p. userServers ex_bound p \<noteq> None} = {p. \<exists>u. port_of ex_kid u = Some p \<and> 0 < p \<and>
       UserPortMin (ae_cfg ex_api_env) \<le> p \<and> p \<le> UserPortMax (ae_cfg ex_api_env) \<and>
       listenerWanted (ae_cfg ex_api_env) (ae_loc ex_api_env) 0 ex_kid u}"
proof -
  have "row_port ` set (users_tbl (a_users ex_sys)) \<subseteq> set [8081]" by (simp add: new_row_def)
  from reconcile_exact [OF ex_sys_ok _ this ex_reconcile] show ?thesis
    by (simp add: ex_bound_def)
qed

end
