(* ===== verification/Admin_DB.thy ===== *)
theory Admin_DB
  imports Admin_Props
begin

text \<open>
  What the admin API may do to the user database.  The locale \<open>db_inv\<close> is the contract of a property that every operation
  of the database keeps; inside it every request is shown to keep the property, so an invariant of the database becomes an
  invariant of the admin server by one interpretation.
\<close>

locale db_inv =
  fixes P :: "DB \<Rightarrow> bool" and ok_name :: "string \<Rightarrow> bool"
  assumes faults: "P d \<Longrightarrow> P (d\<lparr>sql_faults := fs\<rparr>)"
    and devices: "P d \<Longrightarrow> P (d\<lparr>device_tbl := t\<rparr>)"
    and add: "ok_name u \<Longrightarrow> P d \<Longrightarrow> P (snd (DB_Add cr salt now u pw mn mx d))"
    and delete: "P d \<Longrightarrow> P (snd (DB_Delete u d))"
    and password: "P d \<Longrightarrow> P (snd (DB_ChangePassword cr salt u pw d))"
    and dns: "P d \<Longrightarrow> P (snd (DB_UpdateDNS u s p d))"
    and schedule: "P d \<Longrightarrow> P (snd (DB_UpdateDowntime u sch d))"
    and set_override: "P d \<Longrightarrow> P (snd (DB_SetDowntimeOverride u until d))"
    and clear_override: "P d \<Longrightarrow> P (snd (DB_ClearDowntimeOverride u d))"
    and set_until: "P d \<Longrightarrow> P (snd (DB_SetDowntimeUntil u until d))"
    and clear_until: "P d \<Longrightarrow> P (snd (DB_ClearDowntimeUntil u d))"
    and enabled: "P d \<Longrightarrow> P (snd (DB_SetEnabled u b d))"
    and port: "P d \<Longrightarrow> P (snd (DB_UpdatePort u n d))"
begin

lemma fault: "P d \<Longrightarrow> P (snd (sql_fault d))"
  using faults by (auto simp: sql_fault_def split: list.splits)

lemma fault_eq: "sql_fault d = (b, d') \<Longrightarrow> P d \<Longrightarrow> P d'"
  using fault [of d] by simp

lemma queries:
  assumes "P d"
  shows "P (snd (DB_List now d))" "P (snd (DB_ListPorts d))" "P (snd (DB_PortOwner n d))"
    "P (snd (list_or_nil now d))" "P (snd (DB_ListDeviceTokens d))"
  using assms fault [OF assms]
  by (auto simp: DB_List_def DB_ListPorts_def DB_PortOwner_def list_or_nil_def DB_ListDeviceTokens_def
      split: prod.splits bool.splits option.splits)

lemma device_ops:
  assumes "P d"
  shows "P (snd (DB_CreateDeviceToken cr raw now name d))" "P (snd (DB_ValidateDeviceToken cr now token d))"
    "P (snd (DB_RevokeDeviceToken dev d))"
  using assms fault_eq devices
  by (auto simp: DB_CreateDeviceToken_def DB_ValidateDeviceToken_def DB_RevokeDeviceToken_def Let_def
      split: prod.splits bool.splits option.splits)

lemma set_port: "P d \<Longrightarrow> P (snd (snd (UpdateUserPort order u n h d)))"
  using port [of d u n] by (auto simp: UpdateUserPort_def Let_def split: prod.splits sum.splits)

text \<open>The handlers, one step each.\<close>

text \<open>The name a request may create is one the property allows.\<close>

definition names_ok :: "request \<Rightarrow> bool" where
  "names_ok r \<longleftrightarrow> rq_Path r = ''/api/users'' \<and> rq_Method r = ''POST'' \<longrightarrow>
     (case rq_login r of Some req \<Rightarrow> ok_name (lr_Username req) | None \<Rightarrow> True)"

definition keeps :: "(api \<Rightarrow> response \<times> api) \<Rightarrow> bool" where
  "keeps h \<longleftrightarrow> (\<forall>a. P (a_users a) \<longrightarrow> P (a_users (snd (h a))))"

lemma keepsI: "(\<And>a. P (a_users a) \<Longrightarrow> P (a_users (snd (h a)))) \<Longrightarrow> keeps h"
  by (simp add: keeps_def)

lemma keepsD: "keeps h \<Longrightarrow> P (a_users a) \<Longrightarrow> P (a_users (snd (h a)))"
  by (simp add: keeps_def)

lemma keeps_setters:
  "keeps (handleChangePassword E salt r)" "keeps (handleUpdateDNS r)" "keeps (handleUpdateDowntime r)"
  by (rule keepsI, simp add: handleChangePassword_def handleUpdateDNS_def handleUpdateDowntime_def Let_def password dns schedule
      split: option.split sum.split)+

lemma keeps_list: "keeps (handleListUsers now)"
  by (rule keepsI) (use queries(1) in \<open>auto simp: handleListUsers_def case_prod_beta split: sum.split\<close>)

lemma keeps_listener_setters:
  "keeps (handleSetEnabled E now r)" "keeps (handleDowntimeOverride now r)" "keeps (handleDowntimeNow E now r)"
  by (rule keepsI;
      auto simp: handleSetEnabled_def handleDowntimeOverride_def handleDowntimeNow_def Let_def case_prod_beta
        split: option.splits sum.splits
        intro: queries(4) enabled set_override clear_override set_until clear_until)+

lemma keeps_port: "keeps (handleUpdatePort E order r)"
proof (rule keepsI)
  fix a :: api assume "P (a_users a)"
  then show "P (a_users (snd (handleUpdatePort E order r a)))"
    using queries(3) [of "a_users a"] set_port
    by (auto simp: handleUpdatePort_def Let_def UserPortRange_def case_prod_beta split: option.splits sum.splits)
qed

lemma keeps_users:
  assumes "names_ok r" "rq_Path r = ''/api/users''"
  shows "keeps (handleUsers E now salt order r)"
proof (rule keepsI)
  fix a :: api assume a: "P (a_users a)"
  have "P (a_users (snd (handleCreateUser E now salt order r a)))"
    if "case rq_login r of Some req \<Rightarrow> ok_name (lr_Username req) | None \<Rightarrow> True"
    using a that add set_port
    by (auto simp: handleCreateUser_def Let_def UserPortRange_def case_prod_beta split: option.splits sum.splits)
  moreover have "P (a_users (snd (handleDeleteUser now order r a)))"
    using a queries(4) [OF a] set_port delete
    by (auto simp: handleDeleteUser_def Let_def case_prod_beta split: option.splits sum.splits)
  moreover have "rq_Method r = ''POST'' \<longrightarrow> (case rq_login r of Some req \<Rightarrow> ok_name (lr_Username req) | None \<Rightarrow> True)"
    using assms by (simp only: names_ok_def simp_thms)
  ultimately show "P (a_users (snd (handleUsers E now salt order r a)))"
    using a keepsD [OF keeps_list] by (simp add: handleUsers_def)
qed

lemma keeps_devices: "keeps (handlePair E now rnd r)" "keeps (handleDevices r)"
  by (rule keepsI;
      auto simp: handlePair_def handleDevices_def Let_def case_prod_beta
        split: option.splits sum.splits db_error.splits
        intro: device_ops queries(5))+

lemma keeps_static:
  "keeps (handleLogin E now rnd r)" "keeps (handleLogout E r)" "keeps (handleTestDNS quote look ipstr r)" "keeps (handleEnroll qr now rnd r)"
  "keeps (stats_page r)" "keeps (serveFile f r)" "keeps (\<lambda>a. (resp, a))"
  by (rule keepsI;
      auto simp: handleLogin_def handleLogout_def handleTestDNS_def handleEnroll_def stats_page_def serveFile_def Let_def case_prod_beta
        split: option.splits sum.splits)+

lemma session_users: "a_users (snd (session_ok now r a)) = a_users a"
  by (auto simp: session_ok_def split: option.splits prod.splits)

lemma authed_users: "P (a_users a) \<Longrightarrow> P (a_users (snd (api_authed E now r a)))"
  using device_ops(2) by (auto simp: api_authed_def session_users Let_def case_prod_beta)

lemma keeps_wrapped:
  assumes "keeps (h r)"
  shows "keeps (requireSession E now h r)" "keeps (requireAdminSession now h r)" "keeps (requireSessionPage now h r)"
  by (rule keepsI;
      use keepsD [OF assms] authed_users in
        \<open>auto simp: requireSession_def requireAdminSession_def requireSessionPage_def session_users Let_def case_prod_beta\<close>)+

lemma keeps_if: "(b \<Longrightarrow> keeps f) \<Longrightarrow> keeps g \<Longrightarrow> keeps (\<lambda>a. if b then f a else g a)"
  by (simp add: keeps_def)

theorem keeps_route:
  assumes "names_ok r"
  shows "keeps (admin_route E m r)"
  unfolding admin_route_def Let_def
  by (intro keeps_if keeps_static keeps_devices keeps_wrapped keeps_users [OF assms] keeps_port keeps_setters keeps_listener_setters)

lemma reconcile: "P d \<Longrightarrow> P (snd (reconcileListeners cfg loc now order h d))"
  using queries(2) [of d] by (auto simp: reconcileListeners_def Let_def split: prod.splits sum.splits)

end

text \<open>Coherence of the caches is such a property, for every name.\<close>

lemma coherent_devices: "coherent cr T d \<Longrightarrow> coherent cr T (d\<lparr>device_tbl := t\<rparr>)"
  unfolding coherent_def user_ok_def wf_users_def by simp

interpretation coh: db_inv "coherent cr T" "\<lambda>_. True" for cr T
  by unfold_locales
     (simp_all add: coherent_faults coherent_devices coherent_Add coherent_Delete coherent_ChangePassword coherent_UpdateDNS
        coherent_UpdateDowntime coherent_SetDowntimeOverride coherent_ClearDowntimeOverride coherent_SetDowntimeUntil
        coherent_ClearDowntimeUntil coherent_SetEnabled coherent_UpdatePort)

end
