(* ===== verification/System.thy ===== *)
theory System
  imports Proxy_Props Admin_DB
begin

text \<open>
  The running program: the admin server, the per-user listeners and the proxy handler over one user database.  A step is
  an admin request, a pass of the reconciler, a listener that could not bind, a request on a bound port, the retry of a
  challenged CONNECT or a sweep of the session cache; the theorems hold for every sequence of steps.  A database operation is never split between
  steps; what can happen inside one is the subject of \<open>UserDB_Race\<close>.
\<close>

subsection \<open>State and steps\<close>

text \<open>
  The handler and the admin API hold the same \<open>*userdb.DB\<close>, so the database is one field.  \<open>sm_pending\<close> are the
  challenged CONNECTs whose connections wait for a retry, \<open>sm_log\<close> the admissions so far.
\<close>

record system =
  sm_api :: api
  sm_limiter :: Limiter
  sm_auth :: "string \<rightharpoonup> authSession"
  sm_resolvers :: "string \<rightharpoonup> Resolver"
  sm_pending :: "(px_request \<times> auth_fail) list"
  sm_log :: "admission list"

definition sm_handler :: "system \<Rightarrow> Handler" where
  "sm_handler s = \<lparr>h_db = a_users (sm_api s), h_limiter = sm_limiter s, h_auth = sm_auth s, h_resolvers = sm_resolvers s\<rparr>"

definition sm_put :: "Handler \<Rightarrow> system \<Rightarrow> system" where
  "sm_put h s = s\<lparr>sm_api := (sm_api s)\<lparr>a_users := h_db h\<rparr>, sm_limiter := h_limiter h, sm_auth := h_auth h, sm_resolvers := h_resolvers h\<rparr>"

datatype sys_event =
    AdminCall ambient request
  | ReconcileTick time "int list"
  | BindFailed int nat
  | ProxyCall int "string option" clock hijack px_request
  | ProxyRetry nat "string option" clock "px_request option"
  | SweepTick time

text \<open>One event of the proxy on the shared state.\<close>

definition proxy_step :: "proxy_env \<Rightarrow> px_event \<Rightarrow> system \<Rightarrow> act list \<times> system" where
  "proxy_step E e s =
     (case px_step E e (sm_handler s) of
        (acts, h) \<Rightarrow> (acts, (sm_put h s)\<lparr>sm_log := sm_log s @ px_admits E e (sm_handler s)\<rparr>))"

text \<open>A first CONNECT that is answered with the challenge leaves its connection waiting.\<close>

definition challenged :: "proxy_env \<Rightarrow> string option \<Rightarrow> clock \<Rightarrow> hijack \<Rightarrow> px_request \<Rightarrow> Handler \<Rightarrow> (px_request \<times> auth_fail) list" where
  "challenged E salt ck hj r h = (case connect_first E salt ck hj r h of (_, Some (Inl e), _) \<Rightarrow> [(r, e)] | _ \<Rightarrow> [])"

text \<open>The closure of a per-user server: it puts the owner of the port into the context and dispatches.\<close>

definition listener_serve ::
  "proxy_env \<Rightarrow> Server \<Rightarrow> string option \<Rightarrow> clock \<Rightarrow> hijack \<Rightarrow> px_request \<Rightarrow> system \<Rightarrow> act list \<times> system" where
  "listener_serve E srv salt ck hj r s =
     (let r = r\<lparr>hr_portOwner := srv_owner srv\<rparr>
      in if isPACRequest E r then (servePAC E ck r, s)
         else if hr_Method r = ''CONNECT''
         then (case proxy_step E (EvConnect salt ck hj r) s of
                 (acts, s') \<Rightarrow> (acts, s'\<lparr>sm_pending := sm_pending s @ challenged E salt ck hj r (sm_handler s)\<rparr>))
         else proxy_step E (EvForward salt ck r) s)"

fun system_exec :: "api_env \<Rightarrow> proxy_env \<Rightarrow> sys_event \<Rightarrow> system \<Rightarrow> act list \<times> system" where
  "system_exec A E (AdminCall m r) s = ([], s\<lparr>sm_api := snd (admin_route A m r (sm_api s))\<rparr>)"
| "system_exec A E (ReconcileTick now order) s =
     (case reconcileListeners (ae_cfg A) (ae_loc A) now order (a_ports (sm_api s)) (a_users (sm_api s)) of
        (h, d) \<Rightarrow> ([], s\<lparr>sm_api := (sm_api s)\<lparr>a_ports := h, a_users := d\<rparr>\<rparr>))"
| "system_exec A E (BindFailed p i) s = ([], s\<lparr>sm_api := (sm_api s)\<lparr>a_ports := listen_failed p i (a_ports (sm_api s))\<rparr>\<rparr>)"
| "system_exec A E (ProxyCall p salt ck hj r) s =
     (case userServers (a_ports (sm_api s)) p of
        None \<Rightarrow> ([], s)
      | Some srv \<Rightarrow> listener_serve E srv salt ck hj r s)"
| "system_exec A E (ProxyRetry i salt ck retry) s =
     (if i < length (sm_pending s)
      then (case sm_pending s ! i of
              (r, e) \<Rightarrow> proxy_step E (EvRetry salt ck r e retry)
                (s\<lparr>sm_pending := take i (sm_pending s) @ drop (Suc i) (sm_pending s)\<rparr>))
      else ([], s))"
| "system_exec A E (SweepTick t) s = proxy_step E (EvSweep t) s"

text \<open>
  The inputs a step may be given: map orders are orders of the maps the code ranges over, and no user is created with a
  colon in the name (HTTP basic credentials cannot carry one).
\<close>

definition no_colon :: "string \<Rightarrow> bool" where "no_colon u \<longleftrightarrow> CHR '':'' \<notin> set u"

fun sys_allowed :: "sys_event \<Rightarrow> system \<Rightarrow> bool" where
  "sys_allowed (AdminCall m r) s \<longleftrightarrow> covers (am_order m) (a_ports (sm_api s)) \<and>
     (rq_Path r = ''/api/users'' \<and> rq_Method r = ''POST'' \<longrightarrow>
       (case rq_login r of Some req \<Rightarrow> no_colon (lr_Username req) | None \<Rightarrow> True))"
| "sys_allowed (ReconcileTick now order) s \<longleftrightarrow> distinct order \<and> row_port ` set (users_tbl (a_users (sm_api s))) \<subseteq> set order"
| "sys_allowed _ s \<longleftrightarrow> True"

inductive system_step :: "api_env \<Rightarrow> proxy_env \<Rightarrow> system \<Rightarrow> sys_event \<times> act list \<Rightarrow> system \<Rightarrow> bool" for A E where
  system_step: "sys_allowed e s \<Longrightarrow> system_exec A E e s = (acts, s') \<Longrightarrow> system_step A E s (e, acts) s'"

inductive_simps system_step_iff: "system_step A E s (e, acts) s'"

inductive system_run :: "api_env \<Rightarrow> proxy_env \<Rightarrow> system \<Rightarrow> (sys_event \<times> act list) list \<Rightarrow> system \<Rightarrow> bool" for A E where
  run_start: "system_run A E s [] s"
| run_step: "system_run A E s tr s' \<Longrightarrow> system_step A E s' ev s'' \<Longrightarrow> system_run A E s (tr @ [ev]) s''"

text \<open>Both servers are built from one configuration, one database and one clock.\<close>

definition one_build :: "api_env \<Rightarrow> proxy_env \<Rightarrow> bool" where
  "one_build A E \<longleftrightarrow> pe_cfg E = ae_cfg A \<and> pe_crypto E = ae_crypto A \<and> pe_loc E = ae_loc A"

definition system_new :: "api \<Rightarrow> Limiter \<Rightarrow> system" where
  "system_new a lim = \<lparr>sm_api = a, sm_limiter = lim, sm_auth = Map.empty, sm_resolvers = Map.empty, sm_pending = [], sm_log = []\<rparr>"

subsection \<open>The invariant\<close>

definition names_plain :: "DB \<Rightarrow> bool" where
  "names_plain d \<longleftrightarrow> (\<forall>r\<in>set (users_tbl d). no_colon (row_username r))"

lemma names_plain_cong: "map row_username (users_tbl d') = map row_username (users_tbl d) \<Longrightarrow> names_plain d \<Longrightarrow> names_plain d'"
  unfolding names_plain_def by (metis (no_types, lifting) image_iff list.set_map)

lemma names_plain_password: "names_plain d \<Longrightarrow> names_plain (snd (DB_ChangePassword cr salt u pw d))"
  by (rule names_plain_cong)
     (auto simp: DB_ChangePassword_def sql_update_user_def sql_fault_def Let_def split: option.splits list.splits bool.splits)

lemma names_plain_add: "no_colon u \<Longrightarrow> names_plain d \<Longrightarrow> names_plain (snd (DB_Add cr salt now u pw mn mx d))"
  by (rule Add_cases [of cr salt now u pw mn mx d]) (auto simp: names_plain_def new_row_def)

lemma names_plain_delete: "names_plain d \<Longrightarrow> names_plain (snd (DB_Delete u d))"
  by (auto simp: names_plain_def DB_Delete_def sql_fault_def Let_def split: list.splits bool.splits)

interpretation plain: db_inv names_plain no_colon
  by unfold_locales
     (simp_all add: names_plain_add names_plain_delete names_plain_password names_plain_cong [OF set_dns.names]
        names_plain_cong [OF set_sched.names] names_plain_cong [OF set_override.names] names_plain_cong [OF clear_override.names]
        names_plain_cong [OF set_until.names] names_plain_cong [OF clear_until.names] names_plain_cong [OF set_enabled.names]
        names_plain_cong [OF set_port.names], simp_all add: names_plain_def)

text \<open>
  Listeners and database agree, the caches are coherent, every session entry is what an admission left, and the
  challenged CONNECTs came in on ports of named users.
\<close>

definition system_ok :: "proxy_env \<Rightarrow> time \<Rightarrow> system \<Rightarrow> bool" where
  "system_ok E T s \<longleftrightarrow> sys_ok (sm_api s) \<and> px_ok E T (sm_handler s) (sm_log s) \<and> names_plain (a_users (sm_api s)) \<and>
     (\<forall>(r, e)\<in>set (sm_pending s). plain_name (hr_portOwner r)) \<and>
     (\<forall>i<length (sm_log s). admission_ok (take i (sm_log s)) (sm_log s ! i))"

lemma system_okD:
  assumes "system_ok E T s"
  shows "sys_ok (sm_api s)" "px_ok E T (sm_handler s) (sm_log s)" "names_plain (a_users (sm_api s))"
    "(r, e) \<in> set (sm_pending s) \<Longrightarrow> plain_name (hr_portOwner r)" "coherent (pe_crypto E) T (a_users (sm_api s))"
    "\<forall>i<length (sm_log s). admission_ok (take i (sm_log s)) (sm_log s ! i)"
  using assms by (auto simp: system_ok_def px_ok_def sm_handler_def)

lemma handler_parts [simp]:
  "h_db (sm_handler s) = a_users (sm_api s)" "h_auth (sm_handler s) = sm_auth s"
  "sm_handler (sm_put h s) = h"
  "sm_pending (sm_put h s) = sm_pending s" "sm_log (sm_put h s) = sm_log s"
  "sm_api (sm_put h s) = (sm_api s)\<lparr>a_users := h_db h\<rparr>"
  by (simp_all add: sm_handler_def sm_put_def)

lemma handler_frame [simp]:
  "sm_handler (s\<lparr>sm_pending := ps\<rparr>) = sm_handler s" "sm_handler (s\<lparr>sm_log := l\<rparr>) = sm_handler s"
  by (simp_all add: sm_handler_def)

text \<open>The admin side changes the database behind the handler and nothing else of it.\<close>

lemma px_ok_admin:
  assumes "px_ok E T (sm_handler s) adm" "coherent (pe_crypto E) T (a_users a)"
  shows "px_ok E T (sm_handler (s\<lparr>sm_api := a\<rparr>)) adm"
  using assms by (simp add: px_ok_def sm_handler_def)

lemma system_ok_admin:
  assumes "system_ok E T s" "sys_ok a" "coherent (pe_crypto E) T (a_users a)" "names_plain (a_users a)"
  shows "system_ok E T (s\<lparr>sm_api := a\<rparr>)"
  using assms px_ok_admin [OF system_okD(2) [OF assms(1)] assms(3)] unfolding system_ok_def by simp

text \<open>A bound port belongs to a named user with that port.\<close>

lemma bound_owner:
  assumes "system_ok E T s" "userServers (a_ports (sm_api s)) p = Some srv"
  shows "plain_name (srv_owner srv)"
    "\<exists>x\<in>set (users_tbl (a_users (sm_api s))). row_username x = srv_owner srv \<and> row_port x = p"
proof -
  have m: "listeners_match (a_ports (sm_api s)) (port_of (a_users (sm_api s)))" and wf: "wf_users (a_users (sm_api s))"
    using system_okD(1) [OF assms(1)] by (auto simp: sys_ok_def)
  have "served (a_ports (sm_api s)) p = Some (srv_owner srv)" using assms(2) by (simp add: served_def)
  then have "port_of (a_users (sm_api s)) (srv_owner srv) = Some p" using m by (simp add: listeners_match_def)
  then obtain x where "find_user (srv_owner srv) (a_users (sm_api s)) = Some x" "row_port x = p" by (auto simp: port_of_def)
  then have x: "x \<in> set (users_tbl (a_users (sm_api s)))" "row_username x = srv_owner srv" "row_port x = p"
    using find_user_name by auto
  then show "\<exists>x\<in>set (users_tbl (a_users (sm_api s))). row_username x = srv_owner srv \<and> row_port x = p" by blast
  have "srv_owner srv \<noteq> []" using x(1,2) wf by (force simp: wf_users_def)
  moreover have "no_colon (srv_owner srv)" using system_okD(3) [OF assms(1)] x(1,2) unfolding names_plain_def by metis
  ultimately show "plain_name (srv_owner srv)" by (simp add: plain_name_def no_colon_def)
qed

text \<open>What one event of the proxy does to the database is a credential check, or nothing.\<close>

lemma proxy_db:
  assumes "\<And>d. e \<noteq> EvDatabase d" "px_step E e (sm_handler s) = (acts, h)"
  obtains "h_db h = a_users (sm_api s)"
  | salt now creds where "h_db h = snd (DB_Check (pe_crypto E) salt now creds (a_users (sm_api s)))"
  using step_db [of e E "sm_handler s"] assms by auto

lemma Check_names: "names_plain d \<Longrightarrow> names_plain (snd (DB_Check cr salt now creds d))"
proof (rule names_plain_cong)
  have up: "map row_username (users_tbl (snd (sql_update_user v (\<lambda>r. r\<lparr>row_password_hash := x\<rparr>) d))) = map row_username (users_tbl d)" for v x d
    by (simp add: sql_update_user_def sql_fault_def split: list.splits bool.splits)
  show "map row_username (users_tbl (snd (DB_Check cr salt now creds d))) = map row_username (users_tbl d)"
    using up by (auto simp: DB_Check_def DB_Check_db_def Let_def sql_fault_def split: option.splits prod.splits bool.splits list.splits)
qed

lemma log_snoc:
  assumes "\<forall>i<length l. admission_ok (take i l) (l ! i)" "\<And>a. a \<in> set xs \<Longrightarrow> admission_ok l a" "length xs \<le> 1"
  shows "\<forall>i<length (l @ xs). admission_ok (take i (l @ xs)) ((l @ xs) ! i)"
proof (cases xs)
  case (Cons a ys)
  then have "ys = []" using assms(3) by simp
  then show ?thesis using assms(1,2) Cons by (auto simp: nth_append less_Suc_eq)
qed (use assms(1) in simp)

lemma system_ok_proxy:
  assumes ok: "system_ok E T s" and cr: "argon_ok (pe_crypto E)" and ev: "ev_ok E T e" "\<And>d. e \<noteq> EvDatabase d"
    and st: "proxy_step E e s = (acts, s')"
  shows "system_ok E T s'" "sm_pending s' = sm_pending s"
proof -
  obtain h where px: "px_step E e (sm_handler s) = (acts, h)" using st by (auto simp: proxy_step_def split: prod.splits)
  have s': "s' = (sm_put h s)\<lparr>sm_log := sm_log s @ px_admits E e (sm_handler s)\<rparr>" using st px by (simp add: proxy_step_def)
  then show "sm_pending s' = sm_pending s" by simp
  have h: "sm_handler s' = h" by (simp add: s')
  have px': "px_ok E T (sm_handler s') (sm_log s')"
    using px_ok_step [OF system_okD(2) [OF ok] cr ev(1)] px by (simp add: h s')
  have a': "sm_api s' = (sm_api s)\<lparr>a_users := h_db h\<rparr>" by (simp add: s')
  have db: "sys_ok (sm_api s')" "names_plain (a_users (sm_api s'))"
    by (rule proxy_db [OF ev(2) px]; use system_okD(1,3) [OF ok] in \<open>simp add: a' sys_ok_check Check_names\<close>)+
  have "\<forall>i<length (sm_log s'). admission_ok (take i (sm_log s')) (sm_log s' ! i)"
    using log_snoc [OF system_okD(6) [OF ok], of "px_admits E e (sm_handler s)"] admits_ok [OF system_okD(2) [OF ok] cr ev(1)]
      admits_one [of E e "sm_handler s"] by (simp add: s')
  then show "system_ok E T s'" using px' db ok by (simp add: system_ok_def s')
qed

lemma system_ok_listener:
  assumes ok: "system_ok E T s" and cr: "argon_ok (pe_crypto E)" and plain: "plain_name (srv_owner srv)"
    and st: "listener_serve E srv salt ck hj r s = (acts, s')"
  shows "system_ok E T s'"
proof -
  let ?r = "r\<lparr>hr_portOwner := srv_owner srv\<rparr>"
  obtain a1 s1 where c: "proxy_step E (EvConnect salt ck hj ?r) s = (a1, s1)" by fastforce
  obtain a2 s2 where f: "proxy_step E (EvForward salt ck ?r) s = (a2, s2)" by fastforce
  have "system_ok E T s1" "sm_pending s1 = sm_pending s" using system_ok_proxy [OF ok cr _ _ c] plain by simp_all
  then have "system_ok E T (s1\<lparr>sm_pending := sm_pending s @ challenged E salt ck hj ?r (sm_handler s)\<rparr>)"
    using plain by (auto simp: system_ok_def challenged_def split: prod.splits option.splits sum.splits)
  moreover have "system_ok E T s2" using system_ok_proxy(1) [OF ok cr _ _ f] plain by simp
  ultimately show ?thesis using st ok c f by (simp add: listener_serve_def Let_def split: if_splits)
qed

lemma system_ok_exec:
  assumes ok: "system_ok E T s" and cr: "argon_ok (pe_crypto E)" and b: "one_build A E" and mn: "UserPortMin (ae_cfg A) > 0"
    and al: "sys_allowed e s" and st: "system_exec A E e s = (acts, s')"
  shows "system_ok E T s'"
proof (cases e)
  case (AdminCall m r)
  have "coherent (pe_crypto E) T (a_users (snd (admin_route A m r (sm_api s))))"
    using coh.keepsD [OF coh.keeps_route] system_okD(5) [OF ok] by (simp add: coh.names_ok_def split: option.split)
  moreover have "names_plain (a_users (snd (admin_route A m r (sm_api s))))"
    using plain.keepsD [OF plain.keeps_route] system_okD(3) [OF ok] al by (simp add: AdminCall plain.names_ok_def)
  moreover have "sys_ok (snd (admin_route A m r (sm_api s)))"
    using sys_ok_route [OF system_okD(1) [OF ok] _ mn] al by (simp add: AdminCall)
  ultimately show ?thesis using system_ok_admin [OF ok] st by (auto simp: AdminCall)
next
  case (ReconcileTick now order)
  obtain h d where rec: "reconcileListeners (ae_cfg A) (ae_loc A) now order (a_ports (sm_api s)) (a_users (sm_api s)) = (h, d)"
    by fastforce
  have o: "distinct order" "row_port ` set (users_tbl (a_users (sm_api s))) \<subseteq> set order" using al by (simp_all add: ReconcileTick)
  have d: "d = snd (reconcileListeners (ae_cfg A) (ae_loc A) now order (a_ports (sm_api s)) (a_users (sm_api s)))" using rec by simp
  have "sys_ok ((sm_api s)\<lparr>a_ports := h, a_users := d\<rparr>)" by (rule sys_ok_reconcile(1) [OF system_okD(1) [OF ok] o rec])
  moreover have "coherent (pe_crypto E) T d" "names_plain d"
    using coh.reconcile [OF system_okD(5) [OF ok]] plain.reconcile [OF system_okD(3) [OF ok]] by (simp_all add: d)
  ultimately show ?thesis using system_ok_admin [OF ok] st by (auto simp: ReconcileTick rec)
next
  case (BindFailed p i)
  have "sys_ok ((sm_api s)\<lparr>a_ports := listen_failed p i (a_ports (sm_api s))\<rparr>)"
    using match_listen_failed system_okD(1) [OF ok] by (auto simp: sys_ok_def)
  then show ?thesis using system_ok_admin [OF ok _ _ ] system_okD(3,5) [OF ok] st by (auto simp: BindFailed)
next
  case (ProxyCall p salt ck hj r)
  show ?thesis
  proof (cases "userServers (a_ports (sm_api s)) p")
    case (Some srv)
    then show ?thesis using system_ok_listener [OF ok cr bound_owner(1) [OF ok Some]] st by (simp add: ProxyCall)
  qed (use ok st in \<open>simp add: ProxyCall\<close>)
next
  case (ProxyRetry i salt ck retry)
  show ?thesis
  proof (cases "i < length (sm_pending s)")
    case True
    obtain r er where re: "sm_pending s ! i = (r, er)" by fastforce
    let ?s = "s\<lparr>sm_pending := take i (sm_pending s) @ drop (Suc i) (sm_pending s)\<rparr>"
    have "plain_name (hr_portOwner r)" using system_okD(4) [OF ok] nth_mem [OF True] re by metis
    moreover have "system_ok E T ?s" using ok by (auto simp: system_ok_def dest: in_set_takeD in_set_dropD)
    ultimately show ?thesis using system_ok_proxy(1) [of E T ?s "EvRetry salt ck r er retry"] cr st True re
      by (simp add: ProxyRetry)
  qed (use ok st in \<open>simp add: ProxyRetry\<close>)
next
  case (SweepTick t)
  then show ?thesis using system_ok_proxy(1) [OF ok cr, of "EvSweep t"] st by simp
qed

lemma system_ok_run:
  assumes "system_run A E s tr s'" "system_ok E T s" "argon_ok (pe_crypto E)" "one_build A E" "UserPortMin (ae_cfg A) > 0"
  shows "system_ok E T s'"
  using assms
proof (induction rule: system_run.induct)
  case (run_step s tr s' ev s'')
  then show ?case using system_ok_exec by (cases ev) (auto simp: system_step_iff)
qed simp

lemma system_ok_new:
  assumes "sys_ok a" "coherent (pe_crypto E) T (a_users a)" "names_plain (a_users a)"
  shows "system_ok E T (system_new a lim)"
  using assms by (simp add: system_ok_def system_new_def px_ok_def sm_handler_def)

end
