(* ===== verification/System_Props.thy ===== *)
theory System_Props
  imports System
begin

text \<open>
  The theorems about the running program: every connection the proxy opens has an admission behind it, a pause and the
  deletion of a user take effect with the admin request that orders them, and stay in effect through all traffic.
\<close>

subsection \<open>Traffic needs an admission\<close>

text \<open>Without an admission an event reaches nothing.\<close>

lemma no_admission_no_traffic:
  assumes "px_admits E e h = []"
  shows "list_all (reaches_only P) (fst (px_step E e h))"
proof (cases e)
  case (EvConnect salt ck hj r)
  obtain acts x h1 where f: "connect_first E salt ck hj r h = (acts, x, h1)" by (metis prod_cases3)
  have "list_all (reaches_only P) acts"
    using f by (auto simp: connect_first_def Let_def split: hijack.splits prod.splits if_splits sum.splits)
  then show ?thesis using assms f by (auto simp: EvConnect split: option.splits sum.splits)
next
  case (EvRetry salt ck r er retry)
  show ?thesis
    using assms by (auto simp: EvRetry connect_retry_def Let_def case_prod_beta split: option.splits sum.splits)
next
  case (EvForward salt ck r)
  show ?thesis
    using assms by (auto simp: EvForward handleForward_def Let_def case_prod_beta split: sum.splits if_splits)
qed simp_all

text \<open>The admission of an event carries its time and the owner of its port.\<close>

lemma admission_parts:
  assumes "a \<in> set (px_admits E e h)"
  shows "case e of EvConnect salt ck hj r \<Rightarrow> ad_time a = ck_now ck \<and> ad_owner a = hr_portOwner r
    | EvRetry salt ck r er retry \<Rightarrow> ad_time a = ck_now ck \<and> ad_owner a = hr_portOwner r
    | EvForward salt ck r \<Rightarrow> ad_time a = ck_now ck \<and> ad_owner a = hr_portOwner r
    | _ \<Rightarrow> False"
  using assms by (cases e) (auto simp: Let_def case_prod_beta split: option.splits sum.splits if_splits)

definition bypass_only :: "Config \<Rightarrow> act \<Rightarrow> bool" where
  "bypass_only cfg = reaches_only (\<lambda>host. MITMEnabled cfg \<and> list_ex (in_domain (normalizeHost host)) apple_domains)"

lemma paused_admission_confined:
  assumes ok: "px_ok E T h adm" and cr: "argon_ok (pe_crypto E)" and ev: "ev_ok E T e" and a: "a \<in> set (px_admits E e h)"
    and down: "DB_IsInDowntime (pe_loc E) (ad_time a) (ad_user a) (h_db h)"
  shows "list_all (bypass_only (pe_cfg E)) (fst (px_step E e h))"
proof -
  have u: "ad_user a = ad_owner a" using admits_ok [OF ok cr ev a] by (simp add: admission_ok_def)
  have "list_all (reaches_only (\<lambda>x. MITMEnabled (pe_cfg E) \<and> Passthrough x)) (fst (px_step E e h))"
  proof (cases e)
    case (EvConnect salt ck hj r)
    then have "user_paused E (ck_now ck) (hr_portOwner r) (h_db h)"
      using admission_parts [OF a] down u by (simp add: user_paused_def)
    then show ?thesis using paused_connect [OF ok cr] ev by (simp add: EvConnect paused_reason del: px_step.simps)
  next
    case (EvRetry salt ck r er retry)
    then have "user_paused E (ck_now ck) (hr_portOwner r) (h_db h)"
      using admission_parts [OF a] down u by (simp add: user_paused_def)
    then show ?thesis using paused_retry [OF ok] ev by (simp add: EvRetry paused_reason)
  next
    case (EvForward salt ck r)
    then show ?thesis using paused_forward [OF ok cr] admission_parts [OF a] down u ev by simp
  qed simp_all
  then show ?thesis unfolding bypass_only_def by (rule reaches_mono) (simp add: bypass_domains)
qed

text \<open>An event of the system is an event of the proxy, or opens nothing and admits nobody.\<close>

definition proxy_event_of :: "proxy_env \<Rightarrow> sys_event \<Rightarrow> system \<Rightarrow> px_event option" where
  "proxy_event_of E e s = (case e of
     ProxyCall p salt ck hj r \<Rightarrow>
       (case userServers (a_ports (sm_api s)) p of
          None \<Rightarrow> None
        | Some srv \<Rightarrow>
            let r = r\<lparr>hr_portOwner := srv_owner srv\<rparr>
            in if isPACRequest E r then None
               else if hr_Method r = ''CONNECT'' then Some (EvConnect salt ck hj r) else Some (EvForward salt ck r))
   | ProxyRetry i salt ck retry \<Rightarrow>
       if i < length (sm_pending s) then Some (EvRetry salt ck (fst (sm_pending s ! i)) (snd (sm_pending s ! i)) retry) else None
   | SweepTick t \<Rightarrow> Some (EvSweep t)
   | _ \<Rightarrow> None)"

lemma pac_quiet: "list_all (reaches_only P) (servePAC E ck r)"
  by (simp add: servePAC_def Let_def)

lemma exec_cases:
  assumes "system_exec A E e s = (acts, s')"
  obtains (quiet) "proxy_event_of E e s = None" "sm_log s' = sm_log s" "\<And>P. list_all (reaches_only P) acts"
  | (proxy) pe where "proxy_event_of E e s = Some pe" "acts = fst (px_step E pe (sm_handler s))"
      "sm_log s' = sm_log s @ px_admits E pe (sm_handler s)" "a_users (sm_api s') = h_db (snd (px_step E pe (sm_handler s)))"
proof (cases "proxy_event_of E e s")
  case None
  then have "sm_log s' = sm_log s \<and> list_all (reaches_only P) acts" for P
    using assms pac_quiet
    by (cases e) (auto simp: proxy_event_of_def listener_serve_def Let_def case_prod_beta split: option.splits if_splits)
  then show thesis using quiet None by blast
next
  case (Some pe)
  then have "acts = fst (px_step E pe (sm_handler s)) \<and> sm_log s' = sm_log s @ px_admits E pe (sm_handler s) \<and>
      a_users (sm_api s') = h_db (snd (px_step E pe (sm_handler s)))"
    using assms
    by (cases e) (auto simp: proxy_event_of_def listener_serve_def proxy_step_def Let_def case_prod_beta
        simp del: px_step.simps px_admits.simps split: option.splits if_splits)
  then show thesis using proxy [OF Some] by blast
qed

lemma proxy_event_ok:
  assumes "system_ok E T s" "proxy_event_of E e s = Some pe"
  shows "ev_ok E T pe" "pe \<noteq> EvDatabase d"
proof -
  have "plain_name (hr_portOwner (fst (sm_pending s ! i)))" if "i < length (sm_pending s)" for i
    using system_okD(4) [OF assms(1), of "fst (sm_pending s ! i)" "snd (sm_pending s ! i)"] that by simp
  then show "ev_ok E T pe" "pe \<noteq> EvDatabase d"
    using assms bound_owner(1) [OF assms(1)]
    by (auto simp: proxy_event_of_def Let_def split: sys_event.splits option.splits if_splits)
qed

text \<open>The user an event admits has a row, with the port the request came in on.\<close>

lemma admitted_has_row:
  assumes ok: "system_ok E T s" and cr: "argon_ok (pe_crypto E)" and e: "proxy_event_of E e s = Some pe"
    and a: "a \<in> set (px_admits E pe (sm_handler s))"
  shows "\<exists>x\<in>set (users_tbl (a_users (sm_api s))). row_username x = ad_user a \<and>
    (case e of ProxyCall p salt ck hj r \<Rightarrow> row_port x = p | _ \<Rightarrow> True)"
proof -
  have u: "ad_user a = ad_owner a"
    using admits_ok [OF system_okD(2) [OF ok] cr proxy_event_ok(1) [OF ok e] a] by (simp add: admission_ok_def)
  show ?thesis
  proof (cases e)
    case (ProxyCall p salt ck hj r)
    then obtain srv where srv: "userServers (a_ports (sm_api s)) p = Some srv"
      using e by (auto simp: proxy_event_of_def split: option.splits)
    have "ad_owner a = srv_owner srv"
      using e admission_parts [OF a] srv by (auto simp: ProxyCall proxy_event_of_def Let_def split: if_splits)
    then show ?thesis using bound_owner(2) [OF ok srv] u by (auto simp: ProxyCall)
  next
    case (ProxyRetry i salt ck retry)
    let ?r = "fst (sm_pending s ! i)"
    have pe: "pe = EvRetry salt ck ?r (snd (sm_pending s ! i)) retry"
      using e by (auto simp: ProxyRetry proxy_event_of_def split: if_splits)
    obtain r2 where r2: "retry = Some r2" using a by (cases retry) (auto simp: pe)
    have "fst (check_owner E salt (ck_now ck) (Header_Get (hr_Header r2) ''Proxy-Authorization'') (hr_portOwner ?r) (sm_handler s)) = Inr (ad_user a)"
      using a by (auto simp: pe r2 split: sum.splits)
    from check_owner_keeps(4) [OF prod.collapse [symmetric] this]
    have "find_user (ad_user a) (a_users (sm_api s)) \<noteq> None" using Check_user(1) system_okD(5) [OF ok] by fastforce
    then obtain x where "find_user (ad_user a) (a_users (sm_api s)) = Some x" by blast
    then show ?thesis using find_user_name by (auto simp: ProxyRetry)
  qed (use e a in \<open>auto simp: proxy_event_of_def\<close>)
qed

lemma password_behind:
  assumes "\<forall>i<length l. admission_ok (take i l) (l ! i)" "a \<in> set l"
  shows "\<exists>b\<in>set l. ad_password b \<and> ad_ip b = ad_ip a \<and> ad_user b = ad_user a"
proof -
  obtain i where i: "i < length l" "l ! i = a" using assms(2) by (auto simp: in_set_conv_nth)
  then obtain j where "j \<le> i" "ad_password (l ! j) \<and> ad_ip (l ! j) = ad_ip a \<and> ad_user (l ! j) = ad_user a"
    using password_chain [OF assms(1) i(1)] by blast
  then show ?thesis using i(1) by (intro bexI [of _ "l ! j"]) auto
qed

text \<open>How the program starts: an opened database, listeners that agree with it, no sessions and no admissions yet.\<close>

definition system_start :: "api_env \<Rightarrow> proxy_env \<Rightarrow> time \<Rightarrow> api \<Rightarrow> bool" where
  "system_start A E T a \<longleftrightarrow> sys_ok a \<and> coherent (ae_crypto A) T (a_users a) \<and> names_plain (a_users a) \<and>
     argon_ok (ae_crypto A) \<and> one_build A E \<and> UserPortMin (ae_cfg A) > 0"

lemma started_run_ok:
  assumes "system_start A E T a" "system_run A E (system_new a lim) tr s"
  shows "system_ok E T s" "argon_ok (pe_crypto E)" "one_build A E"
  using assms system_ok_run [OF assms(2) system_ok_new] by (auto simp: system_start_def one_build_def)


subsection \<open>A pause takes effect\<close>

fun is_admin :: "sys_event \<Rightarrow> bool" where
  "is_admin (AdminCall m r) = True"
| "is_admin _ = False"

text \<open>Traffic and reconciler passes change neither who exists nor who is paused.\<close>

lemma Check_keeps_users: "find_user u (snd (DB_Check cr salt now creds d)) = None \<longleftrightarrow> find_user u d = None"
proof -
  have up: "map row_username (users_tbl (snd (sql_update_user v (\<lambda>r. r\<lparr>row_password_hash := x\<rparr>) d))) = map row_username (users_tbl d)" for v x d
    by (simp add: sql_update_user_def sql_fault_def split: list.splits bool.splits)
  have "map row_username (users_tbl (snd (DB_Check cr salt now creds d))) = map row_username (users_tbl d)"
    using up by (auto simp: DB_Check_def DB_Check_db_def Let_def sql_fault_def split: option.splits prod.splits bool.splits list.splits)
  then show ?thesis by (metis find_user_None list.set_map)
qed

lemma reconcile_db: "snd (reconcileListeners cfg loc now order h d) = d\<lparr>sql_faults := tl (sql_faults d)\<rparr>"
  by (cases d) (auto simp: reconcileListeners_def DB_ListPorts_def sql_fault_def Let_def split: list.splits bool.splits)

lemma faults_policy: "DB_IsInDowntime loc t u (d\<lparr>sql_faults := fs\<rparr>) = DB_IsInDowntime loc t u d"
  by (simp add: DB_IsInDowntime_def DB_GetDowntimeUntil_def DB_GetDowntimeOverride_def DB_GetDowntime_def)

lemma traffic_keeps_policy:
  assumes ok: "system_ok E T s" and ex: "system_exec A E e s = (acts, s')" and na: "\<not> is_admin e"
  shows "DB_IsInDowntime loc t u (a_users (sm_api s')) = DB_IsInDowntime loc t u (a_users (sm_api s))"
    "find_user u (a_users (sm_api s')) = None \<longleftrightarrow> find_user u (a_users (sm_api s)) = None"
proof -
  let ?d = "a_users (sm_api s)" and ?d' = "a_users (sm_api s')"
  have "?d' = ?d \<or> (\<exists>fs. ?d' = ?d\<lparr>sql_faults := fs\<rparr>) \<or> (\<exists>cr salt now creds. ?d' = snd (DB_Check cr salt now creds ?d))"
    using ex
  proof (cases rule: exec_cases)
    case quiet
    then show ?thesis
      using ex na
      by (cases e) (auto simp: proxy_event_of_def listener_serve_def Let_def reconcile_db case_prod_beta split: option.splits if_splits)
  next
    case (proxy pe)
    have "?d' = ?d \<or> (\<exists>salt now creds. ?d' = snd (DB_Check (pe_crypto E) salt now creds ?d))"
      using step_db [of pe E "sm_handler s"] proxy_event_ok(2) [OF ok proxy(1)] proxy(4) by simp
    then show ?thesis by blast
  qed
  then show "DB_IsInDowntime loc t u ?d' = DB_IsInDowntime loc t u ?d" "find_user u ?d' = None \<longleftrightarrow> find_user u ?d = None"
    by (auto simp: Check_keeps_policy Check_keeps_users faults_policy)
qed

lemma traffic_run_keeps:
  assumes "system_run A E s tr s'" "list_all (\<lambda>(e, acts). \<not> is_admin e) tr"
    and "system_ok E T s" "argon_ok (pe_crypto E)" "one_build A E" "UserPortMin (ae_cfg A) > 0"
  shows "system_ok E T s' \<and> DB_IsInDowntime loc t u (a_users (sm_api s')) = DB_IsInDowntime loc t u (a_users (sm_api s)) \<and>
    (find_user u (a_users (sm_api s')) = None \<longleftrightarrow> find_user u (a_users (sm_api s)) = None)"
  using assms
proof (induction rule: system_run.induct)
  case (run_step s tr s' ev s'')
  obtain e acts where ev: "ev = (e, acts)" by fastforce
  then have st: "sys_allowed e s'" "system_exec A E e s' = (acts, s'')" "\<not> is_admin e"
    using run_step.hyps(2) run_step.prems(1) by (simp_all add: system_step_iff)
  have IH: "system_ok E T s' \<and> DB_IsInDowntime loc t u (a_users (sm_api s')) = DB_IsInDowntime loc t u (a_users (sm_api s)) \<and>
      (find_user u (a_users (sm_api s')) = None \<longleftrightarrow> find_user u (a_users (sm_api s)) = None)"
    using run_step by simp
  then show ?case
    using system_ok_exec [OF _ run_step.prems(3-5) st(1,2), of T] traffic_keeps_policy [OF _ st(2,3), of T] by auto
qed simp

text \<open>A request that needs authentication and succeeds ran its handler, on the state the check left.\<close>

lemma requireSession_ok:
  assumes "rs_Status (fst (requireSession A now h r a)) = 200"
  obtains a' where "requireSession A now h r a = h r a'" "a' = a \<or> a' = snd (api_authed A now r a)"
  using assms by (auto simp: requireSession_def reply_def Let_def split: prod.splits if_splits)

lemma authed_state:
  assumes "a' = a \<or> a' = snd (api_authed A now r a)" "sys_ok a"
  shows "sys_ok a'" "a_ports a' = a_ports a"
  using assms sys_ok_authed authed_keeps by auto

lemma status_200 [simp]:
  "rs_Status (reply n) = n" "rs_Status (http_Error e n) = n" "rs_Status (db_error_reply x) \<noteq> 200"
  by (auto simp: reply_def http_Error_def db_error_reply_def split: db_error.splits)

lemma downtime_now_effect:
  assumes "rq_Path r = ''/api/users/downtime-now''" "rq_override r = Some \<lparr>or_Username = u, or_DurationMinutes = n\<rparr>" "0 < n"
    and "n * minute \<le> int64_max" "rs_Status (fst (admin_route A m r a)) = 200" "sys_ok a"
  shows "downtimeUntilCache (a_users (snd (admin_route A m r a))) u = Some (am_now m + n * minute)"
    and "\<not> MITMEnabled (ae_cfg A) \<Longrightarrow> served (a_ports (snd (admin_route A m r a))) p \<noteq> Some u"
proof -
  let ?now = "am_now m" and ?t = "am_now m + n * minute"
  have route: "admin_route A m r a = requireSession A ?now (handleDowntimeNow A ?now) r a"
    by (simp add: admin_route_def Let_def assms(1))
  then obtain a' where a': "admin_route A m r a = handleDowntimeNow A ?now r a'" "sys_ok a'"
    using assms(5,6) authed_state by (metis requireSession_ok)
  have w: "minutes_duration n = n * minute"
    using assms(3,4) by (simp add: minutes_duration_def wrap64_in_range int64_min_def minute_def second_def)
  obtain res d where set: "DB_SetDowntimeUntil u ?t (a_users a') = (res, d)" by fastforce
  have nf: "sql_faults (a_users a') = []" "wf_users (a_users a')" using a'(2) by (simp_all add: sys_ok_def)
  have d: "port_of d = port_of (a_users a')" "wf_users d" "sql_faults d = []"
    using port_of_setters(5) [of ?t u "a_users a'"] setter_wf(5) [OF nf(2), of u ?t] setter_faults(5) [OF nf(1), of u ?t] set by auto
  have ok: "res = Inr ()" "rq_Method r = ''PUT''" "u \<noteq> []"
    using assms(2,3,5) set unfolding a'(1)
    by (auto simp: handleDowntimeNow_def w Let_def split: prod.splits sum.splits if_splits)
  let ?us = "fst (list_or_nil ?now d)"
  have eq: "snd (admin_route A m r a) = a'\<lparr>a_users := d, a_ports := (case listed_port u ?us of None \<Rightarrow> a_ports a'
      | Some x \<Rightarrow> StopListener (ae_cfg A) (ui_Port x) (a_ports a'))\<rparr>"
    using assms(2,3) set ok list_or_nil_rows [OF d(3), of ?now] unfolding a'(1)
    by (simp add: handleDowntimeNow_def w Let_def)
  show "downtimeUntilCache (a_users (snd (admin_route A m r a))) u = Some ?t"
    using set ok(1) by (auto simp: eq DB_SetDowntimeUntil_def split: prod.splits option.splits if_splits)
  assume nm: "\<not> MITMEnabled (ae_cfg A)"
  have m: "listeners_match (a_ports a') (port_of d)" using a'(2) d(1) by (simp add: sys_ok_def)
  then have sv: "served (a_ports a') q = Some u \<Longrightarrow> 0 < q \<and> port_of d u = Some q" for q by (simp add: listeners_match_def)
  show "served (a_ports (snd (admin_route A m r a))) p \<noteq> Some u"
  proof (cases "listed_port u ?us")
    case None
    then show ?thesis using listed_port_None [OF d(2,3) None] sv by (force simp: eq)
  next
    case (Some x)
    have "owners_agree (a_ports a')" using m by (simp add: listeners_match_def)
    from stop_agree(2) [OF this] show ?thesis
      using listed_port_Some [OF d(2,3) Some] sv nm by (auto simp: eq Some StopListener_def)
  qed
qed


subsection \<open>A deleted user is locked out\<close>

lemma delete_effect:
  assumes "rq_Path r = ''/api/users''" "rq_Method r = ''DELETE''" "rs_Status (fst (admin_route A m r a)) = 200" "sys_ok a"
  shows "find_user (rq_query r ''username'') (a_users (snd (admin_route A m r a))) = None"
proof -
  let ?u = "rq_query r ''username''"
  have "admin_route A m r a = requireSession A (am_now m) (handleUsers A (am_now m) (am_salt m) (am_order m)) r a"
    by (simp add: admin_route_def Let_def assms(1))
  then obtain a' where a': "admin_route A m r a = handleDeleteUser (am_now m) (am_order m) r a'"
    using assms(2,3) by (auto simp: handleUsers_def elim!: requireSession_ok)
  obtain h d res d' where del: "DB_Delete ?u d = (res, d')"
      "snd (admin_route A m r a) = a'\<lparr>a_users := d', a_ports := h\<rparr>" "res = Inr ()"
    using assms(3) unfolding a'
    by (auto simp: handleDeleteUser_def Let_def split: prod.splits sum.splits if_splits)
  then have "find_user ?u d' = None"
    by (auto simp: DB_Delete_def find_user_def find_None_iff Let_def split: prod.splits bool.splits if_splits)
  then show ?thesis by (simp add: del(2))
qed


subsection \<open>An open session and a new password\<close>

lemma session_authenticates:
  assumes "Header_Get (hr_Header r) ''Proxy-Authorization'' = []" "hr_portOwner r \<noteq> []"
    and "h_auth h (authCacheKey (clientAddr r) (hr_portOwner r)) = Some \<lparr>as_user = hr_portOwner r, as_expires = x\<rparr>" "now < x"
  shows "authenticate E salt now r h = (Inr (hr_portOwner r), h)"
  using assms by (simp add: authenticate_def check_owner_def DB_Check_def checkAuthSession_def Let_def)

lemma password_keeps_ports:
  assumes "rq_Path q = ''/api/users/password''"
  shows "a_ports (snd (admin_route A m q a)) = a_ports a"
proof -
  have h: "a_ports (snd (handleChangePassword A salt q b)) = a_ports b" for salt b
    by (simp add: handleChangePassword_def split: option.split)
  have "admin_route A m q a = requireSession A (am_now m) (handleChangePassword A (am_salt m)) q a"
    by (simp add: admin_route_def Let_def assms)
  then show ?thesis using authed_keeps [of A "am_now m" q a] by (simp add: requireSession_def case_prod_beta h Let_def)
qed

text \<open>
  An open session outlives a change of the password, and each request renews it: a client that keeps sending requests is
  admitted without credentials for as long as it does.
\<close>

theorem session_outlives_password:
  assumes "system_step A E s (AdminCall m q, x) s1" "rq_Path q = ''/api/users/password''"
    and "userServers (a_ports (sm_api s)) p = Some srv" "srv_owner srv \<noteq> []"
    and "sm_auth s (authCacheKey (clientAddr r) (srv_owner srv)) = Some \<lparr>as_user = srv_owner srv, as_expires = t\<rparr>" "ck_now ck < t"
    and "Header_Get (hr_Header r) ''Proxy-Authorization'' = []" "\<not> isPACRequest E r" "hr_Method r \<noteq> ''CONNECT''"
    and "fst (Limiter_Allow (clientAddr r) (ck_now ck) (sm_limiter s))"
  shows "\<exists>acts s2. system_step A E s1 (ProxyCall p salt ck hj r, acts) s2 \<and>
    sm_log s2 = sm_log s1 @ [\<lparr>ad_ip = clientAddr r, ad_owner = srv_owner srv, ad_user = srv_owner srv, ad_time = ck_now ck, ad_password = False\<rparr>] \<and>
    sm_auth s2 (authCacheKey (clientAddr r) (srv_owner srv)) = Some \<lparr>as_user = srv_owner srv, as_expires = ck_now ck + authSessionTTL\<rparr>"
proof -
  let ?r = "r\<lparr>hr_portOwner := srv_owner srv\<rparr>" and ?e = "EvForward salt ck (r\<lparr>hr_portOwner := srv_owner srv\<rparr>)"
  let ?a = "\<lparr>ad_ip = clientAddr r, ad_owner = srv_owner srv, ad_user = srv_owner srv, ad_time = ck_now ck, ad_password = False\<rparr>"
  have s1: "s1 = s\<lparr>sm_api := snd (admin_route A m q (sm_api s))\<rparr>" using assms(1) by (auto simp: system_step_iff)
  have addr: "clientAddr ?r = clientAddr r" "isPACRequest E ?r = isPACRequest E r"
    by (simp_all add: clientAddr_def isPACRequest_def split: option.split)
  have h: "h_auth (sm_handler s1) = sm_auth s" "h_limiter (sm_handler s1) = sm_limiter s" by (simp_all add: s1 sm_handler_def)
  have "authenticate E salt (ck_now ck) ?r (sm_handler s1\<lparr>h_limiter := l\<rparr>) = (Inr (srv_owner srv), sm_handler s1\<lparr>h_limiter := l\<rparr>)" for l
    using session_authenticates [of ?r "sm_handler s1\<lparr>h_limiter := l\<rparr>" t "ck_now ck" E salt] assms(4-7) h(1) addr(1) by simp
  then have adm: "px_admits E ?e (sm_handler s1) = [?a]"
    using assms(7,10) by (simp add: h addr case_prod_beta Let_def)
  obtain acts h2 where px: "px_step E ?e (sm_handler s1) = (acts, h2)" by fastforce
  have auth: "h_auth h2 (authCacheKey (clientAddr r) (srv_owner srv)) = Some \<lparr>as_user = srv_owner srv, as_expires = ck_now ck + authSessionTTL\<rparr>"
    using step_auth [of ?e E "sm_handler s1"] unfolding px adm by (simp add: note_admission_def)
  have "system_exec A E (ProxyCall p salt ck hj r) s1 = (acts, (sm_put h2 s1)\<lparr>sm_log := sm_log s1 @ [?a]\<rparr>)"
    using assms(3,8,9) px adm password_keeps_ports [OF assms(2), of A m "sm_api s"]
    by (simp add: listener_serve_def proxy_step_def addr s1 Let_def del: px_step.simps px_admits.simps)
  then show ?thesis using auth
    by (intro exI [of _ acts] exI [of _ "(sm_put h2 s1)\<lparr>sm_log := sm_log s1 @ [?a]\<rparr>"]) (simp add: system_step_iff sm_put_def)
qed

subsection \<open>Instances\<close>

text \<open>The example user of the proxy with the port bound, and an admin server in demo mode over the same database.\<close>

definition ex_env_admin :: api_env where
  "ex_env_admin = ex_api_env\<lparr>ae_cfg := pe_cfg ex_px, ae_loc := pe_loc ex_px, ae_demoMode := True\<rparr>"

definition ex_running :: api where
  "ex_running = ex_api\<lparr>a_users := ex_db, a_ports := StartListener ''kid'' 3129 no_ports\<rparr>"

definition ex_start :: system where "ex_start = system_new ex_running ex_lim"

lemma ex_db_names: "port_of ex_db = [''kid'' \<mapsto> 3129]" "wf_users ex_db" "names_plain ex_db" "sql_faults ex_db = []"
proof -
  obtain h where e: "ex_db = ex_disk\<lparr>users_tbl := [new_row ''kid'' h 3129 0], enabledCache := [''kid'' \<mapsto> True]\<rparr>"
    by (rule ex_db_row)
  show "port_of ex_db = [''kid'' \<mapsto> 3129]" "wf_users ex_db" "names_plain ex_db" "sql_faults ex_db = []"
    by (auto simp: e port_of_def find_user_def new_row_def wf_users_def names_plain_def no_colon_def ex_disk_def fun_eq_iff)
qed

lemma ex_port_bound: "userServers (a_ports ex_running) 3129 = Some \<lparr>srv_id = 0, srv_port = 3129, srv_owner = ''kid''\<rparr>"
  by (simp add: ex_running_def StartListener_def startListenerLocked_def no_ports_def)

lemma ex_system_start: "system_start ex_env_admin ex_px 0 ex_running"
proof -
  have "listeners_match no_ports (port_of ex_db)"
    by (auto simp: listeners_match_def owners_agree_def ports_unique_def served_def ex_db_names no_ports_def split: if_splits)
  then have "listeners_match (StartListener ''kid'' 3129 no_ports) (port_of ex_db)"
    by (rule match_StartListener) (simp_all add: ex_db_names)
  then have "sys_ok ex_running" by (simp add: sys_ok_def ex_running_def ex_db_names)
  moreover have "UserPortMin (pe_cfg ex_px) > 0" by (simp add: ex_px_def config_from_env_def envInt_def ex_env_def)
  ultimately show ?thesis
    using ex_coherent ex_argon
    by (simp add: system_start_def ex_running_def ex_env_admin_def one_build_def ex_api_env_def ex_db_names)
qed

lemma ex_handler: "sm_handler ex_start = new_handler ex_db ex_lim"
  by (simp add: ex_start_def system_new_def sm_handler_def new_handler_def ex_running_def)

lemma ex_run: "system_run ex_env_admin ex_px (system_new ex_running ex_lim) [] ex_start"
  unfolding ex_start_def by (rule run_start)

text \<open>The request of the example user on the port, in any state in which the password is accepted.\<close>

definition ex_call :: sys_event where "ex_call = ProxyCall 3129 None ex_clk HijackOK ex_req"

definition ex_admission :: admission where
  "ex_admission = \<lparr>ad_ip = clientAddr ex_req, ad_owner = ''kid'', ad_user = ''kid'', ad_time = 5, ad_password = True\<rparr>"

lemma ex_call_step:
  assumes "userServers (a_ports (sm_api s)) 3129 = Some \<lparr>srv_id = i, srv_port = 3129, srv_owner = ''kid''\<rparr>"
    and "sm_handler s = new_handler d ex_lim" "fst (DB_Check ex_crypto None 5 ex_creds d) = Inr ''kid''"
  obtains s' where "system_step A ex_px s (ex_call, fst (handleForward ex_px None ex_clk ex_req (new_handler d ex_lim))) s'"
    "sm_log s' = sm_log s @ [ex_admission]"
proof -
  have r: "ex_req\<lparr>hr_portOwner := ''kid''\<rparr> = ex_req" "\<not> isPACRequest ex_px ex_req" "hr_Method ex_req \<noteq> ''CONNECT''"
    by (simp_all add: ex_req_def isPACRequest_def)
  have adm: "px_admits ex_px ex_event (new_handler d ex_lim) = [ex_admission]"
    using ex_authenticate [OF assms(3), of ex_lim]
    by (simp add: ex_event_def ex_clk_def ex_req_parts ex_creds_parts ex_handler_parts(2,3) Let_def ex_allow ex_admission_def)
  obtain acts h where px: "px_step ex_px ex_event (new_handler d ex_lim) = (acts, h)" by fastforce
  have acts: "acts = fst (handleForward ex_px None ex_clk ex_req (new_handler d ex_lim))" using px by (simp add: ex_event_def)
  have "system_exec A ex_px ex_call s = (acts, (sm_put h s)\<lparr>sm_log := sm_log s @ [ex_admission]\<rparr>)"
    using assms(1,2) px adm r unfolding ex_event_def
    by (simp add: ex_call_def listener_serve_def proxy_step_def Let_def del: px_step.simps px_admits.simps)
  then show thesis
    by (intro that [of "(sm_put h s)\<lparr>sm_log := sm_log s @ [ex_admission]\<rparr>"]) (simp_all add: system_step_iff ex_call_def acts)
qed


text \<open>One minute of downtime for the example user, and its deletion.\<close>

definition ex_order :: ambient where "ex_order = ex_ambient\<lparr>am_order := [3129]\<rparr>"

definition ex_cut_request :: request where
  "ex_cut_request = (ex_request ''PUT'' ''/api/users/downtime-now'')\<lparr>rq_override := Some \<lparr>or_Username = ''kid'', or_DurationMinutes = 1\<rparr>\<rparr>"

definition ex_cut :: DB where "ex_cut = snd (DB_SetDowntimeUntil ''kid'' (60 * 1000000000) ex_db)"

lemma ex_cut_facts:
  "DB_SetDowntimeUntil ''kid'' (60 * 1000000000) ex_db = (Inr (), ex_cut)" "sql_faults ex_cut = []"
  "fst (DB_Check ex_crypto salt 5 ex_creds ex_cut) = Inr ''kid''"
proof (atomize (full), rule ex_db_row)
  fix h
  assume h: "hashPassword (c_idkey ex_crypto) (Some ''salt'') ''pw'' = Some h"
    and e: "ex_db = ex_disk\<lparr>users_tbl := [new_row ''kid'' h 3129 0], enabledCache := [''kid'' \<mapsto> True]\<rparr>"
  have c: "DB_SetDowntimeUntil ''kid'' (60 * 1000000000) ex_db = (Inr (), ex_cut)"
    "ex_cut = ex_disk\<lparr>users_tbl := [(new_row ''kid'' h 3129 0)\<lparr>row_downtime_until := rfc3339_col (60 * 1000000000)\<rparr>],
       enabledCache := [''kid'' \<mapsto> True], downtimeUntilCache := [''kid'' \<mapsto> 60 * 1000000000]\<rparr>"
    by (simp_all add: ex_cut_def e DB_SetDowntimeUntil_def sql_update_user_def sql_fault_def ex_disk_def new_row_def fun_eq_iff)
  moreover have "fst (DB_Check ex_crypto salt 5 ex_creds ex_cut) = Inr ''kid''"
    by (rule ex_check [where r = "(new_row ''kid'' h 3129 0)\<lparr>row_downtime_until := rfc3339_col (60 * 1000000000)\<rparr>"])
       (use h in \<open>simp_all add: c(2) ex_disk_def find_user_def new_row_def\<close>)
  moreover have "sql_faults ex_cut = []" by (simp add: c(2) ex_disk_def)
  ultimately show "DB_SetDowntimeUntil ''kid'' (60 * 1000000000) ex_db = (Inr (), ex_cut) \<and> sql_faults ex_cut = [] \<and>
      fst (DB_Check ex_crypto salt 5 ex_creds ex_cut) = Inr ''kid''" by blast
qed

lemma ex_now: "am_now ex_order = 0"
  by (simp add: ex_order_def ex_ambient_def)

lemma ex_covers: "covers (am_order ex_order) (a_ports ex_running)"
  by (auto simp: covers_def ex_order_def ex_running_def StartListener_def startListenerLocked_def no_ports_def)

lemma ex_cut_route:
  "admin_route ex_env_admin ex_order ex_cut_request ex_running = (reply 200, ex_running\<lparr>a_users := ex_cut\<rparr>)"
proof -
  have m: "minutes_duration 1 = 60 * 1000000000" by (simp add: minutes_duration_def wrap64_def minute_def second_def)
  have stop: "StopListener (ae_cfg ex_env_admin) p h = h" for p h by (simp add: StopListener_def ex_env_admin_def)
  have "admin_route ex_env_admin ex_order ex_cut_request ex_running = handleDowntimeNow ex_env_admin 0 ex_cut_request ex_running"
    by (simp add: admin_route_def requireSession_def ex_cut_request_def ex_request_def ex_order_def ex_ambient_def Let_def ex_env_admin_def)
  also have "\<dots> = (reply 200, ex_running\<lparr>a_users := ex_cut\<rparr>)"
    using ex_cut_facts(1) list_or_nil_rows [OF ex_cut_facts(2), of 0]
    by (simp add: handleDowntimeNow_def ex_cut_request_def ex_request_def m stop ex_running_def Let_def split: option.split)
  finally show ?thesis .
qed


definition ex_delete_request :: request where
  "ex_delete_request = (ex_request ''DELETE'' ''/api/users'')\<lparr>rq_query := (\<lambda>k. if k = ''username'' then ''kid'' else [])\<rparr>"

lemma ex_delete_route: "rs_Status (fst (admin_route ex_env_admin ex_order ex_delete_request ex_running)) = 200"
proof (rule ex_db_row)
  fix h
  assume e: "ex_db = ex_disk\<lparr>users_tbl := [new_row ''kid'' h 3129 0], enabledCache := [''kid'' \<mapsto> True]\<rparr>"
  let ?d = "ex_db\<lparr>users_tbl := [(new_row ''kid'' h 3129 0)\<lparr>row_port := 0\<rparr>]\<rparr>"
  have "DB_UpdatePort ''kid'' 0 ex_db = (Inr (), ?d)"
    by (simp add: e DB_UpdatePort_def sql_update_user_def sql_fault_def ex_disk_def new_row_def)
  then have up: "snd (snd (UpdateUserPort order ''kid'' 0 ports ex_db)) = ?d" for order ports
    by (simp add: UpdateUserPort_def Let_def)
  have del: "fst (DB_Delete ''kid'' x) = Inr ()" if "x \<in> {ex_db, ?d}" for x
    using that by (auto simp: e DB_Delete_def sql_fault_def ex_disk_def new_row_def)
  have u: "a_users ex_running = ex_db" by (simp add: ex_running_def)
  have l: "snd (list_or_nil 0 ex_db) = ex_db" by (simp add: list_or_nil_rows ex_db_names)
  have "admin_route ex_env_admin ex_order ex_delete_request ex_running = handleDeleteUser 0 [3129] ex_delete_request ex_running"
    by (simp add: admin_route_def requireSession_def handleUsers_def ex_delete_request_def ex_request_def ex_order_def ex_ambient_def Let_def
        ex_env_admin_def)
  then show ?thesis
    using up del
    by (simp add: handleDeleteUser_def ex_delete_request_def u l Let_def case_prod_beta split: option.split sum.split)
qed


theorem session_outlives_password_witness:
  "\<exists>s1 acts s2. system_step ex_env_admin ex_px (ex_start\<lparr>sm_auth := [authCacheKey (clientAddr ex_req) ''kid'' \<mapsto> \<lparr>as_user = ''kid'', as_expires = 100\<rparr>]\<rparr>)
       (AdminCall ex_order (ex_request ''PUT'' ''/api/users/password''), []) s1 \<and>
     system_step ex_env_admin ex_px s1 (ProxyCall 3129 None ex_clk HijackOK (ex_req\<lparr>hr_Header := Map.empty\<rparr>), acts) s2 \<and>
     map ad_user (sm_log s2) = [''kid''] \<and> map ad_password (sm_log s2) = [False]"
proof -
  let ?r = "ex_req\<lparr>hr_Header := Map.empty\<rparr>" and ?q = "ex_request ''PUT'' ''/api/users/password''"
  let ?s = "ex_start\<lparr>sm_auth := [authCacheKey (clientAddr ex_req) ''kid'' \<mapsto> \<lparr>as_user = ''kid'', as_expires = 100\<rparr>]\<rparr>"
  define s1 where "s1 = snd (system_exec ex_env_admin ex_px (AdminCall ex_order ?q) ?s)"
  have a: "sm_api ?s = ex_running" "sm_limiter ?s = ex_lim" "sm_log s1 = []" by (simp_all add: s1_def ex_start_def system_new_def)
  have st: "system_step ex_env_admin ex_px ?s (AdminCall ex_order ?q, []) s1"
    using ex_covers by (simp add: system_step_iff a s1_def ex_request_def)
  have c: "clientAddr ?r = clientAddr ex_req" by (simp add: clientAddr_def split: option.split)
  have r: "Header_Get (hr_Header ?r) ''Proxy-Authorization'' = []" "\<not> isPACRequest ex_px ?r" "hr_Method ?r \<noteq> ''CONNECT''"
    by (simp_all add: Header_Get_def isPACRequest_def ex_req_def)
  have "\<exists>acts s2. system_step ex_env_admin ex_px s1 (ProxyCall 3129 None ex_clk HijackOK ?r, acts) s2 \<and>
      sm_log s2 = sm_log s1 @ [\<lparr>ad_ip = clientAddr ?r, ad_owner = ''kid'', ad_user = ''kid'', ad_time = 5, ad_password = False\<rparr>]"
    using session_outlives_password [OF st _ _ _ _ _ r, of 3129 "\<lparr>srv_id = 0, srv_port = 3129, srv_owner = ''kid''\<rparr>" 100 ex_clk None HijackOK]
    by (auto simp: a(1,2) c ex_port_bound ex_handler_parts(4) ex_allow ex_request_def)
  then show ?thesis using st a(3) by fastforce
qed

end
