(* ===== verification/Admin_Auth.thy ===== *)
theory Admin_Auth
  imports AdminApi
begin

text \<open>
  Authentication of the admin server: without a valid session or device token no request changes
  users, devices, enrollment codes or listeners; device management needs the browser session;
  a session is issued only for the right credentials and failed logins per address are bounded.
\<close>

subsection \<open>Nothing changes without authentication\<close>

definition quiet :: "api \<Rightarrow> api \<Rightarrow> bool" where
  "quiet a b \<longleftrightarrow> users_tbl (a_users b) = users_tbl (a_users a) \<and> device_tbl (a_users b) = device_tbl (a_users a) \<and>
     a_ports b = a_ports a \<and> a_enroll b = a_enroll a"

lemma quiet_session: "quiet a (snd (session_ok now r a))"
  by (auto simp: quiet_def session_ok_def split: option.splits prod.splits)

lemma quiet_validate:
  assumes "fst (DB_ValidateDeviceToken cr now token d) = None"
  shows "users_tbl (snd (DB_ValidateDeviceToken cr now token d)) = users_tbl d \<and>
    device_tbl (snd (DB_ValidateDeviceToken cr now token d)) = device_tbl d"
proof -
  obtain fs fl where f: "sql_fault d = (fl, d\<lparr>sql_faults := fs\<rparr>)" by (rule sql_fault_cases)
  show ?thesis using assms
    by (cases fl) (auto simp: DB_ValidateDeviceToken_def Let_def f split: option.splits prod.splits bool.splits)
qed

lemma quiet_authed:
  assumes "\<not> fst (api_authed E now r a)"
  shows "quiet a (snd (api_authed E now r a))" "\<not> fst (session_ok now r a)"
proof -
  let ?x = "DB_ValidateDeviceToken (ae_crypto E) now (TrimPrefix (rq_Authorization r) ''Bearer '') (a_users a)"
  have s: "fst (session_ok now r (a\<lparr>a_users := d\<rparr>)) = fst (session_ok now r a)" for d
    by (auto simp: session_ok_def split: option.splits prod.splits)
  show "\<not> fst (session_ok now r a)"
    using assms s by (auto simp: api_authed_def split: prod.splits if_splits)
  show "quiet a (snd (api_authed E now r a))"
  proof (cases "HasPrefix (rq_Authorization r) ''Bearer ''")
    case True
    then have n: "fst ?x = None" using assms by (auto simp: api_authed_def split: prod.splits if_splits)
    have "quiet a (a\<lparr>a_users := snd ?x\<rparr>)" using quiet_validate [OF n] by (simp add: quiet_def)
    then show ?thesis using True n quiet_session [of "a\<lparr>a_users := snd ?x\<rparr>" now r]
      by (auto simp: api_authed_def quiet_def split: prod.splits)
  next
    case False
    then show ?thesis using quiet_session by (simp add: api_authed_def)
  qed
qed

definition refused :: "api \<Rightarrow> response \<times> api \<Rightarrow> bool" where
  "refused a x \<longleftrightarrow> rs_Status (fst x) \<in> {401, 303} \<and> quiet a (snd x)"

lemma refused_if: "refused a x \<Longrightarrow> refused a y \<Longrightarrow> refused a (if b then x else y)"
  by simp

lemma refused_wrappers:
  assumes "\<not> ae_demoMode E" "\<not> fst (api_authed E now r a)"
  shows "refused a (requireSession E now h r a)" "refused a (requireAdminSession now h r a)"
    "refused a (requireSessionPage now h r a)"
  using assms quiet_authed [OF assms(2)] quiet_session [of a now r]
  by (auto simp: requireSession_def requireAdminSession_def requireSessionPage_def refused_def reply_def
      split: prod.splits)

definition public_path :: "string \<Rightarrow> bool" where
  "public_path p \<longleftrightarrow> p = ''/api/login'' \<or> p = ''/api/logout'' \<or> p = ''/api/pair'' \<or> p = ''/api/version'' \<or> p = ''/login'' \<or>
     HasPrefix p ''/static/''"

lemma route_refused:
  assumes "\<not> ae_demoMode E" "\<not> fst (api_authed E (am_now m) r a)" "\<not> public_path (rq_Path r)"
  shows "refused a (admin_route E m r a)"
proof -
  have p: "(rq_Path r = ''/api/login'') = False" "(rq_Path r = ''/api/logout'') = False" "(rq_Path r = ''/api/pair'') = False"
    "(rq_Path r = ''/api/version'') = False" "(rq_Path r = ''/login'') = False" "HasPrefix (rq_Path r) ''/static/'' = False"
    using assms(3) unfolding public_path_def by blast+
  show ?thesis
    unfolding admin_route_def Let_def p if_False
    by (intro refused_if refused_wrappers [OF assms(1,2)])
qed


text \<open>
  A device token cannot manage devices.  Without a valid browser session the enrollment
  and device pages answer 401 and change nothing, whatever bearer token the request carries, in demo
  mode too: a leaked token can neither mint a replacement nor revoke others.
\<close>

theorem device_management_needs_session:
  assumes "rq_Path r \<in> {''/api/devices/enroll'', ''/api/devices''}" "\<not> fst (session_ok (am_now m) r a)"
  shows "rs_Status (fst (admin_route E m r a)) = 401 \<and> quiet a (snd (admin_route E m r a))"
proof -
  have "admin_route E m r a = requireAdminSession (am_now m) (handleEnroll (am_qr m) (am_now m) (am_rnd m)) r a \<or>
        admin_route E m r a = requireAdminSession (am_now m) handleDevices r a"
    using assms(1) by (auto simp: admin_route_def Let_def)
  moreover have "rs_Status (fst (requireAdminSession (am_now m) h r a)) = 401 \<and>
      quiet a (snd (requireAdminSession (am_now m) h r a))" for h
    using assms(2) quiet_session [of a "am_now m" r]
    by (auto simp: requireAdminSession_def reply_def split: prod.splits)
  ultimately show ?thesis by metis
qed

subsection \<open>Login\<close>

definition login_ip :: "api_env \<Rightarrow> request \<Rightarrow> string" where
  "login_ip E r = clientIP (rq_RemoteAddr r) (rq_XForwardedFor r) (ae_trustedProxies E)"

lemma handleLogin_limiter:
  assumes "rq_Method r = ''POST''"
  shows "a_loginLimiter (snd (handleLogin E now rnd r a)) =
      (if rs_Status (fst (handleLogin E now rnd r a)) = 401
       then Limiter_RecordFailure (login_ip E r) now (snd (Limiter_Allow (login_ip E r) now (a_loginLimiter a)))
       else snd (Limiter_Allow (login_ip E r) now (a_loginLimiter a)))"
    and "rs_Status (fst (handleLogin E now rnd r a)) = 401 \<Longrightarrow>
      fst (Limiter_Allow (login_ip E r) now (a_loginLimiter a))"
  using assms
  by (auto simp: handleLogin_def Let_def reply_def login_ip_def split: prod.splits option.splits sum.splits if_splits)

lemma handleLogin_other:
  "rq_Method r \<noteq> ''POST'' \<Longrightarrow> handleLogin E now rnd r a = (reply 405, a)"
  by (simp add: handleLogin_def)

fun login_fail_times :: "api_env \<Rightarrow> string \<Rightarrow> (time \<times> string \<times> request) list \<Rightarrow> api \<Rightarrow> time list" where
  "login_fail_times E ip [] a = []"
| "login_fail_times E ip ((now, rnd, r) # rest) a =
     (if rs_Status (fst (handleLogin E now rnd r a)) = 401 \<and> login_ip E r = ip then [now] else []) @
     login_fail_times E ip rest (snd (handleLogin E now rnd r a))"

lemma login_fail_bound:
  assumes "limit (a_loginLimiter a) = int (Suc c)" "window (a_loginLimiter a) = w"
    and "length (within w t (limiter_recent (a_loginLimiter a) ip)) \<le> Suc c"
    and "sorted_wrt (\<le>) (t # map fst reqs)" "\<forall>x\<in>set reqs. fst x \<le> now" "t \<le> now"
  shows "length (within w now (limiter_recent (a_loginLimiter a) ip @ login_fail_times E ip reqs a)) \<le> Suc c"
  using assms
proof (induction reqs arbitrary: a t)
  case Nil
  have "within w now (within w t (limiter_recent (a_loginLimiter a) ip)) = within w now (limiter_recent (a_loginLimiter a) ip)"
    using Nil.prems(6) by (rule within_later)
  then have "length (within w now (limiter_recent (a_loginLimiter a) ip)) \<le> length (within w t (limiter_recent (a_loginLimiter a) ip))"
    by (metis length_filter_le within_def)
  then show ?case using Nil.prems(3) by simp
next
  case (Cons q reqs)
  obtain s rnd r where q: "q = (s, rnd, r)" by (cases q) auto
  let ?l = "a_loginLimiter a" and ?a = "snd (handleLogin E s rnd r a)"
  let ?l' = "a_loginLimiter ?a" and ?ip = "login_ip E r" and ?F = "rs_Status (fst (handleLogin E s rnd r a)) = 401"
  have t: "t \<le> s" "s \<le> now" "sorted_wrt (\<le>) (s # map fst reqs)" "\<forall>x\<in>set reqs. fst x \<le> now"
    using Cons.prems(4,5) by (auto simp: q)
  have wf: "limit ?l = int (Suc c) \<and> window ?l = w" using Cons.prems(1,2) by simp
  note wfa = lim.wf_allow [OF wf, of ?ip s]
  have small: "length (within w s (limiter_recent ?l ip)) \<le> Suc c"
    using within_later [OF t(1), of w "limiter_recent ?l ip"] Cons.prems(3)
    by (metis (no_types) length_filter_le within_def order_trans)
  have step: "limit ?l' = int (Suc c) \<and> window ?l' = w \<and>
      (\<forall>u\<ge>s. within w u (limiter_recent ?l' ip) =
         within w u (limiter_recent ?l ip @ (if ?F \<and> ?ip = ip then [s] else []))) \<and>
      (?F \<and> ?ip = ip \<longrightarrow> length (within w s (limiter_recent ?l ip)) < Suc c)"
  proof (cases "rq_Method r = ''POST''")
    case True
    show ?thesis
      using handleLogin_limiter [OF True, of E s rnd a] wfa lim.wf_record [OF wfa]
        lim.record_recent [OF wfa] lim.allow_recent [OF wf] lim.allow_result [OF wf, of ip s]
      by auto
  next
    case False
    then show ?thesis using handleLogin_other [OF False, of E s rnd a] wf by (simp add: reply_def)
  qed
  have le: "length (within w s (limiter_recent ?l' ip)) \<le> Suc c"
  proof (cases "?F \<and> ?ip = ip")
    case True
    have "length (within w s [s]) \<le> 1" by (simp add: within_def)
    then show ?thesis using step True by auto
  next
    case False
    then show ?thesis using step small by auto
  qed
  have "length (within w now (limiter_recent ?l' ip @ login_fail_times E ip reqs ?a)) \<le> Suc c"
    using Cons.IH [of ?a s] step le t by blast
  then show ?case using step t(2) by (simp add: q)
qed



text \<open>
  A session is issued for the right credentials only.  If a login response sets a cookie then
  the request was a POST with the administrator's name and password from an address below its
  limit; the cookie is HttpOnly and SameSite=Strict, Secure as configured, and names a session that
  is accepted until it expires.
\<close>

theorem login_issues_session:
  assumes "rs_Cookie (fst (handleLogin E now rnd r a)) = Some ck"
  shows "rq_Method r = ''POST'' \<and> fst (Limiter_Allow (login_ip E r) now (a_loginLimiter a)) \<and>
     (\<exists>req. rq_login r = Some req \<and> lr_Username req = aa_user (ae_auth E) \<and>
        ae_bcrypt E (aa_bcryptHash (ae_auth E)) (lr_Password req)) \<and>
     ck_HttpOnly ck \<and> ck_SameSiteStrict ck \<and> ck_Secure ck = ae_secureCookies E \<and>
     (\<forall>t. t \<le> now + ss_ttl (a_sessions a) \<longrightarrow>
        fst (SessionStore_Validate (ck_Value ck) t (a_sessions (snd (handleLogin E now rnd r a)))))"
  using assms
  by (auto simp: handleLogin_def Let_def reply_def login_ip_def AdminAuth_Check_def sessionCookieFor_def
      SessionStore_Create_def SessionStore_put_def SessionStore_Validate_def
      split: prod.splits option.splits sum.splits if_splits)

theorem login_issues_session_witness:
  "\<exists>r ck. rs_Cookie (fst (handleLogin ex_api_env 0 ''r'' r ex_api)) = Some ck \<and> ck_HttpOnly ck \<and> ck_Secure ck"
proof -
  let ?r = "(ex_request ''POST'' ''/api/login'')\<lparr>rq_login := Some \<lparr>lr_Username = ''root'', lr_Password = ''secret''\<rparr>\<rparr>"
  have "\<exists>ck. rs_Cookie (fst (handleLogin ex_api_env 0 ''r'' ?r ex_api)) = Some ck"
    by (simp add: handleLogin_def Let_def ex_request_def ex_api_def ex_api_env_def limiter_op_defs
        globalCounter_allow_def newGlobalCounter_def AdminAuth_Check_def reply_def SessionStore_Create_def)
  then obtain ck where "rs_Cookie (fst (handleLogin ex_api_env 0 ''r'' ?r ex_api)) = Some ck" by blast
  then show ?thesis using login_issues_session [of ex_api_env 0 "''r''" ?r ex_api ck] by (auto simp: ex_api_env_def)
qed

subsection \<open>Pairing\<close>




theorem device_management_needs_session_witness:
  "rs_Status (fst (admin_route ex_api_env ex_ambient
     ((ex_request ''POST'' ''/api/devices/enroll'')\<lparr>rq_Authorization := ''Bearer abc''\<rparr>) ex_api)) = 401"
proof -
  let ?r = "(ex_request ''POST'' ''/api/devices/enroll'')\<lparr>rq_Authorization := ''Bearer abc''\<rparr>"
  have "rq_Path ?r \<in> {''/api/devices/enroll'', ''/api/devices''}" by (simp add: ex_request_def)
  moreover have "\<not> fst (session_ok (am_now ex_ambient) ?r ex_api)" by (simp add: session_ok_def ex_request_def)
  ultimately show ?thesis using device_management_needs_session by blast
qed

end
