(* ===== verification/CertCache.thy ===== *)
theory CertCache
  imports Prelude "HOL-Library.Word"
begin

text \<open>
  The leaf-certificate cache of src/pkg/mitm/lru.go: a doubly linked list of elements in order of
  use, and a map from keys to elements.

  The list elements of container/list are heap objects; the model names them by numbers, \<open>cc_order\<close> is
  the list from front to back, \<open>cc_heap\<close> the \<open>*cacheEntry\<close> each element points to and \<open>cc_index\<close> the Go map.
  The counters are 64-bit words.  Every operation runs under the cache's mutex.  The refinement at the end
  forgets the elements: the cache is an association list in order of use.
\<close>

record 'c cacheEntry =
  ce_key :: string
  ce_cert :: 'c

record 'c certCache =
  cc_max :: int
  cc_order :: "nat list"
  cc_heap :: "nat \<Rightarrow> 'c cacheEntry"
  cc_index :: "string \<rightharpoonup> nat"
  cc_next :: nat
  cc_hits :: "64 word"
  cc_misses :: "64 word"

definition newCertCache :: "int \<Rightarrow> (nat \<Rightarrow> 'c cacheEntry) \<Rightarrow> 'c certCache" where
  "newCertCache mx heap =
     (let mx = (if mx < 1 then 1 else mx)
      in \<lparr>cc_max = mx, cc_order = [], cc_heap = heap, cc_index = Map.empty, cc_next = 0,
          cc_hits = 0, cc_misses = 0\<rparr>)"

definition MoveToFront :: "nat \<Rightarrow> nat list \<Rightarrow> nat list" where
  "MoveToFront el order = el # remove1 el order"

definition certCache_get :: "string \<Rightarrow> 'c certCache \<Rightarrow> 'c option \<times> 'c certCache" where
  "certCache_get key c =
     (case cc_index c key of
        None \<Rightarrow> (None, c\<lparr>cc_misses := cc_misses c + 1\<rparr>)
      | Some el \<Rightarrow> (Some (ce_cert (cc_heap c el)),
                    c\<lparr>cc_order := MoveToFront el (cc_order c), cc_hits := cc_hits c + 1\<rparr>))"

text \<open>The eviction loop of \<open>put\<close>; the list cannot be empty in its body, since the bound is at least 1.\<close>

function evict :: "'c certCache \<Rightarrow> 'c certCache" where
  "evict c =
     (if int (length (cc_order c)) > cc_max c \<and> cc_order c \<noteq> []
      then let oldest = last (cc_order c)
           in evict (c\<lparr>cc_order := butlast (cc_order c),
                       cc_index := (cc_index c)(ce_key (cc_heap c oldest) := None)\<rparr>)
      else c)"
  by pat_completeness auto
termination by (relation "measure (\<lambda>c. length (cc_order c))") auto

declare evict.simps [simp del]

definition certCache_put :: "string \<Rightarrow> 'c \<Rightarrow> 'c certCache \<Rightarrow> 'c certCache" where
  "certCache_put key cert c =
     (case cc_index c key of
        Some el \<Rightarrow>
          c\<lparr>cc_heap := (cc_heap c)(el := (cc_heap c el)\<lparr>ce_cert := cert\<rparr>),
            cc_order := MoveToFront el (cc_order c)\<rparr>
      | None \<Rightarrow>
          let el = cc_next c
          in evict (c\<lparr>cc_heap := (cc_heap c)(el := \<lparr>ce_key = key, ce_cert = cert\<rparr>),
                      cc_order := el # cc_order c, cc_index := (cc_index c)(key \<mapsto> el),
                      cc_next := el + 1\<rparr>))"

definition certCache_purge :: "'c certCache \<Rightarrow> 'c certCache" where
  "certCache_purge c = c\<lparr>cc_order := [], cc_index := Map.empty\<rparr>"

definition certCache_len :: "'c certCache \<Rightarrow> int" where
  "certCache_len c = int (length (cc_order c))"

definition certCache_stats :: "'c certCache \<Rightarrow> 64 word \<times> 64 word" where
  "certCache_stats c = (cc_hits c, cc_misses c)"

subsection \<open>The invariant of the linked structure\<close>

definition cache_entries :: "'c certCache \<Rightarrow> (string \<times> 'c) list" where
  "cache_entries c = map (\<lambda>el. (ce_key (cc_heap c el), ce_cert (cc_heap c el))) (cc_order c)"

definition wf_links :: "'c certCache \<Rightarrow> bool" where
  "wf_links c \<longleftrightarrow>
     distinct (cc_order c) \<and> (\<forall>el\<in>set (cc_order c). el < cc_next c) \<and>
     (\<forall>k el. cc_index c k = Some el \<longleftrightarrow> el \<in> set (cc_order c) \<and> ce_key (cc_heap c el) = k)"

definition wf_cache :: "'c certCache \<Rightarrow> bool" where
  "wf_cache c \<longleftrightarrow> wf_links c \<and> 1 \<le> cc_max c \<and> int (length (cc_order c)) \<le> cc_max c"

subsection \<open>The abstract cache\<close>

text \<open>
  An association list, most recently used first, with pairwise different keys.
\<close>

definition lru_touch :: "string \<Rightarrow> (string \<times> 'c) list \<Rightarrow> (string \<times> 'c) list" where
  "lru_touch k xs = (case map_of xs k of None \<Rightarrow> xs | Some v \<Rightarrow> (k, v) # filter (\<lambda>x. fst x \<noteq> k) xs)"

definition lru_put :: "nat \<Rightarrow> string \<Rightarrow> 'c \<Rightarrow> (string \<times> 'c) list \<Rightarrow> (string \<times> 'c) list" where
  "lru_put n k v xs = take n ((k, v) # filter (\<lambda>x. fst x \<noteq> k) xs)"

lemma wf_new: "wf_cache (newCertCache m h)"
  by (simp add: wf_cache_def wf_links_def newCertCache_def Let_def)

lemma wf_purge: "wf_cache c \<Longrightarrow> wf_cache (certCache_purge c)"
  by (simp add: wf_cache_def wf_links_def certCache_purge_def)

lemma wf_index:
  "wf_links c \<Longrightarrow> cc_index c k = Some el \<longleftrightarrow> el \<in> set (cc_order c) \<and> ce_key (cc_heap c el) = k"
  by (simp add: wf_links_def)

lemma wf_key_inj:
  assumes "wf_links c" "el \<in> set (cc_order c)" "el' \<in> set (cc_order c)"
    and "ce_key (cc_heap c el) = ce_key (cc_heap c el')"
  shows "el = el'"
  using assms wf_index by (metis option.inject)

lemma keys_distinct:
  assumes "wf_links c"
  shows "distinct (map fst (cache_entries c))"
proof -
  have "inj_on (\<lambda>el. ce_key (cc_heap c el)) (set (cc_order c))"
    by (rule inj_onI) (rule wf_key_inj [OF assms])
  moreover have "distinct (cc_order c)" using assms by (simp add: wf_links_def)
  ultimately show ?thesis by (simp add: cache_entries_def distinct_map comp_def)
qed

lemma map_of_entries:
  assumes "wf_links c"
  shows "map_of (cache_entries c) k = map_option (\<lambda>el. ce_cert (cc_heap c el)) (cc_index c k)"
proof (cases "cc_index c k")
  case None
  have "k \<notin> fst ` set (cache_entries c)"
  proof
    assume "k \<in> fst ` set (cache_entries c)"
    then obtain el where "el \<in> set (cc_order c)" "ce_key (cc_heap c el) = k" by (auto simp: cache_entries_def)
    then show False using wf_index [OF assms, of k el] None by simp
  qed
  then show ?thesis using None by (simp add: map_of_eq_None_iff)
next
  case (Some el)
  then have el: "el \<in> set (cc_order c)" "ce_key (cc_heap c el) = k" using wf_index [OF assms] by auto
  then have "(k, ce_cert (cc_heap c el)) \<in> set (cache_entries c)" by (auto simp: cache_entries_def)
  then show ?thesis using Some keys_distinct [OF assms] by simp
qed

text \<open>Unlinking an element drops the entry of its key.\<close>

lemma entries_unlink:
  assumes "wf_links c" "el \<in> set (cc_order c)"
  shows "map (\<lambda>e. (ce_key (cc_heap c e), ce_cert (cc_heap c e))) (remove1 el (cc_order c)) =
         filter (\<lambda>x. fst x \<noteq> ce_key (cc_heap c el)) (cache_entries c)"
proof -
  have "remove1 el (cc_order c) = filter (\<lambda>e. el \<noteq> e) (cc_order c)"
    using assms(1) by (simp add: wf_links_def distinct_remove1_removeAll removeAll_filter_not_eq)
  also have "\<dots> = filter (\<lambda>e. ce_key (cc_heap c e) \<noteq> ce_key (cc_heap c el)) (cc_order c)"
    using wf_key_inj [OF assms(1) _ assms(2)] by (intro filter_cong) auto
  finally show ?thesis by (simp add: cache_entries_def filter_map comp_def)
qed

lemma links_MoveToFront:
  assumes "wf_links c" "el \<in> set (cc_order c)"
  shows "wf_links (c\<lparr>cc_order := MoveToFront el (cc_order c)\<rparr>)"
  using assms by (auto simp: wf_links_def MoveToFront_def)

lemma get_refines:
  assumes "wf_cache c"
  shows "wf_cache (snd (certCache_get k c))" "fst (certCache_get k c) = map_of (cache_entries c) k"
    "cache_entries (snd (certCache_get k c)) = lru_touch k (cache_entries c)"
proof -
  have wf: "wf_links c" using assms by (simp add: wf_cache_def)
  note m = map_of_entries [OF wf]
  have "wf_cache (snd (certCache_get k c)) \<and> fst (certCache_get k c) = map_of (cache_entries c) k \<and>
    cache_entries (snd (certCache_get k c)) = lru_touch k (cache_entries c)"
  proof (cases "cc_index c k")
    case None
    have "wf_links (c\<lparr>cc_misses := x\<rparr>)" for x using wf by (simp add: wf_links_def)
    then show ?thesis using None assms m [of k]
      by (simp add: certCache_get_def lru_touch_def wf_cache_def cache_entries_def)
  next
    case (Some el)
    then have el: "el \<in> set (cc_order c)" "ce_key (cc_heap c el) = k" using wf_index [OF wf] by auto
    have "wf_links (c\<lparr>cc_order := MoveToFront el (cc_order c), cc_hits := x\<rparr>)" for x
      using links_MoveToFront [OF wf el(1)] by (simp add: wf_links_def)
    moreover have "0 < length (cc_order c)" using el by auto
    ultimately have "wf_cache (snd (certCache_get k c))" using Some assms el
      by (simp add: certCache_get_def wf_cache_def MoveToFront_def length_remove1)
    then show ?thesis using Some m [of k] entries_unlink [OF wf el(1)] el
      by (simp add: certCache_get_def lru_touch_def cache_entries_def MoveToFront_def)
  qed
  then show "wf_cache (snd (certCache_get k c))" "fst (certCache_get k c) = map_of (cache_entries c) k"
    "cache_entries (snd (certCache_get k c)) = lru_touch k (cache_entries c)" by auto
qed

lemma links_evict_step:
  assumes "wf_links c" "cc_order c \<noteq> []"
  shows "wf_links (c\<lparr>cc_order := butlast (cc_order c),
     cc_index := (cc_index c)(ce_key (cc_heap c (last (cc_order c))) := None)\<rparr>)"
proof -
  have "distinct (butlast (cc_order c) @ [last (cc_order c)])" using assms by (simp add: wf_links_def)
  then have "last (cc_order c) \<notin> set (butlast (cc_order c))" by auto
  moreover have "set (cc_order c) = insert (last (cc_order c)) (set (butlast (cc_order c)))"
    using assms(2) by (metis append_butlast_last_id list.simps(15) rotate1.simps(2) set_rotate1)
  moreover have "ce_key (cc_heap c e) \<noteq> ce_key (cc_heap c (last (cc_order c)))"
    if "e \<in> set (butlast (cc_order c))" for e
    using that calculation wf_key_inj [OF assms(1), of e "last (cc_order c)"] by auto
  ultimately show ?thesis using assms(1) by (auto simp: wf_links_def distinct_butlast)
qed

lemma evict_refines:
  assumes "wf_links c" "1 \<le> cc_max c"
  shows "wf_cache (evict c) \<and> cache_entries (evict c) = take (nat (cc_max c)) (cache_entries c) \<and>
    cc_max (evict c) = cc_max c"
  using assms
proof (induction c rule: evict.induct)
  case (1 c)
  let ?c = "c\<lparr>cc_order := butlast (cc_order c),
     cc_index := (cc_index c)(ce_key (cc_heap c (last (cc_order c))) := None)\<rparr>"
  show ?case
  proof (cases "int (length (cc_order c)) > cc_max c \<and> cc_order c \<noteq> []")
    case True
    have "wf_cache (evict ?c) \<and> cache_entries (evict ?c) = take (nat (cc_max ?c)) (cache_entries ?c) \<and>
        cc_max (evict ?c) = cc_max ?c"
      using 1 True links_evict_step [OF 1(2)] by simp
    moreover have "cache_entries ?c = take (length (cc_order c) - 1) (cache_entries c)"
      by (simp add: cache_entries_def butlast_conv_take take_map)
    moreover have "nat (cc_max c) \<le> length (cc_order c) - 1" using True by linarith
    ultimately show ?thesis using True by (simp add: evict.simps [of c] Let_def min_absorb1)
  next
    case False
    then have "int (length (cc_order c)) \<le> cc_max c" using 1(3) by auto
    then show ?thesis using False 1(2,3) by (simp add: evict.simps [of c] wf_cache_def cache_entries_def)
  qed
qed

lemma put_refines:
  assumes "wf_cache c"
  shows "wf_cache (certCache_put k v c) \<and>
    cache_entries (certCache_put k v c) = lru_put (nat (cc_max c)) k v (cache_entries c) \<and>
    cc_max (certCache_put k v c) = cc_max c"
proof -
  have wf: "wf_links c" "1 \<le> cc_max c" "int (length (cc_order c)) \<le> cc_max c" using assms by (auto simp: wf_cache_def)
  show ?thesis
  proof (cases "cc_index c k")
    case None
    let ?el = "cc_next c"
    let ?c = "c\<lparr>cc_heap := (cc_heap c)(?el := \<lparr>ce_key = k, ce_cert = v\<rparr>), cc_order := ?el # cc_order c,
        cc_index := (cc_index c)(k \<mapsto> ?el), cc_next := ?el + 1\<rparr>"
    have new: "?el \<notin> set (cc_order c)" using wf(1) by (auto simp: wf_links_def)
    have key: "ce_key (cc_heap c e) \<noteq> k" if "e \<in> set (cc_order c)" for e
      using that None wf_index [OF wf(1), of k e] by auto
    have "wf_links ?c" using wf(1) new key by (auto simp: wf_links_def)
    moreover have "cache_entries ?c = (k, v) # filter (\<lambda>x. fst x \<noteq> k) (cache_entries c)"
    proof -
      have "map (\<lambda>e. (ce_key (((cc_heap c)(?el := \<lparr>ce_key = k, ce_cert = v\<rparr>)) e),
            ce_cert (((cc_heap c)(?el := \<lparr>ce_key = k, ce_cert = v\<rparr>)) e))) (cc_order c) = cache_entries c"
        using new by (auto simp: cache_entries_def)
      moreover have "filter (\<lambda>x. fst x \<noteq> k) (cache_entries c) = cache_entries c"
        using key by (auto simp: cache_entries_def filter_id_conv)
      ultimately show ?thesis by (simp add: cache_entries_def)
    qed
    ultimately show ?thesis using None evict_refines [of ?c] wf
      by (simp add: certCache_put_def lru_put_def Let_def)
  next
    case (Some el)
    then have el: "el \<in> set (cc_order c)" "ce_key (cc_heap c el) = k" using wf_index [OF wf(1)] by auto
    let ?c = "c\<lparr>cc_heap := (cc_heap c)(el := (cc_heap c el)\<lparr>ce_cert := v\<rparr>), cc_order := MoveToFront el (cc_order c)\<rparr>"
    have len: "length (MoveToFront el (cc_order c)) = length (cc_order c)"
      using el(1) length_pos_if_in_set [OF el(1)] by (simp add: MoveToFront_def length_remove1)
    have "wf_links ?c" using links_MoveToFront [OF wf(1) el(1)] by (auto simp: wf_links_def)
    moreover have "cache_entries ?c = (k, v) # filter (\<lambda>x. fst x \<noteq> k) (cache_entries c)"
    proof -
      have "el \<notin> set (remove1 el (cc_order c))" using wf(1) by (simp add: wf_links_def)
      then have "map (\<lambda>e. (ce_key (((cc_heap c)(el := (cc_heap c el)\<lparr>ce_cert := v\<rparr>)) e),
            ce_cert (((cc_heap c)(el := (cc_heap c el)\<lparr>ce_cert := v\<rparr>)) e))) (remove1 el (cc_order c))
          = map (\<lambda>e. (ce_key (cc_heap c e), ce_cert (cc_heap c e))) (remove1 el (cc_order c))" by auto
      then show ?thesis using entries_unlink [OF wf(1) el(1)] el(2) by (simp add: cache_entries_def MoveToFront_def)
    qed
    moreover have "length (cache_entries ?c) \<le> nat (cc_max c)" using wf(3) len by (simp add: cache_entries_def)
    ultimately show ?thesis using Some wf len by (simp add: certCache_put_def lru_put_def wf_cache_def)
  qed
qed

subsection \<open>The interface of a leaf cache\<close>

text \<open>
  What the certificate authority relies on: a hit is what was last stored, nothing is invented,
  a purge forgets everything.
\<close>

locale leaf_cache =
  fixes get :: "string \<Rightarrow> 's \<Rightarrow> 'c option \<times> 's"
    and put :: "string \<Rightarrow> 'c \<Rightarrow> 's \<Rightarrow> 's"
    and purge :: "'s \<Rightarrow> 's"
    and look :: "'s \<Rightarrow> string \<Rightarrow> 'c option"
    and wf :: "'s \<Rightarrow> bool"
  assumes get_result: "wf c \<Longrightarrow> fst (get k c) = look c k"
    and get_look: "wf c \<Longrightarrow> look (snd (get k c)) k' = look c k'"
    and put_same: "wf c \<Longrightarrow> look (put k v c) k = Some v"
    and put_other: "wf c \<Longrightarrow> k' \<noteq> k \<Longrightarrow> look (put k v c) k' \<in> {None, look c k'}"
    and purge_look: "look (purge c) k = None"
    and wf_ops: "wf c \<Longrightarrow> wf (snd (get k c))" "wf c \<Longrightarrow> wf (put k v c)" "wf c \<Longrightarrow> wf (purge c)"
begin

definition holds :: "(string \<Rightarrow> 'c \<Rightarrow> bool) \<Rightarrow> 's \<Rightarrow> bool" where
  "holds Q c \<longleftrightarrow> wf c \<and> (\<forall>k v. look c k = Some v \<longrightarrow> Q k v)"

lemma holds_get: "holds Q c \<Longrightarrow> holds Q (snd (get k c))"
  using wf_ops(1) get_look by (simp add: holds_def)

lemma holds_put:
  assumes "holds Q c" "Q k v"
  shows "holds Q (put k v c)"
proof -
  have "Q k' v'" if v': "look (put k v c) k' = Some v'" for k' v'
  proof (cases "k' = k")
    case True
    then show ?thesis using assms v' put_same by (simp add: holds_def)
  next
    case False
    then have "look (put k v c) k' \<in> {None, look c k'}" using put_other assms(1) by (simp add: holds_def)
    then show ?thesis using v' assms(1) by (auto simp: holds_def)
  qed
  then show ?thesis using assms(1) wf_ops(2) by (simp add: holds_def)
qed

lemma holds_purge: "holds Q c \<Longrightarrow> holds R (purge c)"
  using wf_ops(3) purge_look by (simp add: holds_def)

lemma holds_hit: "holds Q c \<Longrightarrow> fst (get k c) = Some v \<Longrightarrow> Q k v"
  using get_result by (simp add: holds_def)

end

definition cache_look :: "'c certCache \<Rightarrow> string \<Rightarrow> 'c option" where
  "cache_look c k = map_of (cache_entries c) k"

lemma map_of_filter_other: "map_of (filter (\<lambda>x. fst x \<noteq> k) xs) k' = (if k' = k then None else map_of xs k')"
  by (induction xs) auto

lemma map_of_take: "distinct (map fst xs) \<Longrightarrow> map_of (take n xs) k \<in> {None, map_of xs k}"
proof (induction xs arbitrary: n)
  case (Cons x xs)
  then show ?case by (cases n) auto
qed simp

lemma lru_touch_look: "map_of (lru_touch k xs) k' = map_of xs k'"
  by (simp add: lru_touch_def map_of_filter_other split: option.splits)

lemma lru_put_look:
  assumes "distinct (map fst xs)" "1 \<le> n"
  shows "map_of (lru_put n k v xs) k = Some v" "k' \<noteq> k \<Longrightarrow> map_of (lru_put n k v xs) k' \<in> {None, map_of xs k'}"
proof -
  obtain m where m: "n = Suc m" using assms(2) by (cases n) auto
  show "map_of (lru_put n k v xs) k = Some v" by (simp add: lru_put_def m)
  have "distinct (map fst (filter (\<lambda>x. fst x \<noteq> k) xs))" using assms(1) by (simp add: distinct_map_filter)
  then show "k' \<noteq> k \<Longrightarrow> map_of (lru_put n k v xs) k' \<in> {None, map_of xs k'}"
    using map_of_take [of "filter (\<lambda>x. fst x \<noteq> k) xs" m k'] by (simp add: lru_put_def m map_of_filter_other)
qed

interpretation lru: leaf_cache certCache_get certCache_put certCache_purge cache_look wf_cache
proof unfold_locales
  fix c :: "'a certCache" and k k' :: string and v :: 'a
  assume wf: "wf_cache c"
  then have d: "distinct (map fst (cache_entries c))" "1 \<le> nat (cc_max c)"
    using keys_distinct by (auto simp: wf_cache_def)
  show "fst (certCache_get k c) = cache_look c k" "cache_look (snd (certCache_get k c)) k' = cache_look c k'"
    by (simp_all add: cache_look_def get_refines [OF wf] lru_touch_look)
  show "cache_look (certCache_put k v c) k = Some v"
    "k' \<noteq> k \<Longrightarrow> cache_look (certCache_put k v c) k' \<in> {None, cache_look c k'}"
    unfolding cache_look_def using put_refines [OF wf, of k v] lru_put_look [OF d] by simp_all
  show "wf_cache (snd (certCache_get k c))" "wf_cache (certCache_put k v c)" "wf_cache (certCache_purge c)"
    using get_refines(1) [OF wf] put_refines [OF wf] wf_purge [OF wf] by auto
next
  fix c :: "'a certCache" and k
  show "cache_look (certCache_purge c) k = None"
    by (simp add: cache_look_def certCache_purge_def cache_entries_def)
qed

subsection \<open>Any history of the cache\<close>

datatype 'c cache_op = CacheGet string | CachePut string 'c | CachePurge

fun cache_step :: "'c cache_op \<Rightarrow> 'c certCache \<Rightarrow> 'c certCache" where
  "cache_step (CacheGet k) c = snd (certCache_get k c)"
| "cache_step (CachePut k v) c = certCache_put k v c"
| "cache_step CachePurge c = certCache_purge c"

fun lru_step :: "nat \<Rightarrow> 'c cache_op \<Rightarrow> (string \<times> 'c) list \<Rightarrow> (string \<times> 'c) list" where
  "lru_step n (CacheGet k) xs = lru_touch k xs"
| "lru_step n (CachePut k v) xs = lru_put n k v xs"
| "lru_step n CachePurge xs = []"

lemma evict_counters: "cc_hits (evict c) = cc_hits c \<and> cc_misses (evict c) = cc_misses c"
proof (induction c rule: evict.induct)
  case (1 c)
  then show ?case by (simp add: evict.simps [of c] Let_def)
qed

lemma step_refines:
  assumes "wf_cache c"
  shows "wf_cache (cache_step e c) \<and> cache_entries (cache_step e c) = lru_step (nat (cc_max c)) e (cache_entries c) \<and>
    cc_max (cache_step e c) = cc_max c \<and> cc_hits (cache_step e c) + cc_misses (cache_step e c) =
      cc_hits c + cc_misses c + (case e of CacheGet _ \<Rightarrow> 1 | _ \<Rightarrow> 0)"
proof (cases e)
  case (CacheGet k)
  then show ?thesis using get_refines [OF assms, of k] by (auto simp: certCache_get_def split: option.splits)
next
  case (CachePut k v)
  have "cc_hits (certCache_put k v c) = cc_hits c \<and> cc_misses (certCache_put k v c) = cc_misses c"
    by (simp add: certCache_put_def evict_counters Let_def split: option.splits)
  then show ?thesis using CachePut put_refines [OF assms, of k v] by simp
next
  case CachePurge
  then show ?thesis using wf_purge [OF assms] by (simp add: certCache_purge_def cache_entries_def)
qed

lemma run_refines:
  assumes "wf_cache c"
  shows "wf_cache (fold cache_step ops c) \<and>
    cache_entries (fold cache_step ops c) = fold (lru_step (nat (cc_max c))) ops (cache_entries c) \<and>
    cc_max (fold cache_step ops c) = cc_max c \<and>
    cc_hits (fold cache_step ops c) + cc_misses (fold cache_step ops c) =
      cc_hits c + cc_misses c + of_nat (length (filter (\<lambda>e. case e of CacheGet _ \<Rightarrow> True | _ \<Rightarrow> False) ops))"
  using assms
proof (induction ops arbitrary: c)
  case (Cons e ops)
  note st = step_refines [OF Cons.prems, of e]
  then show ?case using Cons.IH [of "cache_step e c"] by (cases e) (auto simp: algebra_simps)
qed simp

text \<open>
  C14. The linked list and the map implement an LRU cache.  After any sequence of lookups,
  insertions and purges the linked structure is intact, its entries in order of use are those of the
  abstract cache that keeps the most recently used keys, there are at most as many as the bound, a
  lookup answers what the abstract cache holds, and the two counters together have counted every lookup (modulo \<open>2\<^sup>6\<^sup>4\<close>).
\<close>

theorem certCache_refines_lru:
  "let n = nat (if mx < 1 then 1 else mx);
       c = fold cache_step ops (newCertCache mx h);
       xs = fold (lru_step n) ops []
   in cache_entries c = xs \<and> fst (certCache_get k c) = map_of xs k \<and> certCache_len c \<le> int n \<and>
      fst (certCache_stats c) + snd (certCache_stats c) =
        of_nat (length (filter (\<lambda>e. case e of CacheGet _ \<Rightarrow> True | _ \<Rightarrow> False) ops))"
proof -
  define n where "n = nat (if mx < 1 then 1 else mx)"
  define c where "c = fold cache_step ops (newCertCache mx h)"
  have m: "cc_max (newCertCache mx h) = int n" "cache_entries (newCertCache mx h) = []"
    "cc_hits (newCertCache mx h) = 0" "cc_misses (newCertCache mx h) = 0"
    by (simp_all add: newCertCache_def n_def Let_def cache_entries_def)
  note r = run_refines [OF wf_new, of ops mx h, unfolded m, folded c_def]
  then have w: "wf_cache c" "cc_max c = int n" by simp_all
  then have "certCache_len c \<le> int n" by (simp add: certCache_len_def wf_cache_def)
  then show ?thesis using r get_refines(2) [OF w(1), of k]
    unfolding Let_def n_def [symmetric] c_def [symmetric] by (simp add: certCache_stats_def)
qed

end
