(* ===== verification/MitmCA.thy ===== *)
theory MitmCA
  imports Bypass CertCache
begin

unbundle bit_operations_syntax

text \<open>
  The certificate authority of the block page: src/pkg/mitm/ca.go and mint.go.

  The standard library's cryptography is a parameter (\<open>pki\<close>): key comparison, certificate signing,
  PEM and DER parsing.  A signer and a public key are opaque names.  A key generation, a serial number
  or a file read that can fail is an optional input.  The sections of \<open>certFor\<close> that run under one lock are
  separate definitions, so that the interleavings with \<open>Rotate\<close> can be stated.
\<close>

record x509_cert =
  xc_Raw :: string
  xc_IsCA :: bool
  xc_KeyUsage :: int
  xc_PublicKey :: string
  xc_CommonName :: string

record signer =
  sg_key :: string
  sg_Public :: string

text \<open>The fields of the leaf template that the code sets.\<close>

record leaf_template =
  lt_SerialNumber :: nat
  lt_CommonName :: string
  lt_NotBefore :: time
  lt_NotAfter :: time
  lt_KeyUsage :: int
  lt_ExtKeyUsage :: "string list"
  lt_BasicConstraintsValid :: bool
  lt_IPAddresses :: "IP list"
  lt_DNSNames :: "string list"

record tls_cert =
  tc_Certificate :: "string list"
  tc_PrivateKey :: signer
  tc_Leaf :: "leaf_template option"

datatype parsed_key = KeyParseError | KeyNotSigner | KeySigner signer

record pki =
  pk_Equal :: "string \<Rightarrow> string \<Rightarrow> bool option"
  pk_CreateCertificate :: "leaf_template \<Rightarrow> x509_cert \<Rightarrow> string \<Rightarrow> signer \<Rightarrow> string option"
  pk_PemDecode :: "string \<Rightarrow> (string \<times> string) option"
  pk_ParseCertificate :: "string \<Rightarrow> x509_cert option"
  pk_ParseECPrivateKey :: "string \<Rightarrow> parsed_key"
  pk_ParsePKCS8PrivateKey :: "string \<Rightarrow> parsed_key"
  pk_ParsePKCS1PrivateKey :: "string \<Rightarrow> parsed_key"

datatype ca_error =
  NilCertificate | NilKey | NotCA string | LacksCertSign string | KeyMismatch string | GeneratingLeafKey
| ReadingCert | ReadingKey | CertNotPEM | ExpectedCertificate string | ParsingCert
| KeyNotPEM | UnsupportedKeyBlock string | ParsingKey | KeyCannotSign
| RotateNeedsBoth | RotateNotSigningCA string | RotateKeyMismatch string
| GeneratingSerial | SigningLeaf string

subsection \<open>Options and construction\<close>

record mitm_Options =
  mo_LeafTTL :: duration
  mo_CacheSize :: int

definition DefaultLeafTTL :: duration where "DefaultLeafTTL = 7 * 24 * hour"
definition DefaultCacheSize :: int where "DefaultCacheSize = 1000"

definition withDefaults :: "mitm_Options \<Rightarrow> mitm_Options" where
  "withDefaults o1 =
     (let o2 = (if mo_LeafTTL o1 \<le> 0 then o1\<lparr>mo_LeafTTL := DefaultLeafTTL\<rparr> else o1)
      in if mo_CacheSize o2 \<le> 0 then o2\<lparr>mo_CacheSize := DefaultCacheSize\<rparr> else o2)"

record CA =
  ca_cert :: x509_cert
  ca_certDER :: string
  ca_key :: signer
  ca_gen :: "64 word"
  ca_leafKey :: signer
  ca_cache :: "tls_cert certCache"
  ca_opts :: mitm_Options

definition KeyUsageCertSign :: int where "KeyUsageCertSign = 32"

definition publicKeysEqual :: "pki \<Rightarrow> string \<Rightarrow> string \<Rightarrow> bool" where
  "publicKeysEqual P a b = (case pk_Equal P a b of Some e \<Rightarrow> e | None \<Rightarrow> False)"

text \<open>\<open>heap\<close> is the content of not yet allocated list elements; nothing depends on it.\<close>

definition NewCA ::
  "pki \<Rightarrow> (nat \<Rightarrow> tls_cert cacheEntry) \<Rightarrow> signer option \<Rightarrow> x509_cert option \<Rightarrow> signer option \<Rightarrow> mitm_Options \<Rightarrow> ca_error + CA" where
  "NewCA P heap leafKey cert key opts =
     (case cert of
        None \<Rightarrow> Inl NilCertificate
      | Some cert \<Rightarrow>
        (case key of
           None \<Rightarrow> Inl NilKey
         | Some key \<Rightarrow>
             if \<not> xc_IsCA cert then Inl (NotCA (xc_CommonName cert))
             else if xc_KeyUsage cert AND KeyUsageCertSign = 0 then Inl (LacksCertSign (xc_CommonName cert))
             else if \<not> publicKeysEqual P (sg_Public key) (xc_PublicKey cert)
             then Inl (KeyMismatch (xc_CommonName cert))
             else (case leafKey of
                     None \<Rightarrow> Inl GeneratingLeafKey
                   | Some leafKey \<Rightarrow>
                       let opts = withDefaults opts
                       in Inr \<lparr>ca_cert = cert, ca_certDER = xc_Raw cert, ca_key = key, ca_gen = 0,
                               ca_leafKey = leafKey, ca_cache = newCertCache (mo_CacheSize opts) heap,
                               ca_opts = opts\<rparr>)))"

definition parseCertPEM :: "pki \<Rightarrow> string \<Rightarrow> ca_error + x509_cert" where
  "parseCertPEM P certPEM =
     (case pk_PemDecode P certPEM of
        None \<Rightarrow> Inl CertNotPEM
      | Some (ty, bs) \<Rightarrow>
          if ty \<noteq> ''CERTIFICATE'' then Inl (ExpectedCertificate ty)
          else (case pk_ParseCertificate P bs of None \<Rightarrow> Inl ParsingCert | Some c \<Rightarrow> Inr c))"

definition parseKeyPEM :: "pki \<Rightarrow> string \<Rightarrow> ca_error + signer" where
  "parseKeyPEM P keyPEM =
     (case pk_PemDecode P keyPEM of
        None \<Rightarrow> Inl KeyNotPEM
      | Some (ty, bs) \<Rightarrow>
          if ty \<notin> {''EC PRIVATE KEY'', ''PRIVATE KEY'', ''RSA PRIVATE KEY''} then Inl (UnsupportedKeyBlock ty)
          else (case (if ty = ''EC PRIVATE KEY'' then pk_ParseECPrivateKey P bs
                      else if ty = ''PRIVATE KEY'' then pk_ParsePKCS8PrivateKey P bs
                      else pk_ParsePKCS1PrivateKey P bs) of
                  KeyParseError \<Rightarrow> Inl ParsingKey
                | KeyNotSigner \<Rightarrow> Inl KeyCannotSign
                | KeySigner s \<Rightarrow> Inr s))"

definition ParseCA ::
  "pki \<Rightarrow> (nat \<Rightarrow> tls_cert cacheEntry) \<Rightarrow> signer option \<Rightarrow> string \<Rightarrow> string \<Rightarrow> mitm_Options \<Rightarrow> ca_error + CA" where
  "ParseCA P heap leafKey certPEM keyPEM opts =
     (case parseCertPEM P certPEM of
        Inl e \<Rightarrow> Inl e
      | Inr cert \<Rightarrow>
          (case parseKeyPEM P keyPEM of
             Inl e \<Rightarrow> Inl e
           | Inr key \<Rightarrow> NewCA P heap leafKey (Some cert) (Some key) opts))"

text \<open>\<open>files\<close> reads a file of the disk.\<close>

definition LoadCA ::
  "pki \<Rightarrow> (string \<rightharpoonup> string) \<Rightarrow> (nat \<Rightarrow> tls_cert cacheEntry) \<Rightarrow> signer option \<Rightarrow> string \<Rightarrow> string \<Rightarrow> mitm_Options \<Rightarrow> ca_error + CA" where
  "LoadCA P files heap leafKey certPath keyPath opts =
     (case files certPath of
        None \<Rightarrow> Inl ReadingCert
      | Some certPEM \<Rightarrow>
          (case files keyPath of
             None \<Rightarrow> Inl ReadingKey
           | Some keyPEM \<Rightarrow> ParseCA P heap leafKey certPEM keyPEM opts))"

subsection \<open>Minting\<close>

definition noSNIHost :: string where "noSNIHost = ''no-sni.invalid''"
definition leafBackdate :: duration where "leafBackdate = hour"
definition leafRenewBefore :: duration where "leafRenewBefore = minute"

definition leafIdentity :: "string \<Rightarrow> string \<Rightarrow> string \<times> bool" where
  "leafIdentity sni target =
     (let h = normalizeHost sni
      in if h \<noteq> [] then (h, ParseIP h \<noteq> None)
         else let h = normalizeHost target
              in if h \<noteq> [] then (h, ParseIP h \<noteq> None) else (noSNIHost, False))"

text \<open>\<open>DigitalSignature | KeyEncipherment\<close> is 1 OR 4; \<open>net.ParseIP\<close> of an IP name is not nil.\<close>

definition leafTemplate :: "string \<Rightarrow> bool \<Rightarrow> nat \<Rightarrow> time \<Rightarrow> duration \<Rightarrow> leaf_template" where
  "leafTemplate name isIP serial now ttl =
     \<lparr>lt_SerialNumber = serial, lt_CommonName = name, lt_NotBefore = now - leafBackdate,
      lt_NotAfter = now + ttl, lt_KeyUsage = 1 OR 4, lt_ExtKeyUsage = [''ServerAuth''],
      lt_BasicConstraintsValid = True,
      lt_IPAddresses = (if isIP then (case ParseIP name of Some ip \<Rightarrow> [ip] | None \<Rightarrow> []) else []),
      lt_DNSNames = (if isIP then [] else [name])\<rparr>"

text \<open>The signing part of \<open>mint\<close>, after the CA material was read.\<close>

definition sign_leaf ::
  "pki \<Rightarrow> string \<Rightarrow> bool \<Rightarrow> nat \<Rightarrow> time \<Rightarrow> duration \<Rightarrow> x509_cert \<Rightarrow> signer \<Rightarrow> signer \<Rightarrow> ca_error + tls_cert" where
  "sign_leaf P name isIP serial now ttl caCert caKey leafKey =
     (let tmpl = leafTemplate name isIP serial now ttl
      in case pk_CreateCertificate P tmpl caCert (sg_Public leafKey) caKey of
           None \<Rightarrow> Inl (SigningLeaf name)
         | Some der \<Rightarrow> Inr \<lparr>tc_Certificate = [der, xc_Raw caCert], tc_PrivateKey = leafKey, tc_Leaf = Some tmpl\<rparr>)"

definition mint :: "pki \<Rightarrow> nat option \<Rightarrow> time \<Rightarrow> string \<Rightarrow> bool \<Rightarrow> CA \<Rightarrow> ca_error + (tls_cert \<times> 64 word)" where
  "mint P serial now name isIP c =
     (case serial of
        None \<Rightarrow> Inl GeneratingSerial
      | Some serial \<Rightarrow>
          (case sign_leaf P name isIP serial now (mo_LeafTTL (ca_opts c)) (ca_cert c) (ca_key c) (ca_leafKey c) of
             Inl e \<Rightarrow> Inl e
           | Inr cert \<Rightarrow> Inr (cert, ca_gen c)))"

definition leafFresh :: "time \<Rightarrow> tls_cert \<Rightarrow> bool" where
  "leafFresh now cert = (case tc_Leaf cert of None \<Rightarrow> False | Some l \<Rightarrow> now + leafRenewBefore < lt_NotAfter l)"

text \<open>The three shared accesses of \<open>certFor\<close>: the cache lookup, the generation check, the insertion.\<close>

definition cert_lookup :: "time \<Rightarrow> string \<Rightarrow> CA \<Rightarrow> tls_cert option \<times> CA" where
  "cert_lookup now name c =
     (let (hit, cache) = certCache_get name (ca_cache c); c = c\<lparr>ca_cache := cache\<rparr>
      in case hit of
           Some cert \<Rightarrow> if leafFresh now cert then (Some cert, c) else (None, c)
         | None \<Rightarrow> (None, c))"

definition cert_store :: "string \<Rightarrow> tls_cert \<Rightarrow> CA \<Rightarrow> CA" where
  "cert_store name cert c = c\<lparr>ca_cache := certCache_put name cert (ca_cache c)\<rparr>"

definition certFor ::
  "pki \<Rightarrow> nat option \<Rightarrow> time \<Rightarrow> string \<Rightarrow> string \<Rightarrow> CA \<Rightarrow> (ca_error + tls_cert) \<times> CA" where
  "certFor P serial now sni target c =
     (let (name, isIP) = leafIdentity sni target
      in case cert_lookup now name c of
           (Some cert, c) \<Rightarrow> (Inr cert, c)
         | (None, c) \<Rightarrow>
             (case mint P serial now name isIP c of
                Inl e \<Rightarrow> (Inl e, c)
              | Inr (cert, gen) \<Rightarrow>
                  let current = ca_gen c
                  in (Inr cert, if current = gen then cert_store name cert c else c)))"

definition GetCertificate :: "pki \<Rightarrow> nat option \<Rightarrow> time \<Rightarrow> string \<Rightarrow> CA \<Rightarrow> (ca_error + tls_cert) \<times> CA" where
  "GetCertificate P serial now serverName c = certFor P serial now serverName [] c"

definition GetCertificateFor ::
  "pki \<Rightarrow> string \<Rightarrow> nat option \<Rightarrow> time \<Rightarrow> string \<Rightarrow> CA \<Rightarrow> (ca_error + tls_cert) \<times> CA" where
  "GetCertificateFor P target serial now serverName c = certFor P serial now serverName target c"

subsection \<open>Rotation and export\<close>

text \<open>The swap under the write lock, and the purge that follows it outside the lock.\<close>

definition Rotate_swap :: "x509_cert \<Rightarrow> signer \<Rightarrow> CA \<Rightarrow> CA" where
  "Rotate_swap cert key c =
     c\<lparr>ca_cert := cert, ca_certDER := xc_Raw cert, ca_key := key, ca_gen := ca_gen c + 1\<rparr>"

definition Rotate_purge :: "CA \<Rightarrow> CA" where
  "Rotate_purge c = c\<lparr>ca_cache := certCache_purge (ca_cache c)\<rparr>"

definition Rotate_check :: "pki \<Rightarrow> x509_cert option \<Rightarrow> signer option \<Rightarrow> ca_error + (x509_cert \<times> signer)" where
  "Rotate_check P cert key =
     (case (cert, key) of
        (Some cert, Some key) \<Rightarrow>
          if \<not> xc_IsCA cert \<or> xc_KeyUsage cert AND KeyUsageCertSign = 0
          then Inl (RotateNotSigningCA (xc_CommonName cert))
          else if \<not> publicKeysEqual P (sg_Public key) (xc_PublicKey cert)
          then Inl (RotateKeyMismatch (xc_CommonName cert))
          else Inr (cert, key)
      | _ \<Rightarrow> Inl RotateNeedsBoth)"

definition Rotate :: "pki \<Rightarrow> x509_cert option \<Rightarrow> signer option \<Rightarrow> CA \<Rightarrow> (ca_error + unit) \<times> CA" where
  "Rotate P cert key c =
     (case Rotate_check P cert key of
        Inl e \<Rightarrow> (Inl e, c)
      | Inr (cert, key) \<Rightarrow> (Inr (), Rotate_purge (Rotate_swap cert key c)))"

definition ExportDER :: "CA \<Rightarrow> string" where "ExportDER c = ca_certDER c"

definition ExportPEM :: "(string \<Rightarrow> string \<Rightarrow> string) \<Rightarrow> CA \<Rightarrow> string" where
  "ExportPEM encode c = encode ''CERTIFICATE'' (ExportDER c)"

definition CA_Subject :: "CA \<Rightarrow> string" where "CA_Subject c = xc_CommonName (ca_cert c)"

definition CacheStats :: "CA \<Rightarrow> 64 word \<times> 64 word" where "CacheStats c = certCache_stats (ca_cache c)"

end
