(* ===== verification/Startup.thy ===== *)
theory Startup
  imports Config Dns MitmCA
begin

text \<open>
  The program's start-up and shutdown: src/cmd/evan-proxy/main.go.

  \<open>main\<close> is the list of the steps it takes, in order.  What may fail on the way (the UDP logger, the database,
  the certificate authority, the list of user ports) is an input; a failure ends the program.  A \<open>Listen\<close> step starts the goroutine
  of a listener; if it cannot bind, it ends the program later on.  The steps
  with an effect of their own are modelled where their component is.
\<close>

record boot_env =
  be_udp :: "string \<Rightarrow> string option"  \<comment> \<open>error of \<open>NewJSONUDPBackend\<close>\<close>
  be_open :: "string \<Rightarrow> string option"  \<comment> \<open>error of \<open>userdb.Open\<close>\<close>
  be_ca :: "ca_error + CA"
  be_ports :: "string option"  \<comment> \<open>error of \<open>StartUserListeners\<close>\<close>

record admin_Options =
  ao_LoginRateLimit :: int
  ao_LoginWindow :: duration
  ao_LoginGlobalMax :: int
  ao_TrustedProxies :: "IPNet list"
  ao_DemoMode :: bool

datatype backend = Console string | JSONUDP string | JSONHTTP string int duration

datatype boot_act =
    MakeLogger "backend list"
  | OpenDB string
  | MakeLimiter int duration
  | ObserveLog string
  | ObserveBytes string
  | MakeProxy Resolver
  | MakeAdmin admin_Options bool bool
  | WrapAccessLog
  | InstallMITM string
  | StartUsers
  | StartReconciler duration
  | ListenACME string
  | ListenAdminTLS string
  | ListenAdmin string
  | ListenMetrics string
  | ListenPprof string
  | BootInfo string
  | BootError string
  | WaitSignal
  | StopReconciler
  | ShutdownUsers
  | StopAuthCleanup
  | ShutdownAdmin
  | ShutdownMetrics
  | StopCounter
  | StopCollector
  | StopLimiter
  | ShutdownACME
  | CloseDB
  | CloseLogger
  | BootFatal string
  | BootPanic string

text \<open>The log backends: the console always, and the network logger if one is configured.\<close>

definition log_backends :: "boot_env \<Rightarrow> Config \<Rightarrow> string + backend list" where
  "log_backends B cfg =
     (let backends = [Console (LogFormat cfg)]
      in if LogNetMode cfg = ''json-udp''
         then (case be_udp B (LogNetAddr cfg) of
                 Some err \<Rightarrow> Inl (''json-udp logger: '' @ err)
               | None \<Rightarrow> Inr (backends @ [JSONUDP (LogNetAddr cfg)]))
         else if LogNetMode cfg = ''json-http''
         then Inr (backends @ [JSONHTTP (LogNetAddr cfg) (LogNetBatchSize cfg) (LogNetFlushInterval cfg)])
         else Inr backends)"

definition trusted_proxies :: "Config \<Rightarrow> IPNet list" where
  "trusted_proxies cfg =
     concat (map (\<lambda>cidr. case ParseCIDR cidr of Some n \<Rightarrow> [n] | None \<Rightarrow> []) (TrustedProxyCIDRs cfg))"

definition admin_options :: "Config \<Rightarrow> admin_Options" where
  "admin_options cfg =
     \<lparr>ao_LoginRateLimit = AdminLoginRateLimit cfg, ao_LoginWindow = AdminLoginWindow cfg,
      ao_LoginGlobalMax = AdminLoginGlobalMax cfg, ao_TrustedProxies = trusted_proxies cfg,
      ao_DemoMode = DemoMode cfg\<rparr>"

text \<open>The listeners started once the user ports are up.\<close>

definition admin_listeners :: "Config \<Rightarrow> boot_act list" where
  "admin_listeners cfg =
     (if AutocertHost cfg \<noteq> [] then [ListenACME '':80'', ListenAdminTLS '':443''] else [ListenAdmin (AdminListen cfg)])"

definition metrics_listener :: "Config \<Rightarrow> boot_act list" where
  "metrics_listener cfg = (if MetricsListen cfg \<noteq> [] then [ListenMetrics (MetricsListen cfg)] else [])"

definition pprof_listener :: "Config \<Rightarrow> boot_act list" where
  "pprof_listener cfg =
     (if PProfEnabled cfg
      then (if \<not> isLoopbackListen (PProfListen cfg) then [BootError ''pprof''] else []) @ [ListenPprof (PProfListen cfg)]
      else [])"

text \<open>Everything after the interrupt signal, with the deferred calls in their order.\<close>

definition shutdown_acts :: "Config \<Rightarrow> boot_act list" where
  "shutdown_acts cfg =
     [BootInfo ''main'', StopReconciler, ShutdownUsers, StopAuthCleanup, ShutdownAdmin] @
     (if MetricsListen cfg \<noteq> [] then [ShutdownMetrics] else []) @
     [StopCounter, StopCollector, StopLimiter] @
     (if AutocertHost cfg \<noteq> [] then [ShutdownACME] else []) @
     [CloseDB, CloseLogger]"

definition serve_acts :: "boot_env \<Rightarrow> Config \<Rightarrow> boot_act list" where
  "serve_acts B cfg =
     (case be_ports B of
        Some err \<Rightarrow> [StartUsers, BootFatal (''user listeners: '' @ err)]
      | None \<Rightarrow>
          [StartUsers, StartReconciler (30 * second)] @ admin_listeners cfg @ metrics_listener cfg @ pprof_listener cfg @
          [WaitSignal] @ shutdown_acts cfg)"

definition mitm_acts :: "boot_env \<Rightarrow> Config \<Rightarrow> boot_act list" where
  "mitm_acts B cfg =
     (if MITMEnabled cfg
      then (case be_ca B of
              Inl _ \<Rightarrow> [BootFatal ''mitm'']
            | Inr ca \<Rightarrow> [InstallMITM (CA_Subject ca), BootInfo ''mitm''] @ serve_acts B cfg)
      else [BootInfo ''mitm''] @ serve_acts B cfg)"

definition wire_acts :: "boot_env \<Rightarrow> Config \<Rightarrow> boot_act list" where
  "wire_acts B cfg =
     (case Resolver_New (DNSProtocol cfg) (DNSServer cfg) of
        Inl _ \<Rightarrow> [BootPanic ''dns resolver'']
      | Inr res \<Rightarrow>
          [MakeProxy res, MakeAdmin (admin_options cfg) (MetricsListen cfg = []) (ForceHTTPS cfg)] @
          (if DemoMode cfg then [BootInfo ''proxy'', WrapAccessLog] else []) @
          mitm_acts B cfg)"

definition boot_main :: "boot_env \<Rightarrow> (string \<Rightarrow> duration option) \<Rightarrow> environment \<Rightarrow> boot_act list" where
  "boot_main B parseDuration env =
     (case Config_Load parseDuration env of
        Inl _ \<Rightarrow> [BootFatal ''config'']
      | Inr cfg \<Rightarrow>
          (case log_backends B cfg of
             Inl err \<Rightarrow> [BootFatal err]
           | Inr backends \<Rightarrow>
               MakeLogger backends #
               (case be_open B (ProxyDBPath cfg) of
                  Some err \<Rightarrow> [BootFatal err]
                | None \<Rightarrow>
                    [OpenDB (ProxyDBPath cfg), MakeLimiter (AuthFailRateLimit cfg) (AuthFailWindow cfg),
                     ObserveLog ''collector'', ObserveLog ''metrics'', ObserveBytes ''metrics''] @
                    wire_acts B cfg)))"

subsection \<open>Properties\<close>

fun is_listener :: "boot_act \<Rightarrow> bool" where
  "is_listener (ListenACME _) = True"
| "is_listener (ListenAdminTLS _) = True"
| "is_listener (ListenAdmin _) = True"
| "is_listener (ListenMetrics _) = True"
| "is_listener (ListenPprof _) = True"
| "is_listener _ = False"

fun is_failure :: "boot_act \<Rightarrow> bool" where
  "is_failure (BootFatal _) = True"
| "is_failure (BootPanic _) = True"
| "is_failure _ = False"

fun is_mitm :: "boot_act \<Rightarrow> bool" where
  "is_mitm (InstallMITM _) = True"
| "is_mitm _ = False"

definition before :: "(boot_act \<Rightarrow> bool) \<Rightarrow> boot_act \<Rightarrow> boot_act list \<Rightarrow> bool" where
  "before P a acts = list_ex P (takeWhile (\<lambda>x. x \<noteq> a) acts)"

lemma before_append: "a \<notin> set xs \<Longrightarrow> list_ex P xs \<Longrightarrow> before P a (xs @ ys)"
  by (induction xs) (auto simp: before_def)

lemma Load_resolver:
  assumes "Config_Load pd env = Inr cfg"
  shows "\<exists>res. Resolver_New (DNSProtocol cfg) (DNSServer cfg) = Inr res"
proof -
  have "DNSProtocol cfg = ''plain'' \<or> DNSProtocol cfg = ''tls'' \<or> DNSProtocol cfg = ''https''"
    "DNSProtocol cfg \<noteq> ''plain'' \<longrightarrow> DNSServer cfg \<noteq> []"
    using Load_Inr(1) [OF assms] unfolding validate_Inr by blast+
  then consider "DNSProtocol cfg = ''plain''" | "DNSProtocol cfg = ''tls''" | "DNSProtocol cfg = ''https''" "DNSServer cfg \<noteq> []"
    by fastforce
  then show ?thesis
    by cases (simp_all add: Resolver_New_def newTLS_def newDoH_def split: option.split prod.split)
qed

lemma Load_proxies:
  assumes "Config_Load pd env = Inr cfg"
  shows "map Some (trusted_proxies cfg) = map ParseCIDR (TrustedProxyCIDRs cfg)"
proof -
  have "\<forall>x\<in>set xs. ParseCIDR x \<noteq> None \<Longrightarrow>
      map Some (concat (map (\<lambda>cidr. case ParseCIDR cidr of Some n \<Rightarrow> [n] | None \<Rightarrow> []) xs)) = map ParseCIDR xs" for xs
    by (induction xs) auto
  then show ?thesis using Load_Inr(1) [OF assms] unfolding validate_Inr trusted_proxies_def by blast
qed

lemma Load_metrics: "Config_Load pd env = Inr cfg \<Longrightarrow> MetricsListen cfg \<noteq> []"
  by (subst Load_Inr(2)) (simp_all add: config_from_env_def envOr_def)

text \<open>A start with a loaded configuration: steps that open nothing, then a failure or the serving part.\<close>

definition boot_quiet :: "boot_act \<Rightarrow> bool" where
  "boot_quiet x \<longleftrightarrow> \<not> is_listener x \<and> \<not> is_failure x \<and> x \<noteq> StartUsers \<and> (case x of MakeAdmin _ mounted _ \<Rightarrow> \<not> mounted | _ \<Rightarrow> True)"

lemma mitm_shape:
  "(\<exists>e. mitm_acts B cfg = [BootFatal e]) \<or>
   (\<exists>pre. mitm_acts B cfg = pre @ serve_acts B cfg \<and> list_all boot_quiet pre \<and> (MITMEnabled cfg \<longrightarrow> list_ex is_mitm pre))"
proof (cases "MITMEnabled cfg")
  case True
  show ?thesis
  proof (cases "be_ca B")
    case (Inl e)
    then show ?thesis using True by (simp add: mitm_acts_def)
  next
    case (Inr ca)
    then have "mitm_acts B cfg = [InstallMITM (CA_Subject ca), BootInfo ''mitm''] @ serve_acts B cfg"
      using True by (simp add: mitm_acts_def)
    moreover have "list_all boot_quiet [InstallMITM (CA_Subject ca), BootInfo ''mitm'']" by (simp add: boot_quiet_def)
    ultimately show ?thesis by fastforce
  qed
next
  case False
  then have "mitm_acts B cfg = [BootInfo ''mitm''] @ serve_acts B cfg" by (simp add: mitm_acts_def)
  moreover have "list_all boot_quiet [BootInfo ''mitm'']" by (simp add: boot_quiet_def)
  ultimately show ?thesis using False by blast
qed

definition boot_shape :: "boot_env \<Rightarrow> Config \<Rightarrow> boot_act list \<Rightarrow> bool" where
  "boot_shape B cfg acts \<longleftrightarrow>
     (\<exists>pre. list_all boot_quiet pre \<and>
        ((\<exists>e. acts = pre @ [BootFatal e]) \<or> (acts = pre @ serve_acts B cfg \<and> (MITMEnabled cfg \<longrightarrow> list_ex is_mitm pre))))"

lemma boot_shape_prepend:
  assumes "boot_shape B cfg acts" "list_all boot_quiet pre"
  shows "boot_shape B cfg (pre @ acts)"
proof -
  obtain p where p: "list_all boot_quiet p"
      "(\<exists>e. acts = p @ [BootFatal e]) \<or> (acts = p @ serve_acts B cfg \<and> (MITMEnabled cfg \<longrightarrow> list_ex is_mitm p))"
    using assms(1) unfolding boot_shape_def by blast
  have "list_all boot_quiet (pre @ p)" using p(1) assms(2) by simp
  moreover have "(\<exists>e. pre @ acts = (pre @ p) @ [BootFatal e]) \<or>
      (pre @ acts = (pre @ p) @ serve_acts B cfg \<and> (MITMEnabled cfg \<longrightarrow> list_ex is_mitm (pre @ p)))"
    using p(2) by auto
  ultimately show ?thesis unfolding boot_shape_def by blast
qed

lemma boot_shape_fatal: "boot_shape B cfg [BootFatal e]"
  unfolding boot_shape_def by (rule exI [of _ "[]"]) simp

lemma boot_shape_main:
  assumes "Config_Load pd env = Inr cfg"
  shows "boot_shape B cfg (boot_main B pd env)"
proof -
  obtain res where r: "Resolver_New (DNSProtocol cfg) (DNSServer cfg) = Inr res" using Load_resolver [OF assms] by blast
  have "boot_shape B cfg (mitm_acts B cfg)" using mitm_shape [of B cfg] boot_shape_fatal unfolding boot_shape_def by metis
  then have "boot_shape B cfg (([MakeProxy res, MakeAdmin (admin_options cfg) (MetricsListen cfg = []) (ForceHTTPS cfg)] @
      (if DemoMode cfg then [BootInfo ''proxy'', WrapAccessLog] else [])) @ mitm_acts B cfg)"
    by (rule boot_shape_prepend) (simp add: boot_quiet_def Load_metrics [OF assms])
  then have "boot_shape B cfg (wire_acts B cfg)" by (simp add: wire_acts_def r)
  then have w: "boot_shape B cfg ([MakeLogger bs, OpenDB path, MakeLimiter n w, ObserveLog a, ObserveLog b, ObserveBytes c] @ wire_acts B cfg)"
    for bs path n w a b c by (rule boot_shape_prepend) (simp add: boot_quiet_def)
  have f: "boot_shape B cfg ([MakeLogger bs] @ [BootFatal e])" for bs e
    by (rule boot_shape_prepend) (simp_all add: boot_quiet_def boot_shape_fatal)
  show ?thesis using w f boot_shape_fatal by (simp add: boot_main_def assms split: sum.split option.split)
qed

lemma serve_facts:
  assumes "MetricsListen cfg \<noteq> []"
  shows "BootPanic e \<notin> set (serve_acts B cfg)" "MakeAdmin opts m https \<notin> set (serve_acts B cfg)"
    "list_ex is_listener (serve_acts B cfg) \<Longrightarrow> \<not> list_ex is_failure (serve_acts B cfg)"
    "list_ex is_listener (serve_acts B cfg) \<Longrightarrow> ListenMetrics (MetricsListen cfg) \<in> set (serve_acts B cfg)"
    "StartUsers = hd (serve_acts B cfg)" "serve_acts B cfg \<noteq> []"
  using assms
  by (simp_all add: serve_acts_def admin_listeners_def metrics_listener_def pprof_listener_def shutdown_acts_def split: option.splits)

lemma serve_pprof:
  assumes "ListenPprof a \<in> set (serve_acts B cfg)" "\<not> isLoopbackListen a"
  shows "\<exists>xs ys. serve_acts B cfg = xs @ BootError ''pprof'' # ys \<and> ListenPprof a \<notin> set xs"
proof -
  have n: "be_ports B = None" using assms(1) by (simp add: serve_acts_def split: option.splits)
  have p: "PProfEnabled cfg" "PProfListen cfg = a" using assms(1)
    by (simp_all add: serve_acts_def n admin_listeners_def metrics_listener_def pprof_listener_def shutdown_acts_def split: if_splits)
  have "serve_acts B cfg = ([StartUsers, StartReconciler (30 * second)] @ admin_listeners cfg @ metrics_listener cfg) @
      BootError ''pprof'' # ([ListenPprof a] @ [WaitSignal] @ shutdown_acts cfg)"
    using p assms(2) by (simp add: serve_acts_def n pprof_listener_def)
  moreover have "ListenPprof a \<notin> set ([StartUsers, StartReconciler (30 * second)] @ admin_listeners cfg @ metrics_listener cfg)"
    by (simp add: admin_listeners_def metrics_listener_def)
  ultimately show ?thesis by blast
qed


text \<open>A start with profiling on a reachable address and a trusted proxy range, with the defaults elsewhere.\<close>

definition ex_boot_env :: environment where
  "ex_boot_env k =
     (if k = ''ADMIN_USER'' then ''root'' else if k = ''ADMIN_PASSWORD'' then ''h'' else if k = ''TRUSTED_PROXY_CIDRS'' then ''10.0.0.0/8''
      else if k = ''PPROF_ENABLED'' then ''true'' else if k = ''PPROF_LISTEN'' then '':6060'' else [])"

definition ex_boot :: boot_env where
  "ex_boot = \<lparr>be_udp = (\<lambda>_. None), be_open = (\<lambda>_. None), be_ca = Inl NilKey, be_ports = None\<rparr>"


end
