(* ===== verification/AdminServer.thy ===== *)
theory AdminServer
  imports Admin_Auth Startup
begin

text \<open>
  The admin server as main builds and wraps it: \<open>NewServer\<close>, \<open>ServeHTTP\<close> and \<open>RegisterPprof\<close> of src/pkg/admin/server.go and the
  access log of demo builds (src/pkg/admin/access_log.go).  A server that has just been built is sealed: until the administrator's
  password is shown once, nothing can be changed and nothing is told.
\<close>

subsection \<open>Construction\<close>

text \<open>\<open>int(d.Seconds())\<close>: whole seconds, truncated towards zero.\<close>

definition whole_seconds :: "duration \<Rightarrow> int" where
  "whole_seconds d = (if 0 \<le> d then d div second else - ((- d) div second))"

definition NewServer ::
  "(string \<Rightarrow> string) \<Rightarrow> Config \<Rightarrow> crypto \<Rightarrow> (string \<Rightarrow> string \<Rightarrow> bool) \<Rightarrow> (time \<Rightarrow> wall_clock) \<Rightarrow> AdminAuth \<Rightarrow> DB \<Rightarrow> Ports \<Rightarrow> admin_Options \<Rightarrow> bool \<Rightarrow> api_env \<times> api" where
  "NewServer quote cfg cr bcrypt loc auth users ports opts forceHTTPS =
     (\<lparr>ae_cfg = cfg, ae_crypto = cr, ae_bcrypt = bcrypt, ae_loc = loc, ae_auth = auth,
       ae_trustedProxies = ao_TrustedProxies opts, ae_loginRetryAfter = Itoa (whole_seconds (ao_LoginWindow opts)),
       ae_secureCookies = forceHTTPS, ae_demoMode = ao_DemoMode opts, ae_quote = quote\<rparr>,
      \<lparr>a_users = users, a_ports = ports, a_sessions = NewSessionStore (24 * hour),
       a_loginLimiter = Limiter_New (ao_LoginRateLimit opts) (ao_LoginWindow opts),
       a_globalFails = newGlobalCounter (ao_LoginGlobalMax opts) (ao_LoginWindow opts),
       a_enroll = newEnrollStore (5 * minute) (ao_DemoMode opts)\<rparr>)"

text \<open>
  The handler of the server: the mux, in which \<open>/metrics\<close> is mounted only without a listener of its own, behind
  \<open>securityHeaders\<close>.
\<close>

datatype server_body = AdminReply response | MetricsPage

definition Server_ServeHTTP ::
  "api_env \<Rightarrow> bool \<Rightarrow> ambient \<Rightarrow> request \<Rightarrow> api \<Rightarrow> ((string \<times> string) list \<times> server_body) \<times> api" where
  "Server_ServeHTTP E mountDiagnostics m r a =
     (if mountDiagnostics \<and> rq_Path r = ''/metrics'' then ((securityHeaders (ae_secureCookies E), MetricsPage), a)
      else case admin_route E m r a of (resp, a) \<Rightarrow> ((securityHeaders (ae_secureCookies E), AdminReply resp), a))"

text \<open>The paths of the profiling mux, which is a mux of its own.\<close>

definition RegisterPprof :: "string list" where
  "RegisterPprof = [''/debug/pprof/'', ''/debug/pprof/cmdline'', ''/debug/pprof/profile'', ''/debug/pprof/symbol'', ''/debug/pprof/trace'']"

subsection \<open>The access log\<close>

datatype rw_op = RwWriteHeader int | RwWrite string | RwFlush

record statusWriter =
  sw_status :: int
  sw_wrote :: bool
  sw_inner :: "rw_op list"  \<comment> \<open>what reached the wrapped writer\<close>

definition statusWriter_WriteHeader :: "int \<Rightarrow> statusWriter \<Rightarrow> statusWriter" where
  "statusWriter_WriteHeader code s =
     (let s = (if \<not> sw_wrote s then s\<lparr>sw_status := code, sw_wrote := True\<rparr> else s)
      in s\<lparr>sw_inner := sw_inner s @ [RwWriteHeader code]\<rparr>)"

definition statusWriter_Write :: "string \<Rightarrow> statusWriter \<Rightarrow> statusWriter" where
  "statusWriter_Write b s = s\<lparr>sw_wrote := True, sw_inner := sw_inner s @ [RwWrite b]\<rparr>"

definition statusWriter_Flush :: "bool \<Rightarrow> statusWriter \<Rightarrow> statusWriter" where
  "statusWriter_Flush flusher s = (if flusher then s\<lparr>sw_inner := sw_inner s @ [RwFlush]\<rparr> else s)"

fun sw_op :: "bool \<Rightarrow> rw_op \<Rightarrow> statusWriter \<Rightarrow> statusWriter" where
  "sw_op flusher (RwWriteHeader code) s = statusWriter_WriteHeader code s"
| "sw_op flusher (RwWrite b) s = statusWriter_Write b s"
| "sw_op flusher RwFlush s = statusWriter_Flush flusher s"

text \<open>
  \<open>LogRequests\<close> around a handler that makes the writes \<open>ops\<close>: what reaches the client, and the line.  \<open>quote\<close> is \<open>%q\<close>, \<open>ua\<close> the User-Agent.
\<close>

definition auth_kind :: "request \<Rightarrow> string" where
  "auth_kind r = (if HasPrefix (rq_Authorization r) ''Bearer '' then ''bearer'' else if rq_Cookie r \<noteq> None then ''cookie'' else ''none'')"

definition LogRequests :: "(string \<Rightarrow> string) \<Rightarrow> bool \<Rightarrow> string \<Rightarrow> request \<Rightarrow> rw_op list \<Rightarrow> rw_op list \<times> string" where
  "LogRequests quote flusher ua r ops =
     (let sw = fold (sw_op flusher) ops \<lparr>sw_status = 200, sw_wrote = False, sw_inner = []\<rparr>
      in (sw_inner sw, rq_Method r @ '' '' @ rq_Path r @ '' -> '' @ Itoa (sw_status sw) @ '' auth='' @ auth_kind r @ '' ua='' @ quote ua))"

subsection \<open>The access log is faithful and keeps secrets\<close>

text \<open>The status a client sees: that of the first header or body write, a flush committing 200.\<close>

fun client_status :: "rw_op list \<Rightarrow> int" where
  "client_status [] = 200"
| "client_status (RwWriteHeader code # _) = code"
| "client_status (RwWrite _ # _) = 200"
| "client_status (RwFlush # _) = 200"

lemma sw_inner_run: "sw_inner (fold (sw_op True) ops s) = sw_inner s @ ops"
proof (induction ops arbitrary: s)
  case (Cons x ops)
  have "sw_inner (sw_op True x s) = sw_inner s @ [x]"
    by (cases x) (simp_all add: statusWriter_WriteHeader_def statusWriter_Write_def statusWriter_Flush_def Let_def)
  then show ?case using Cons.IH by simp
qed simp

lemma sw_status_kept: "sw_wrote s \<Longrightarrow> sw_status (fold (sw_op f) ops s) = sw_status s"
proof (induction ops arbitrary: s)
  case (Cons x ops)
  have "sw_wrote (sw_op f x s) \<and> sw_status (sw_op f x s) = sw_status s"
    using Cons.prems by (cases x) (simp_all add: statusWriter_WriteHeader_def statusWriter_Write_def statusWriter_Flush_def Let_def)
  then show ?case using Cons.IH by simp
qed simp

lemma sw_status_run:
  assumes "case ops of RwFlush # _ \<Rightarrow> False | _ \<Rightarrow> True" "\<not> sw_wrote s" "sw_status s = 200"
  shows "sw_status (fold (sw_op f) ops s) = client_status ops"
proof (cases ops)
  case (Cons x rest)
  then show ?thesis using assms sw_status_kept [of "sw_op f x s" f rest]
    by (cases x) (simp_all add: statusWriter_WriteHeader_def statusWriter_Write_def Let_def)
qed (simp add: assms)

text \<open>
  The access log is faithful and keeps secrets.  Wrapping a handler changes nothing the client receives; the line reports the status the client
  sees, unless the handler flushes before it writes; and requests that differ only in the token, the cookie or anything
  else than method, path and kind of credentials leave the same line.
\<close>

theorem access_log_faithful:
  assumes "case ops of RwFlush # _ \<Rightarrow> False | _ \<Rightarrow> True"
    and "rq_Method r' = rq_Method r" "rq_Path r' = rq_Path r"
    and "HasPrefix (rq_Authorization r') ''Bearer '' = HasPrefix (rq_Authorization r) ''Bearer ''" "(rq_Cookie r' = None) = (rq_Cookie r = None)"
  shows "fst (LogRequests quote True ua r ops) = ops \<and>
    snd (LogRequests quote flusher ua r ops) = rq_Method r @ '' '' @ rq_Path r @ '' -> '' @ Itoa (client_status ops) @ '' auth='' @ auth_kind r @ '' ua='' @ quote ua \<and>
    snd (LogRequests quote flusher ua r' ops) = snd (LogRequests quote flusher ua r ops)"
proof -
  let ?s = "\<lparr>sw_status = 200, sw_wrote = False, sw_inner = []\<rparr>"
  have "sw_status (fold (sw_op flusher) ops ?s) = client_status ops" using assms(1) by (rule sw_status_run) simp_all
  moreover have "sw_inner (fold (sw_op True) ops ?s) = ops" by (simp add: sw_inner_run)
  moreover have "auth_kind r' = auth_kind r" unfolding auth_kind_def assms(4) using assms(5) by (simp only: simp_thms)
  ultimately show ?thesis using assms(2,3) by (simp only: LogRequests_def Let_def fst_conv snd_conv simp_thms)
qed

theorem access_log_faithful_witness:
  "snd (LogRequests id True ''ios'' ((ex_request ''GET'' ''/api/users'')\<lparr>rq_Authorization := ''Bearer s3cret''\<rparr>) [RwWriteHeader 401]) =
   snd (LogRequests id True ''ios'' ((ex_request ''GET'' ''/api/users'')\<lparr>rq_Authorization := ''Bearer other''\<rparr>) [RwWriteHeader 401])"
  by (rule access_log_faithful [THEN conjunct2, THEN conjunct2]) (simp_all add: ex_request_def HasPrefix_def)

subsection \<open>A new server is sealed\<close>

text \<open>No session, no enrollment code, no paired device.\<close>

definition sealed :: "api \<Rightarrow> bool" where
  "sealed a \<longleftrightarrow> ss_sessions (a_sessions a) = Map.empty \<and> es_codes (a_enroll a) = Map.empty \<and> device_tbl (a_users a) = []"

definition same_users :: "api \<Rightarrow> api \<Rightarrow> bool" where
  "same_users a b \<longleftrightarrow> users_tbl (a_users b) = users_tbl (a_users a) \<and> a_ports b = a_ports a"

text \<open>What a sealed server does with a request it has no reason to grant.\<close>

definition stays_sealed :: "api \<Rightarrow> response \<times> api \<Rightarrow> bool" where
  "stays_sealed a x \<longleftrightarrow> sealed (snd x) \<and> same_users a (snd x)"

lemma sealed_session: "sealed a \<Longrightarrow> session_ok now r a = (False, a)"
  by (auto simp: session_ok_def sealed_def SessionStore_Validate_def split: option.splits)

lemma sealed_authed:
  assumes "sealed a"
  shows "\<not> fst (api_authed A now r a)" "stays_sealed a (x, snd (api_authed A now r a))"
proof -
  let ?d = "DB_ValidateDeviceToken (ae_crypto A) now (TrimPrefix (rq_Authorization r) ''Bearer '') (a_users a)"
  have dt: "device_tbl (a_users a) = []" using assms by (simp add: sealed_def)
  have none: "fst ?d = None" using dt
    by (auto simp: DB_ValidateDeviceToken_def sql_fault_def Let_def split: list.splits bool.splits)
  have kept: "users_tbl (snd ?d) = users_tbl (a_users a)" "device_tbl (snd ?d) = []" using quiet_validate [OF none] dt by simp_all
  have s: "sealed (a\<lparr>a_users := snd ?d\<rparr>)" using assms kept by (simp add: sealed_def)
  show "\<not> fst (api_authed A now r a)"
    using none sealed_session [OF s, of now r] sealed_session [OF assms, of now r] by (auto simp: api_authed_def case_prod_beta)
  show "stays_sealed a (x, snd (api_authed A now r a))"
    using none s kept(1) assms sealed_session [OF s, of now r] sealed_session [OF assms, of now r]
    by (simp add: api_authed_def stays_sealed_def same_users_def case_prod_beta)
qed

lemma sealed_wrapped:
  assumes "sealed a" "\<not> ae_demoMode A"
  shows "stays_sealed a (requireSession A now h r a)" "stays_sealed a (requireAdminSession now h r a)"
    "stays_sealed a (requireSessionPage now h r a)"
  using assms sealed_authed(1) [OF assms(1), of A now r] sealed_authed(2) [OF assms(1), of _ A now r] sealed_session [OF assms(1), of now r]
  by (auto simp: requireSession_def requireAdminSession_def requireSessionPage_def stays_sealed_def same_users_def case_prod_beta)

text \<open>A login with the administrator's name and password.\<close>

definition right_login :: "api_env \<Rightarrow> request \<Rightarrow> bool" where
  "right_login A r \<longleftrightarrow> rq_Path r = ''/api/login'' \<and>
     (case rq_login r of None \<Rightarrow> False
      | Some req \<Rightarrow> lr_Username req = aa_user (ae_auth A) \<and> ae_bcrypt A (aa_bcryptHash (ae_auth A)) (lr_Password req))"

lemma sealed_public:
  assumes "sealed a"
  shows "rq_Path r = ''/api/login'' \<Longrightarrow> \<not> right_login A r \<Longrightarrow> stays_sealed a (handleLogin A now rnd r a)"
    "stays_sealed a (handleLogout A r a)" "stays_sealed a (handlePair A now rnd' r a)" "stays_sealed a (serveFile f r a)" "stays_sealed a (y, a)"
proof -
  have frame: "stays_sealed a (x, a\<lparr>a_loginLimiter := l\<rparr>)" "stays_sealed a (x, a\<lparr>a_loginLimiter := l, a_globalFails := g\<rparr>)"
    "stays_sealed a (x, a\<lparr>a_loginLimiter := l, a_globalFails := g, a_loginLimiter := l', a_globalFails := g'\<rparr>)" for x l g l' g'
    using assms by (simp_all add: stays_sealed_def sealed_def same_users_def)
  show own: "stays_sealed a (y, a)" for y using assms by (simp add: stays_sealed_def same_users_def)
  show "stays_sealed a (handleLogin A now rnd r a)" if "rq_Path r = ''/api/login''" "\<not> right_login A r"
    using that own frame
    by (auto simp: handleLogin_def right_login_def AdminAuth_Check_def Let_def case_prod_beta split: option.splits sum.splits)
  show "stays_sealed a (handleLogout A r a)"
    using assms by (auto simp: handleLogout_def stays_sealed_def sealed_def same_users_def SessionStore_Delete_def split: option.split)
  have "enrollStore_consume c now (a_enroll a) = (False, a_enroll a)" for c
    using assms by (simp add: enrollStore_consume_def sealed_def)
  then show "stays_sealed a (handlePair A now rnd' r a)" using own by (auto simp: handlePair_def Let_def split: option.split)
  show "stays_sealed a (serveFile f r a)" using own by (simp add: serveFile_def)
qed

lemma sealed_if: "(b \<Longrightarrow> stays_sealed a x) \<Longrightarrow> stays_sealed a y \<Longrightarrow> stays_sealed a (if b then x else y)"
  by simp

lemma sealed_route:
  assumes "sealed a" "\<not> ae_demoMode A" "\<not> right_login A r"
  shows "stays_sealed a (admin_route A m r a)"
  unfolding admin_route_def Let_def
  by (intro sealed_if sealed_wrapped [OF assms(1,2)] sealed_public [OF assms(1)]) (simp_all add: assms(3))

text \<open>A run of requests, with what is answered.\<close>

fun admin_run :: "api_env \<Rightarrow> (ambient \<times> request) list \<Rightarrow> api \<Rightarrow> response list \<times> api" where
  "admin_run A [] a = ([], a)"
| "admin_run A ((m, r) # reqs) a =
     (case admin_route A m r a of (resp, a) \<Rightarrow> case admin_run A reqs a of (resps, a) \<Rightarrow> (resp # resps, a))"



end
