(* ===== verification/Stats.thy ===== *)
theory Stats
  imports Logging GoNet "HOL-Library.Sublist"
begin

text \<open>
  The dashboard statistics: src/pkg/stats/collector.go and counter.go.

  The ring of traffic buckets is a list of 360 with the index of the current one, as the code has it; the lemma
  \<open>recordTraffic_view\<close> reads it as a queue.  Subscriber channels are bounded queues.  A map is visited in the
  order of a list argument.  The goroutine of a \<open>CountingWriter\<close> and the drain goroutine are events, so writes, flushes and
  drains interleave freely.
\<close>

definition stats_window :: duration where "stats_window = hour"
definition bucketWidth :: duration where "bucketWidth = 10 * second"
definition maxBuckets :: nat where "maxBuckets = 360"
definition subBufSize :: nat where "subBufSize = 64"

record hostHit =
  hh_host :: string
  hh_ts :: time

record HostCount =
  hc_Host :: string
  hc_Count :: int

record TrafficBucket =
  tb_Time :: int
  tb_Requests :: int
  tb_BytesRead :: int
  tb_BytesWritten :: int

definition zero_bucket :: TrafficBucket where
  "zero_bucket = \<lparr>tb_Time = 0, tb_Requests = 0, tb_BytesRead = 0, tb_BytesWritten = 0\<rparr>"

record Collector =
  co_hostHits :: "hostHit list"
  co_dnsBlocks :: "hostHit list"
  co_buckets :: "TrafficBucket list"
  co_bucketIdx :: nat
  co_logSubs :: "nat \<rightharpoonup> Entry list"
  co_nextSub :: nat

definition NewCollector :: Collector where
  "NewCollector = \<lparr>co_hostHits = [], co_dnsBlocks = [], co_buckets = replicate maxBuckets zero_bucket,
     co_bucketIdx = 0, co_logSubs = Map.empty, co_nextSub = 0\<rparr>"

definition hostOnly :: "string \<Rightarrow> string" where
  "hostOnly hostport = (case SplitHostPort hostport of None \<Rightarrow> hostport | Some (h, _) \<Rightarrow> h)"

text \<open>\<open>Truncate(bucketWidth).Unix()\<close>: the zero time is a multiple of the width.\<close>

definition bucket_time :: "time \<Rightarrow> int" where
  "bucket_time t = t div bucketWidth * 10"

definition set_bucket :: "nat \<Rightarrow> TrafficBucket \<Rightarrow> Collector \<Rightarrow> Collector" where
  "set_bucket i b c = c\<lparr>co_buckets := (co_buckets c)[i := b]\<rparr>"

definition recordTraffic :: "Entry \<Rightarrow> Collector \<Rightarrow> Collector" where
  "recordTraffic e c =
     (let bt = bucket_time (en_Timestamp e); cur = co_buckets c ! co_bucketIdx c
      in if tb_Time cur = bt
         then set_bucket (co_bucketIdx c)
                (cur\<lparr>tb_Requests := wrap64 (tb_Requests cur + 1),
                     tb_BytesRead := wrap64 (tb_BytesRead cur + en_BytesRead e),
                     tb_BytesWritten := wrap64 (tb_BytesWritten cur + en_BytesWritten e)\<rparr>) c
         else if tb_Time cur = 0 \<or> bt > tb_Time cur
         then let i = (co_bucketIdx c + 1) mod maxBuckets
              in set_bucket i \<lparr>tb_Time = bt, tb_Requests = 1, tb_BytesRead = en_BytesRead e,
                               tb_BytesWritten = en_BytesWritten e\<rparr> (c\<lparr>co_bucketIdx := i\<rparr>)
         else c)"

definition offer :: "Entry \<Rightarrow> Entry list \<Rightarrow> Entry list" where
  "offer e q = (if length q < subBufSize then q @ [e] else q)"

definition note_hits :: "Entry \<Rightarrow> Collector \<Rightarrow> Collector" where
  "note_hits e c =
     (let c = (if en_Status e < 400 \<and> en_Host e \<noteq> []
               then c\<lparr>co_hostHits := co_hostHits c @ [\<lparr>hh_host = hostOnly (en_Host e), hh_ts = en_Timestamp e\<rparr>]\<rparr> else c)
      in if en_Event e = ''dns-block''
         then c\<lparr>co_dnsBlocks := co_dnsBlocks c @ [\<lparr>hh_host = hostOnly (en_Host e), hh_ts = en_Timestamp e\<rparr>]\<rparr> else c)"

definition Collector_Observe :: "Entry \<Rightarrow> Collector \<Rightarrow> Collector" where
  "Collector_Observe e c =
     (let c = recordTraffic e (note_hits e c)
      in c\<lparr>co_logSubs := (\<lambda>ch. map_option (offer e) (co_logSubs c ch))\<rparr>)"

definition AddLiveBytes :: "time \<Rightarrow> int \<Rightarrow> int \<Rightarrow> Collector \<Rightarrow> Collector" where
  "AddLiveBytes t rd wr c =
     (let now = bucket_time t; cur = co_buckets c ! co_bucketIdx c
      in if tb_Time cur = now
         then set_bucket (co_bucketIdx c)
                (cur\<lparr>tb_BytesRead := wrap64 (tb_BytesRead cur + rd),
                     tb_BytesWritten := wrap64 (tb_BytesWritten cur + wr)\<rparr>) c
         else if tb_Time cur = 0 \<or> now > tb_Time cur
         then let i = (co_bucketIdx c + 1) mod maxBuckets
              in set_bucket i \<lparr>tb_Time = now, tb_Requests = 0, tb_BytesRead = rd, tb_BytesWritten = wr\<rparr>
                   (c\<lparr>co_bucketIdx := i\<rparr>)
         else c)"

fun count_hits :: "time \<Rightarrow> hostHit list \<Rightarrow> (string \<Rightarrow> int) \<Rightarrow> (string \<Rightarrow> int)" where
  "count_hits cutoff [] m = m"
| "count_hits cutoff (h # hs) m =
     count_hits cutoff hs (if hh_ts h > cutoff then m(hh_host h := m (hh_host h) + 1) else m)"

text \<open>
  \<open>topN\<close>: the entries of the map in some order, sorted by falling count (the sort is not stable; every result it may give is a stable
  sort of some visiting order).
\<close>

definition topN :: "string list \<Rightarrow> (string \<Rightarrow> int) \<Rightarrow> nat \<Rightarrow> HostCount list" where
  "topN order counts n =
     take n (sort_key (\<lambda>x. - hc_Count x)
       (map (\<lambda>h. \<lparr>hc_Host = h, hc_Count = counts h\<rparr>) (filter (\<lambda>h. counts h \<noteq> 0) order)))"

definition TopHosts :: "string list \<Rightarrow> time \<Rightarrow> nat \<Rightarrow> Collector \<Rightarrow> HostCount list" where
  "TopHosts order now n c = topN order (count_hits (now - stats_window) (co_hostHits c) (\<lambda>_. 0)) n"

definition TopBlocked :: "string list \<Rightarrow> time \<Rightarrow> nat \<Rightarrow> Collector \<Rightarrow> HostCount list" where
  "TopBlocked order now n c = topN order (count_hits (now - stats_window) (co_dnsBlocks c) (\<lambda>_. 0)) n"

definition Traffic :: "nat \<Rightarrow> Collector \<Rightarrow> TrafficBucket list" where
  "Traffic n c =
     (let n = (if n > maxBuckets then maxBuckets else n);
          result = filter (\<lambda>b. tb_Time b > 0)
            (map (\<lambda>i. co_buckets c ! ((co_bucketIdx c + 1 + i) mod maxBuckets)) [0..<maxBuckets])
      in if length result > n then drop (length result - n) result else result)"

definition Subscribe :: "Collector \<Rightarrow> nat \<times> Collector" where
  "Subscribe c = (co_nextSub c, c\<lparr>co_logSubs := (co_logSubs c)(co_nextSub c \<mapsto> []), co_nextSub := co_nextSub c + 1\<rparr>)"

definition Unsubscribe :: "nat \<Rightarrow> Collector \<Rightarrow> Collector" where
  "Unsubscribe ch c = c\<lparr>co_logSubs := (co_logSubs c)(ch := None)\<rparr>"

definition compactHits :: "hostHit list \<Rightarrow> time \<Rightarrow> hostHit list" where
  "compactHits hits cutoff = compact_slice (\<lambda>h. hh_ts h > cutoff) hits"

definition Collector_compact :: "time \<Rightarrow> Collector \<Rightarrow> Collector" where
  "Collector_compact now c =
     (let cutoff = now - stats_window
      in c\<lparr>co_hostHits := compactHits (co_hostHits c) cutoff, co_dnsBlocks := compactHits (co_dnsBlocks c) cutoff\<rparr>)"

subsection \<open>Live byte counting\<close>

record CountingWriter =
  cw_isRead :: bool
  cw_pending :: int
  cw_total :: int

record TrafficCounter =
  tc_ch :: "(int \<times> int) list"
  tc_dropped :: "(int \<times> int) list"  \<comment> \<open>deltas lost to a full channel\<close>

definition liveChanSize :: nat where "liveChanSize = 256"

definition NewTrafficCounter :: TrafficCounter where
  "NewTrafficCounter = \<lparr>tc_ch = [], tc_dropped = []\<rparr>"

definition NewWriter :: "bool \<Rightarrow> CountingWriter" where
  "NewWriter isRead = \<lparr>cw_isRead = isRead, cw_pending = 0, cw_total = 0\<rparr>"

text \<open>\<open>n\<close> is what the wrapped writer reports.\<close>

definition CountingWriter_Write :: "int \<Rightarrow> CountingWriter \<Rightarrow> CountingWriter" where
  "CountingWriter_Write n cw =
     (if n > 0 then cw\<lparr>cw_pending := wrap64 (cw_pending cw + n), cw_total := wrap64 (cw_total cw + n)\<rparr> else cw)"

definition CountingWriter_Total :: "CountingWriter \<Rightarrow> int" where "CountingWriter_Total cw = cw_total cw"

definition CountingWriter_flush :: "CountingWriter \<Rightarrow> TrafficCounter \<Rightarrow> CountingWriter \<times> TrafficCounter" where
  "CountingWriter_flush cw tc =
     (let n = cw_pending cw; cw = cw\<lparr>cw_pending := 0\<rparr>
      in if n = 0 then (cw, tc)
         else let d = (if cw_isRead cw then (n, 0) else (0, n))
              in (cw, if length (tc_ch tc) < liveChanSize then tc\<lparr>tc_ch := tc_ch tc @ [d]\<rparr>
                      else tc\<lparr>tc_dropped := tc_dropped tc @ [d]\<rparr>))"

text \<open>One receive of the drain goroutine.\<close>

definition drain_step :: "time \<Rightarrow> TrafficCounter \<Rightarrow> Collector \<Rightarrow> TrafficCounter \<times> Collector" where
  "drain_step now tc c =
     (case tc_ch tc of
        [] \<Rightarrow> (tc, c)
      | (rd, wr) # ds \<Rightarrow> (tc\<lparr>tc_ch := ds\<rparr>, AddLiveBytes now rd wr c))"

subsection \<open>The dashboard's endpoints\<close>

text \<open>The values that \<open>handleTopSites\<close>, \<open>handleTopBlocked\<close> and \<open>handleTraffic\<close> encode as JSON.\<close>

definition handleTopSites :: "string list \<Rightarrow> time \<Rightarrow> Collector \<Rightarrow> HostCount list" where
  "handleTopSites order now c = TopHosts order now 10 c"

definition handleTopBlocked :: "string list \<Rightarrow> time \<Rightarrow> Collector \<Rightarrow> HostCount list" where
  "handleTopBlocked order now c = TopBlocked order now 10 c"

definition handleTraffic :: "Collector \<Rightarrow> TrafficBucket list" where
  "handleTraffic c = Traffic 60 c"

text \<open>
  The log stream: what has been written to the client, as server-sent comments and data.  One round of the loop
  receives an entry, sends a heartbeat or ends the stream when the client is gone.
\<close>

datatype sse = SseComment string | SseData Entry

definition sse_text :: "(Entry \<Rightarrow> string) \<Rightarrow> sse \<Rightarrow> string" where
  "sse_text json x =
     (case x of SseComment t \<Rightarrow> '': '' @ t @ [LF, LF] | SseData e \<Rightarrow> ''data: '' @ json e @ [LF, LF])"

record log_stream =
  ls_stats :: Collector
  ls_ch :: nat
  ls_out :: "sse list"
  ls_open :: bool

definition handleLogs :: "bool \<Rightarrow> Collector \<Rightarrow> (string \<times> nat) + log_stream" where
  "handleLogs can_flush c =
     (if \<not> can_flush then Inl (''streaming not supported'', 500)
      else case Subscribe c of
             (ch, c) \<Rightarrow> Inr \<lparr>ls_stats = c, ls_ch = ch, ls_out = [SseComment ''connected''], ls_open = True\<rparr>)"

datatype stream_wake = WakeEntry | WakePing | WakeDone

definition logs_round :: "stream_wake \<Rightarrow> log_stream \<Rightarrow> log_stream" where
  "logs_round w s =
     (if \<not> ls_open s then s
      else case w of
             WakeEntry \<Rightarrow>
               (case co_logSubs (ls_stats s) (ls_ch s) of
                  Some (e # q) \<Rightarrow>
                    s\<lparr>ls_stats := (ls_stats s)\<lparr>co_logSubs := (co_logSubs (ls_stats s))(ls_ch s \<mapsto> q)\<rparr>,
                      ls_out := ls_out s @ [SseData e]\<rparr>
                | _ \<Rightarrow> s)
           | WakePing \<Rightarrow> s\<lparr>ls_out := ls_out s @ [SseComment ''ping'']\<rparr>
           | WakeDone \<Rightarrow> s\<lparr>ls_stats := Unsubscribe (ls_ch s) (ls_stats s), ls_open := False\<rparr>)"

subsection \<open>The ring as a queue\<close>

text \<open>The buckets from the oldest to the current one.\<close>

definition ring_view :: "Collector \<Rightarrow> TrafficBucket list" where
  "ring_view c = rotate (Suc (co_bucketIdx c)) (co_buckets c)"

definition ring_ok :: "Collector \<Rightarrow> bool" where
  "ring_ok c \<longleftrightarrow> length (co_buckets c) = maxBuckets \<and> co_bucketIdx c < maxBuckets"

lemma ring_view_nth:
  assumes "ring_ok c" "i < maxBuckets"
  shows "ring_view c ! i = co_buckets c ! ((co_bucketIdx c + 1 + i) mod maxBuckets)"
  using assms by (simp add: ring_view_def ring_ok_def nth_rotate del: rotate_Suc)

lemma ring_view_length: "ring_ok c \<Longrightarrow> length (ring_view c) = maxBuckets"
  by (simp add: ring_view_def ring_ok_def)

lemma ring_view_last:
  assumes "ring_ok c"
  shows "last (ring_view c) = co_buckets c ! co_bucketIdx c" "ring_view c \<noteq> []"
proof -
  show ne: "ring_view c \<noteq> []" using ring_view_length [OF assms] by (auto simp: maxBuckets_def)
  have "(co_bucketIdx c + 1 + (maxBuckets - 1)) mod maxBuckets = co_bucketIdx c"
    using assms by (simp add: ring_ok_def maxBuckets_def mod_if)
  then show "last (ring_view c) = co_buckets c ! co_bucketIdx c"
    using ring_view_nth [OF assms, of "maxBuckets - 1"] ring_view_length [OF assms] ne
    by (simp add: last_conv_nth maxBuckets_def)
qed

lemma ring_view_set:
  assumes "ring_ok c"
  shows "ring_ok (set_bucket (co_bucketIdx c) b c)" "ring_view (set_bucket (co_bucketIdx c) b c) = butlast (ring_view c) @ [b]"
proof -
  show ok: "ring_ok (set_bucket (co_bucketIdx c) b c)" using assms by (simp add: ring_ok_def set_bucket_def)
  have len: "length (ring_view c) = maxBuckets" "length (ring_view (set_bucket (co_bucketIdx c) b c)) = maxBuckets"
    using assms by (simp_all add: ring_view_def ring_ok_def set_bucket_def)
  show "ring_view (set_bucket (co_bucketIdx c) b c) = butlast (ring_view c) @ [b]"
  proof (rule nth_equalityI)
    fix i assume "i < length (ring_view (set_bucket (co_bucketIdx c) b c))"
    then have i: "i < maxBuckets" using len by simp
    show "ring_view (set_bucket (co_bucketIdx c) b c) ! i = (butlast (ring_view c) @ [b]) ! i"
    proof (cases "i = maxBuckets - 1")
      case True
      then have "(co_bucketIdx c + 1 + i) mod maxBuckets = co_bucketIdx c"
        using assms by (simp add: ring_ok_def maxBuckets_def mod_if)
      then show ?thesis using ring_view_nth [OF ok i] True len assms
        by (simp add: set_bucket_def nth_append ring_ok_def)
    next
      case False
      then have "(co_bucketIdx c + 1 + i) mod maxBuckets \<noteq> co_bucketIdx c"
        using assms i by (auto simp: ring_ok_def maxBuckets_def mod_if split: if_splits)
      then show ?thesis using ring_view_nth [OF ok i] ring_view_nth [OF assms i] False len i
        by (simp add: set_bucket_def nth_append nth_butlast)
    qed
  qed (use len in \<open>simp add: maxBuckets_def\<close>)
qed

lemma ring_view_advance:
  assumes "ring_ok c"
  defines "i \<equiv> (co_bucketIdx c + 1) mod maxBuckets"
  shows "ring_ok (set_bucket i b (c\<lparr>co_bucketIdx := i\<rparr>))"
    "ring_view (set_bucket i b (c\<lparr>co_bucketIdx := i\<rparr>)) = tl (ring_view c) @ [b]"
proof -
  let ?c = "c\<lparr>co_bucketIdx := i\<rparr>"
  have ok: "ring_ok ?c" using assms(1) by (simp add: ring_ok_def i_def maxBuckets_def)
  then show "ring_ok (set_bucket i b ?c)" using ring_view_set(1) [OF ok, of b] by simp
  have "ring_view ?c = rotate1 (ring_view c)"
  proof -
    have "rotate (Suc i) (co_buckets c) = rotate (Suc (Suc (co_bucketIdx c))) (co_buckets c)"
      using assms(1) rotate_conv_mod [of "Suc i" "co_buckets c"] rotate_conv_mod [of "Suc (Suc (co_bucketIdx c))" "co_buckets c"]
      by (simp add: i_def ring_ok_def mod_Suc_eq)
    then show ?thesis by (simp add: ring_view_def)
  qed
  then have "butlast (ring_view ?c) = tl (ring_view c)" by (cases "ring_view c") simp_all
  then show "ring_view (set_bucket i b ?c) = tl (ring_view c) @ [b]" using ring_view_set(2) [OF ok, of b] by simp
qed

text \<open>Putting a bucket with time \<open>bt\<close> at the end of the queue: merge, append, or ignore a late one.\<close>

definition ring_put :: "int \<Rightarrow> (TrafficBucket \<Rightarrow> TrafficBucket) \<Rightarrow> TrafficBucket \<Rightarrow> TrafficBucket list \<Rightarrow> TrafficBucket list" where
  "ring_put bt add b xs =
     (if tb_Time (last xs) = bt then butlast xs @ [add (last xs)]
      else if tb_Time (last xs) = 0 \<or> bt > tb_Time (last xs) then tl xs @ [b] else xs)"

lemma recordTraffic_view:
  assumes "ring_ok c"
  shows "ring_ok (recordTraffic e c) \<and> ring_view (recordTraffic e c) = ring_put (bucket_time (en_Timestamp e))
    (\<lambda>cur. cur\<lparr>tb_Requests := wrap64 (tb_Requests cur + 1), tb_BytesRead := wrap64 (tb_BytesRead cur + en_BytesRead e),
       tb_BytesWritten := wrap64 (tb_BytesWritten cur + en_BytesWritten e)\<rparr>)
    \<lparr>tb_Time = bucket_time (en_Timestamp e), tb_Requests = 1, tb_BytesRead = en_BytesRead e, tb_BytesWritten = en_BytesWritten e\<rparr>
    (ring_view c)"
  using assms ring_view_set [OF assms] ring_view_advance [OF assms]
  by (simp add: recordTraffic_def ring_put_def ring_view_last Let_def)

lemma AddLiveBytes_view:
  assumes "ring_ok c"
  shows "ring_ok (AddLiveBytes t rd wr c) \<and> ring_view (AddLiveBytes t rd wr c) = ring_put (bucket_time t)
    (\<lambda>cur. cur\<lparr>tb_BytesRead := wrap64 (tb_BytesRead cur + rd), tb_BytesWritten := wrap64 (tb_BytesWritten cur + wr)\<rparr>)
    \<lparr>tb_Time = bucket_time t, tb_Requests = 0, tb_BytesRead = rd, tb_BytesWritten = wr\<rparr> (ring_view c)"
  using assms ring_view_set [OF assms] ring_view_advance [OF assms]
  by (simp add: AddLiveBytes_def ring_put_def ring_view_last Let_def)

text \<open>Times that are shown rise strictly, and the current bucket is the latest.\<close>

definition ring_sorted :: "TrafficBucket list \<Rightarrow> bool" where
  "ring_sorted xs \<longleftrightarrow> sorted_wrt (<) (filter (\<lambda>t. t > 0) (map tb_Time xs)) \<and>
     (\<forall>b\<in>set xs. tb_Time b > 0 \<longrightarrow> tb_Time b \<le> tb_Time (last xs))"

lemma filter_tl_sorted: "sorted_wrt (<) (filter P (map f xs)) \<Longrightarrow> sorted_wrt (<) (filter P (map f (tl xs)))"
  by (cases xs) (auto split: if_splits)

lemma ring_put_sorted:
  assumes "ring_sorted xs" "xs \<noteq> []" "tb_Time b = bt" "\<And>x. tb_Time (add x) = tb_Time x"
  shows "ring_sorted (ring_put bt add b xs)"
proof -
  have xs: "xs = butlast xs @ [last xs]" using assms(2) by simp
  consider (merge) "tb_Time (last xs) = bt" | (push) "tb_Time (last xs) \<noteq> bt" "tb_Time (last xs) = 0 \<or> bt > tb_Time (last xs)"
    | (late) "tb_Time (last xs) \<noteq> bt" "tb_Time (last xs) \<noteq> 0" "\<not> bt > tb_Time (last xs)" by blast
  then show ?thesis
  proof cases
    case merge
    have "map tb_Time (butlast xs @ [add (last xs)]) = map tb_Time (butlast xs @ [last xs])" by (simp add: assms(4))
    then have t: "map tb_Time (butlast xs @ [add (last xs)]) = map tb_Time xs" using xs by simp
    have "tb_Time ` set (butlast xs @ [add (last xs)]) = tb_Time ` set xs" using t by (metis list.set_map)
    then show ?thesis using assms(1) merge t unfolding ring_sorted_def ring_put_def
      by (auto simp: assms(4)) (metis (no_types, lifting) image_iff in_set_butlastD)+
  next
    case push
    have old: "tb_Time x < bt" if "x \<in> set (tl xs)" "tb_Time x > 0" for x
    proof -
      have "x \<in> set xs" using that(1) by (cases xs) auto
      then have "tb_Time x \<le> tb_Time (last xs)" using assms(1) that(2) by (simp add: ring_sorted_def)
      then show ?thesis using push(2) that(2) by auto
    qed
    have "sorted_wrt (<) (filter (\<lambda>t. t > 0) (map tb_Time (tl xs)))"
      by (rule filter_tl_sorted) (use assms(1) in \<open>simp add: ring_sorted_def\<close>)
    then show ?thesis using push old assms(3)
      by (auto simp: ring_sorted_def ring_put_def sorted_wrt_append less_imp_le)
  next
    case late
    then show ?thesis using assms(1) by (simp add: ring_put_def)
  qed
qed

datatype stats_event = StatsLog Entry | StatsLive time int int | StatsCompact time

fun stats_step :: "stats_event \<Rightarrow> Collector \<Rightarrow> Collector" where
  "stats_step (StatsLog e) c = Collector_Observe e c"
| "stats_step (StatsLive t rd wr) c = AddLiveBytes t rd wr c"
| "stats_step (StatsCompact t) c = Collector_compact t c"

lemma rotate1_replicate: "rotate1 (replicate n x) = replicate n x"
  by (cases n) (simp_all add: replicate_append_same)

lemma recordTraffic_frame:
  assumes "co_buckets c' = co_buckets c" "co_bucketIdx c' = co_bucketIdx c"
  shows "co_buckets (recordTraffic e c') = co_buckets (recordTraffic e c)"
    "co_bucketIdx (recordTraffic e c') = co_bucketIdx (recordTraffic e c)"
  using assms by (simp_all add: recordTraffic_def set_bucket_def Let_def)

lemma Observe_ring: "ring_ok (Collector_Observe e c) = ring_ok (recordTraffic e c)"
  "ring_view (Collector_Observe e c) = ring_view (recordTraffic e c)"
proof -
  have n: "co_buckets (note_hits e c) = co_buckets c" "co_bucketIdx (note_hits e c) = co_bucketIdx c"
    by (simp_all add: note_hits_def Let_def)
  show "ring_ok (Collector_Observe e c) = ring_ok (recordTraffic e c)"
    "ring_view (Collector_Observe e c) = ring_view (recordTraffic e c)"
    using recordTraffic_frame [OF n, of e] by (simp_all add: ring_ok_def ring_view_def Collector_Observe_def Let_def)
qed

lemma stats_step_ring:
  assumes "ring_ok c" "ring_sorted (ring_view c)"
  shows "ring_ok (stats_step e c) \<and> ring_sorted (ring_view (stats_step e c))"
proof (cases e)
  case (StatsCompact t)
  then show ?thesis using assms by (simp add: Collector_compact_def ring_ok_def ring_view_def Let_def)
qed (use assms recordTraffic_view [OF assms(1)] AddLiveBytes_view [OF assms(1)] ring_view_last(2) [OF assms(1)]
    in \<open>auto simp: Observe_ring intro!: ring_put_sorted\<close>)

lemma stats_run_ring:
  "ring_ok (fold stats_step es NewCollector) \<and> ring_sorted (ring_view (fold stats_step es NewCollector))"
proof -
  have "ring_ok c \<and> ring_sorted (ring_view c) \<Longrightarrow>
      ring_ok (fold stats_step es c) \<and> ring_sorted (ring_view (fold stats_step es c))" for c
    by (induction es arbitrary: c) (auto dest: stats_step_ring)
  moreover have "ring_ok NewCollector" by (simp add: ring_ok_def NewCollector_def maxBuckets_def)
  moreover have "ring_view NewCollector = replicate maxBuckets zero_bucket"
    by (simp add: ring_view_def NewCollector_def rotate1_replicate)
  ultimately show ?thesis by (simp add: ring_sorted_def zero_bucket_def)
qed

subsection \<open>Properties\<close>

lemma Traffic_view:
  assumes "ring_ok c"
  shows "Traffic n c = drop (length (filter (\<lambda>b. tb_Time b > 0) (ring_view c)) - min n maxBuckets)
    (filter (\<lambda>b. tb_Time b > 0) (ring_view c))"
proof -
  have "map (\<lambda>i. co_buckets c ! ((co_bucketIdx c + 1 + i) mod maxBuckets)) [0..<maxBuckets] = ring_view c"
    by (rule nth_equalityI) (use ring_view_nth [OF assms] ring_view_length [OF assms] in simp_all)
  then show ?thesis by (simp add: Traffic_def Let_def min_def)
qed

lemma sorted_wrt_drop: "sorted_wrt P xs \<Longrightarrow> sorted_wrt P (drop n xs)"
  using sorted_wrt_append [of P "take n xs" "drop n xs"] by simp

text \<open>
  C36. The traffic chart is well formed.  After any interleaving of log entries, live byte
  counts and compactions the 360-slot ring yields at most the requested number of buckets (and at most 360),
  in strictly rising order of time, none with a zero time; late entries never disturb the order.
\<close>

theorem traffic_chart:
  "let bs = Traffic n (fold stats_step es NewCollector)
   in length bs \<le> min n maxBuckets \<and> sorted_wrt (<) (map tb_Time bs) \<and> list_all (\<lambda>b. tb_Time b > 0) bs"
proof -
  let ?c = "fold stats_step es NewCollector"
  let ?f = "filter (\<lambda>b. tb_Time b > 0) (ring_view ?c)"
  have r: "ring_ok ?c" "ring_sorted (ring_view ?c)" using stats_run_ring by auto
  have "map tb_Time ?f = filter (\<lambda>t. t > 0) (map tb_Time (ring_view ?c))" by (simp add: filter_map comp_def)
  then have "sorted_wrt (<) (map tb_Time ?f)" using r(2) by (simp add: ring_sorted_def)
  then have "sorted_wrt (<) (map tb_Time (drop k ?f))" for k by (simp add: drop_map [symmetric] sorted_wrt_drop)
  moreover have "length (drop (length ?f - min n maxBuckets) ?f) \<le> min n maxBuckets" by (simp only: length_drop)
  moreover have "list_all (\<lambda>b. tb_Time b > 0) (drop k ?f)" for k by (auto simp: list_all_iff dest: in_set_dropD)
  ultimately show ?thesis unfolding Let_def Traffic_view [OF r(1)] by blast
qed

lemma count_hits_filter: "count_hits cutoff hs m x = m x + int (length (filter (\<lambda>h. hh_ts h > cutoff \<and> hh_host h = x) hs))"
  by (induction hs arbitrary: m) auto

definition host_logs :: "time \<Rightarrow> string \<Rightarrow> stats_event list \<Rightarrow> stats_event list" where
  "host_logs cutoff x es = filter (\<lambda>e. case e of StatsLog en \<Rightarrow> en_Status en < 400 \<and> en_Host en \<noteq> [] \<and>
     hostOnly (en_Host en) = x \<and> en_Timestamp en > cutoff | _ \<Rightarrow> False) es"

lemma hits_run:
  assumes "\<forall>e\<in>set es. case e of StatsCompact t \<Rightarrow> t \<le> now | _ \<Rightarrow> True"
  shows "length (filter (\<lambda>h. hh_ts h > now - stats_window \<and> hh_host h = x) (co_hostHits (fold stats_step es c))) =
    length (filter (\<lambda>h. hh_ts h > now - stats_window \<and> hh_host h = x) (co_hostHits c)) +
    length (host_logs (now - stats_window) x es)"
  using assms
proof (induction es arbitrary: c)
  case (Cons e es)
  have hits: "co_hostHits (recordTraffic en d) = co_hostHits d" for en d
    by (simp add: recordTraffic_def set_bucket_def Let_def)
  have live: "co_hostHits (AddLiveBytes t rd wr d) = co_hostHits d" for t rd wr d
    by (simp add: AddLiveBytes_def set_bucket_def Let_def)
  have "length (filter (\<lambda>h. hh_ts h > now - stats_window \<and> hh_host h = x) (co_hostHits (stats_step e c))) =
    length (filter (\<lambda>h. hh_ts h > now - stats_window \<and> hh_host h = x) (co_hostHits c)) +
    length (host_logs (now - stats_window) x [e])"
  proof (cases e)
    case (StatsLog en)
    then show ?thesis by (simp add: Collector_Observe_def hits note_hits_def host_logs_def Let_def)
  next
    case (StatsLive t rd wr)
    then show ?thesis by (simp add: live host_logs_def)
  next
    case (StatsCompact t)
    then have "t \<le> now" using Cons.prems by simp
    then have "filter (\<lambda>h. hh_ts h > now - stats_window \<and> hh_host h = x) (compactHits (co_hostHits c) (t - stats_window)) =
        filter (\<lambda>h. hh_ts h > now - stats_window \<and> hh_host h = x) (co_hostHits c)"
      by (auto simp: compactHits_def intro!: filter_cong)
    then show ?thesis using StatsCompact by (simp add: Collector_compact_def host_logs_def Let_def)
  qed
  then show ?case using Cons.IH [of "stats_step e c"] Cons.prems by (simp add: host_logs_def)
qed (simp add: host_logs_def)

text \<open>
  The ranking counts the last hour.  After any events with compactions up to now,
  the count shown for a host is the number of successful requests to it in the last hour; the list has at
  most the requested length and falling counts.
\<close>

theorem top_hosts_exact:
  assumes "\<forall>e\<in>set es. case e of StatsCompact t \<Rightarrow> t \<le> now | _ \<Rightarrow> True"
  shows "let top = TopHosts order now n (fold stats_step es NewCollector)
    in length top \<le> n \<and> sorted_wrt (\<ge>) (map hc_Count top) \<and>
       (\<forall>x\<in>set top. hc_Count x = int (length (host_logs (now - stats_window) (hc_Host x) es)))"
proof -
  define m where "m = count_hits (now - stats_window) (co_hostHits (fold stats_step es NewCollector)) (\<lambda>_. 0)"
  define l where "l = sort_key (\<lambda>x. - hc_Count x) (map (\<lambda>h. \<lparr>hc_Host = h, hc_Count = m h\<rparr>) (filter (\<lambda>h. m h \<noteq> 0) order))"
  have m: "m x = int (length (host_logs (now - stats_window) x es))" for x
    using hits_run [OF assms, of x NewCollector] by (simp add: m_def count_hits_filter NewCollector_def)
  have "sorted (map (\<lambda>x. - hc_Count x) l)" by (simp add: l_def)
  then have "sorted_wrt (\<ge>) (map hc_Count l)" by (simp add: sorted_wrt_map)
  then have s: "sorted_wrt (\<ge>) (map hc_Count (take n l))" by (metis sorted_wrt_take take_map)
  have "\<forall>x\<in>set l. hc_Count x = m (hc_Host x)" by (auto simp: l_def)
  then have "\<forall>x\<in>set (take n l). hc_Count x = m (hc_Host x)" by (auto dest: in_set_takeD)
  moreover have "TopHosts order now n (fold stats_step es NewCollector) = take n l"
    by (simp add: TopHosts_def topN_def l_def m_def)
  ultimately show ?thesis using s m by (simp add: Let_def)
qed

definition ex_visit :: "time \<Rightarrow> string \<Rightarrow> int \<Rightarrow> Entry" where
  "ex_visit t h rd = \<lparr>en_Timestamp = t, en_Event = [], en_ClientIP = ''10.0.0.9'', en_Method = ''CONNECT'', en_Host = h,
     en_URI = [], en_User = ''kid'', en_Error = [], en_Status = 200, en_DurationMS = 0, en_BytesRead = rd,
     en_BytesWritten = 0\<rparr>"

definition ex_visits :: "stats_event list" where
  "ex_visits = [StatsLog (ex_visit 0 ''old.com:443'' 1), StatsLog (ex_visit (2 * hour) ''a.com:443'' 1), StatsCompact (2 * hour),
     StatsLog (ex_visit (2 * hour) ''b.com:443'' 1), StatsLog (ex_visit (2 * hour) ''a.com'' 1)]"

theorem top_hosts_exact_witness:
  "TopHosts [''old.com'', ''b.com'', ''a.com''] (2 * hour) 10 (fold stats_step ex_visits NewCollector) =
     [\<lparr>hc_Host = ''a.com'', hc_Count = 2\<rparr>, \<lparr>hc_Host = ''b.com'', hc_Count = 1\<rparr>] \<and>
   int (length (host_logs (2 * hour - stats_window) ''a.com'' ex_visits)) = 2"
proof -
  have v: "TopHosts [''old.com'', ''b.com'', ''a.com''] (2 * hour) 10 (fold stats_step ex_visits NewCollector) =
     [\<lparr>hc_Host = ''a.com'', hc_Count = 2\<rparr>, \<lparr>hc_Host = ''b.com'', hc_Count = 1\<rparr>]" by code_simp
  have "\<forall>e\<in>set ex_visits. case e of StatsCompact t \<Rightarrow> t \<le> 2 * hour | _ \<Rightarrow> True" by (simp add: ex_visits_def)
  from top_hosts_exact [OF this, of "[''old.com'', ''b.com'', ''a.com'']" 10] show ?thesis
    unfolding v Let_def by simp
qed

text \<open>
  Tunnel bytes are counted live and once more from the log entry that closes the tunnel: when both fall into one bucket the
  chart shows twice what was read.
\<close>

theorem tunnel_bytes_counted_twice:
  "map tb_BytesRead (Traffic 1 (fold stats_step
     [StatsLive hour 1000 0, StatsLog (ex_visit hour ''a.com:443'' 1000)] NewCollector)) = [2000]"
  by code_simp

subsection \<open>The log stream\<close>

text \<open>Log entries and the rounds of one stream, in any order.\<close>

datatype stream_event = StreamLog Entry | StreamRound stream_wake

fun stream_step :: "stream_event \<Rightarrow> log_stream \<Rightarrow> log_stream" where
  "stream_step (StreamLog e) s = s\<lparr>ls_stats := Collector_Observe e (ls_stats s)\<rparr>"
| "stream_step (StreamRound w) s = logs_round w s"

fun stream_logged :: "stream_event list \<Rightarrow> Entry list" where
  "stream_logged [] = []"
| "stream_logged (StreamLog e # es) = e # stream_logged es"
| "stream_logged (StreamRound w # es) = stream_logged es"

definition sse_entries :: "sse list \<Rightarrow> Entry list" where
  "sse_entries out = concat (map (\<lambda>x. case x of SseData e \<Rightarrow> [e] | _ \<Rightarrow> []) out)"

definition stream_queue :: "log_stream \<Rightarrow> Entry list" where
  "stream_queue s = (case co_logSubs (ls_stats s) (ls_ch s) of Some q \<Rightarrow> q | None \<Rightarrow> [])"

text \<open>What the client has or will have received.\<close>

definition stream_taken :: "log_stream \<Rightarrow> Entry list" where
  "stream_taken s = sse_entries (ls_out s) @ stream_queue s"

definition stream_ok :: "log_stream \<Rightarrow> bool" where
  "stream_ok s \<longleftrightarrow> (ls_open s \<longleftrightarrow> co_logSubs (ls_stats s) (ls_ch s) \<noteq> None) \<and> length (stream_queue s) \<le> subBufSize"

lemma sse_entries_append [simp]: "sse_entries (a @ b) = sse_entries a @ sse_entries b"
  "sse_entries [SseData e] = [e]" "sse_entries [SseComment t] = []"
  by (simp_all add: sse_entries_def)

lemma Observe_subs: "co_logSubs (Collector_Observe e c) ch = map_option (offer e) (co_logSubs c ch)"
proof -
  have "co_logSubs (recordTraffic e (note_hits e c)) = co_logSubs c"
    by (simp add: recordTraffic_def note_hits_def set_bucket_def Let_def)
  then show ?thesis by (simp add: Collector_Observe_def Let_def)
qed

lemma stream_log_queue:
  "stream_queue (stream_step (StreamLog e) s) =
     (if co_logSubs (ls_stats s) (ls_ch s) \<noteq> None then offer e (stream_queue s) else [])"
  by (auto simp: stream_queue_def Observe_subs)

lemma stream_log_ok:
  assumes "stream_ok s"
  shows "stream_ok (stream_step (StreamLog e) s)"
proof -
  have "length (offer e (stream_queue s)) \<le> subBufSize" using assms by (simp add: stream_ok_def offer_def)
  then show ?thesis using assms stream_log_queue [of e s] unfolding stream_ok_def by (auto simp: Observe_subs)
qed

lemma stream_log_taken:
  "\<exists>b. stream_taken (stream_step (StreamLog e) s) = stream_taken s @ (if b then [e] else []) \<and>
     (ls_open s \<and> stream_ok s \<and> length (stream_queue s) < subBufSize \<longrightarrow> b)"
proof (cases "co_logSubs (ls_stats s) (ls_ch s)")
  case None
  then show ?thesis by (intro exI [of _ False]) (simp add: stream_taken_def stream_queue_def Observe_subs stream_ok_def)
next
  case (Some q)
  then show ?thesis by (intro exI [of _ "length q < subBufSize"]) (simp add: stream_taken_def stream_queue_def Observe_subs offer_def)
qed

lemma stream_round:
  assumes "stream_ok s"
  shows "stream_ok (logs_round w s)" "subseq (stream_taken (logs_round w s)) (stream_taken s)"
    "ls_open (logs_round w s) \<Longrightarrow> stream_taken (logs_round w s) = stream_taken s \<and> ls_open s"
  using assms
  by (auto simp: logs_round_def stream_ok_def stream_taken_def stream_queue_def Unsubscribe_def
      split: stream_wake.splits option.splits list.splits)

lemma stream_run:
  assumes "stream_ok s"
  shows "stream_ok (fold stream_step es s) \<and> subseq (stream_taken (fold stream_step es s)) (stream_taken s @ stream_logged es) \<and>
    (ls_open (fold stream_step es s) \<and> length (stream_taken s @ stream_logged es) \<le> subBufSize \<longrightarrow>
       stream_taken (fold stream_step es s) = stream_taken s @ stream_logged es \<and> ls_open s)"
  using assms
proof (induction es arbitrary: s)
  case (Cons e es)
  show ?case
  proof (cases e)
    case (StreamRound w)
    note r = stream_round [OF Cons.prems, of w]
    have len: "length (stream_taken (logs_round w s)) \<le> length (stream_taken s)" using r(2) by (rule list_emb_length)
    have "subseq (stream_taken (logs_round w s) @ stream_logged es) (stream_taken s @ stream_logged es)" using r(2) by simp
    then have sub: "subseq (stream_taken (fold stream_step es (logs_round w s))) (stream_taken s @ stream_logged es)"
      using Cons.IH [OF r(1)] subseq_order.trans by blast
    have "stream_taken (fold stream_step es (logs_round w s)) = stream_taken s @ stream_logged es \<and> ls_open s"
      if o: "ls_open (fold stream_step es (logs_round w s))" "length (stream_taken s @ stream_logged es) \<le> subBufSize"
    proof -
      have "length (stream_taken (logs_round w s) @ stream_logged es) \<le> subBufSize" using len o(2) by simp
      then have "stream_taken (fold stream_step es (logs_round w s)) = stream_taken (logs_round w s) @ stream_logged es"
        "ls_open (logs_round w s)" using Cons.IH [OF r(1)] o(1) by blast+
      then show ?thesis using r(3) by simp
    qed
    then show ?thesis using Cons.IH [OF r(1)] sub StreamRound by simp
  next
    case (StreamLog x)
    let ?s = "stream_step (StreamLog x) s"
    obtain b where b: "stream_taken ?s = stream_taken s @ (if b then [x] else [])"
        "ls_open s \<and> stream_ok s \<and> length (stream_queue s) < subBufSize \<longrightarrow> b" using stream_log_taken [of x s] by blast
    note IH = Cons.IH [OF stream_log_ok [OF Cons.prems, of x]]
    have sub: "subseq (stream_taken ?s @ stream_logged es) (stream_taken s @ x # stream_logged es)"
      using b(1) list_emb_Cons [of "(=)" "stream_logged es" "stream_logged es" x] by (simp add: list_emb_append_mono)
    moreover have "stream_taken (fold stream_step es ?s) = stream_taken s @ x # stream_logged es \<and> ls_open s"
      if o: "ls_open (fold stream_step es ?s)" "length (stream_taken s @ x # stream_logged es) \<le> subBufSize"
    proof -
      have "length (stream_taken ?s @ stream_logged es) \<le> subBufSize" using b(1) o(2) by (simp split: if_splits)
      then have i: "stream_taken (fold stream_step es ?s) = stream_taken ?s @ stream_logged es" "ls_open s" using IH o(1) by auto
      have "length (stream_queue s) < subBufSize" using o(2) by (simp add: stream_taken_def)
      then have b using b(2) i(2) Cons.prems by blast
      then show ?thesis using i b(1) by simp
    qed
    ultimately show ?thesis using IH StreamLog by (auto intro: subseq_order.trans)
  qed
qed simp

text \<open>
  C35. A log stream shows the log.  What a client of the stream has received, with what waits in its channel, is a subsequence of the
  entries logged since it subscribed, for every interleaving of requests and rounds of the stream; at most 64 entries wait,
  and as long as no more than 64 were logged none is missing.
\<close>

theorem log_stream_faithful:
  assumes "handleLogs True c = Inr s"
  shows "let s' = fold stream_step es s
    in subseq (stream_taken s') (stream_logged es) \<and> length (stream_queue s') \<le> subBufSize \<and>
       (ls_open s' \<and> length (stream_logged es) \<le> subBufSize \<longrightarrow> stream_taken s' = stream_logged es)"
proof -
  have s: "stream_ok s" "stream_taken s = []"
    using assms by (auto simp: handleLogs_def Subscribe_def stream_ok_def stream_queue_def stream_taken_def)
  show ?thesis using stream_run [OF s(1), of es] s(2) by (simp add: Let_def stream_ok_def)
qed

definition ex_stream :: "stream_event list" where
  "ex_stream = [StreamLog (ex_visit 0 ''a.com'' 1), StreamRound WakeEntry, StreamRound WakePing, StreamLog (ex_visit 1 ''b.com'' 1)]"

theorem log_stream_faithful_witness:
  "\<exists>s. handleLogs True NewCollector = Inr s \<and> ls_open (fold stream_step ex_stream s) \<and>
     stream_taken (fold stream_step ex_stream s) = [ex_visit 0 ''a.com'' 1, ex_visit 1 ''b.com'' 1]"
proof -
  define s where "s = projr (handleLogs True NewCollector)"
  have h: "handleLogs True NewCollector = Inr s" by (simp add: s_def handleLogs_def Subscribe_def)
  have "ls_open (fold stream_step ex_stream (projr (handleLogs True NewCollector)))" "length (stream_logged ex_stream) \<le> subBufSize"
    by code_simp+
  moreover have "stream_logged ex_stream = [ex_visit 0 ''a.com'' 1, ex_visit 1 ''b.com'' 1]" by (simp add: ex_stream_def)
  ultimately show ?thesis using log_stream_faithful [OF h, of ex_stream] h unfolding Let_def s_def [symmetric] by metis
qed

end
