(* ===== verification/Sweepers.thy ===== *)
theory Sweepers
  imports Proxy Sessions Stats
begin

text \<open>
  The background goroutines: every store and limiter of the program starts a loop that sweeps on a ticker until its stop channel is closed
  (\<open>cleanup\<close> and \<open>Stop\<close> of src/pkg/ratelimit/ratelimit.go, admin/session.go, admin/enroll.go and stats/collector.go,
  \<open>cleanupAuthSessions\<close> of proxy/handler.go).  The locale \<open>sweeper\<close> is their contract: nobody can tell whether and when the loop has run.
  At the end, the two critical sections of a session's validation.
\<close>

subsection \<open>A loop and its stop channel\<close>

text \<open>Closing a channel that is nil or closed panics.\<close>

datatype stop_chan = NilChan | OpenChan | ClosedChan

definition close_chan :: "stop_chan \<Rightarrow> string + stop_chan" where
  "close_chan c = (case c of OpenChan \<Rightarrow> Inr ClosedChan | NilChan \<Rightarrow> Inl ''close of nil channel'' | ClosedChan \<Rightarrow> Inl ''close of closed channel'')"

record 's background =
  bg_stop :: stop_chan
  bg_running :: bool
  bg_store :: 's

definition background_start :: "'s \<Rightarrow> 's background" where
  "background_start s = \<lparr>bg_stop = OpenChan, bg_running = True, bg_store = s\<rparr>"

text \<open>A round of the \<open>select\<close>: the ticker at a time, or (\<open>None\<close>) the stop channel, which is ready only when closed.\<close>

definition background_round :: "(time \<Rightarrow> 's \<Rightarrow> 's) \<Rightarrow> time option \<Rightarrow> 's background \<Rightarrow> 's background" where
  "background_round sweep wake b =
     (if \<not> bg_running b then b
      else (case wake of
              Some now \<Rightarrow> b\<lparr>bg_store := sweep now (bg_store b)\<rparr>
            | None \<Rightarrow> if bg_stop b = ClosedChan then b\<lparr>bg_running := False\<rparr> else b))"

definition background_Stop :: "'s background \<Rightarrow> string + 's background" where
  "background_Stop b = (case close_chan (bg_stop b) of Inl e \<Rightarrow> Inl e | Inr c \<Rightarrow> Inr (b\<lparr>bg_stop := c\<rparr>))"

text \<open>The loops of the program.\<close>

definition Limiter_loop :: "time option \<Rightarrow> Limiter background \<Rightarrow> Limiter background" where
  "Limiter_loop = background_round Limiter_cleanup"

definition Limiter_Stop :: "Limiter background \<Rightarrow> string + Limiter background" where "Limiter_Stop = background_Stop"

definition SessionStore_loop :: "time option \<Rightarrow> SessionStore background \<Rightarrow> SessionStore background" where
  "SessionStore_loop = background_round SessionStore_cleanup"

definition SessionStore_Stop :: "SessionStore background \<Rightarrow> string + SessionStore background" where "SessionStore_Stop = background_Stop"

definition enrollStore_loop :: "time option \<Rightarrow> enrollStore background \<Rightarrow> enrollStore background" where
  "enrollStore_loop = background_round enrollStore_cleanup"

definition enrollStore_Stop :: "enrollStore background \<Rightarrow> string + enrollStore background" where "enrollStore_Stop = background_Stop"

definition Collector_cleanup :: "time option \<Rightarrow> Collector background \<Rightarrow> Collector background" where
  "Collector_cleanup = background_round Collector_compact"

definition Collector_Stop :: "Collector background \<Rightarrow> string + Collector background" where "Collector_Stop = background_Stop"

definition authSessions_loop :: "time option \<Rightarrow> Handler background \<Rightarrow> Handler background" where
  "authSessions_loop = background_round cleanupAuthSessions"

definition StopAuthCleanup :: "Handler background \<Rightarrow> string + Handler background" where "StopAuthCleanup = background_Stop"

subsection \<open>The contract\<close>

text \<open>\<open>see now s\<close> is all that the users of the store can find out at \<open>now\<close>; a sweep at an earlier time does not change it.\<close>

locale sweeper =
  fixes sweep :: "time \<Rightarrow> 's \<Rightarrow> 's"
    and see :: "time \<Rightarrow> 's \<Rightarrow> 'o"
    and wf :: "'s \<Rightarrow> bool"
  assumes sweep_wf: "wf s \<Longrightarrow> wf (sweep t s)"
    and sweep_see: "wf s \<Longrightarrow> t \<le> now \<Longrightarrow> see now (sweep t s) = see now s"
begin

lemma loop_invisible:
  assumes "wf (bg_store b)" "list_all (\<lambda>w. case w of Some t \<Rightarrow> t \<le> now | None \<Rightarrow> True) wakes"
  shows "see now (bg_store (fold (background_round sweep) wakes b)) = see now (bg_store b)"
  using assms
proof (induction wakes arbitrary: b)
  case (Cons w wakes)
  have "wf (bg_store (background_round sweep w b)) \<and> see now (bg_store (background_round sweep w b)) = see now (bg_store b)"
    using Cons.prems sweep_wf sweep_see by (cases w) (simp_all add: background_round_def)
  then show ?case using Cons by simp
qed simp

end

text \<open>A loop that saw its stop channel closed does nothing any more.\<close>

lemma background_stops:
  assumes "background_Stop b = Inr b'"
  shows "fold (background_round sweep) wakes (background_round sweep None b') = background_round sweep None b'"
proof -
  have "\<not> bg_running (background_round sweep None b')"
    using assms by (auto simp: background_Stop_def close_chan_def background_round_def split: stop_chan.splits)
  then show ?thesis by (induction wakes) (simp_all add: background_round_def)
qed

interpretation lim_sweep: sweeper Limiter_cleanup "\<lambda>now l ip. fst (Limiter_Allow ip now l)" "\<lambda>l. 0 < limit l"
proof
  fix l :: Limiter and t now
  assume l: "0 < limit l" and "t \<le> (now :: time)"
  then have "filter (\<lambda>x. now - window l < x) (filter (\<lambda>x. t - window l < x) ts) = filter (\<lambda>x. now - window l < x) ts" for ts
    by (auto intro!: filter_cong)
  moreover have "filter (\<lambda>x. now - window l < x) ts = []" if "filter (\<lambda>x. t - window l < x) ts = []" for ts
    using that \<open>t \<le> now\<close> by (auto simp: filter_empty_conv)
  ultimately show "(\<lambda>ip. fst (Limiter_Allow ip now (Limiter_cleanup t l))) = (\<lambda>ip. fst (Limiter_Allow ip now l))"
    using l by (auto simp: fun_eq_iff Limiter_Allow_def Limiter_cleanup_def Let_def split: option.splits)
qed (simp add: Limiter_cleanup_def Let_def)

interpretation sess_sweep: sweeper SessionStore_cleanup "\<lambda>now ss token. fst (SessionStore_Validate token now ss)" "\<lambda>_. True"
  by unfold_locales (auto simp: fun_eq_iff SessionStore_Validate_def SessionStore_cleanup_def split: option.splits)

interpretation enr_sweep: sweeper enrollStore_cleanup
  "\<lambda>now es code. (enrollStore_peek code now es, fst (enrollStore_consume code now es))" "\<lambda>_. True"
  by unfold_locales
     (auto simp: fun_eq_iff enrollStore_peek_def enrollStore_consume_def enrollStore_cleanup_def enroll_live_def split: option.splits)

interpretation auth_sweep: sweeper cleanupAuthSessions "\<lambda>now h (ip, owner). checkAuthSession now ip owner h" "\<lambda>_. True"
  by unfold_locales (auto simp: fun_eq_iff checkAuthSession_def cleanupAuthSessions_def split: option.splits)

interpretation stat_sweep: sweeper Collector_compact "\<lambda>now c (order, n). (TopHosts order now n c, TopBlocked order now n c)" "\<lambda>_. True"
proof
  fix c :: Collector and t now
  assume "t \<le> (now :: time)"
  then have "count_hits (now - stats_window) (filter (\<lambda>h. hh_ts h > t - stats_window) hs) m = count_hits (now - stats_window) hs m" for hs m
    by (auto simp: fun_eq_iff count_hits_filter intro!: arg_cong [where f = length] filter_cong)
  then show "(\<lambda>(order, n). (TopHosts order now n (Collector_compact t c), TopBlocked order now n (Collector_compact t c))) =
      (\<lambda>(order, n). (TopHosts order now n c, TopBlocked order now n c))"
    by (simp add: TopHosts_def TopBlocked_def Collector_compact_def compactHits_def Let_def)
qed simp

subsection \<open>Validation in two critical sections\<close>

text \<open>
  \<open>SessionStore.Validate\<close> looks the token up under the read lock and removes or renews it under the write lock; other requests may run in
  between.
\<close>

datatype validation = TokenMissing | TokenExpired | TokenLive

definition Validate_read :: "string \<Rightarrow> time \<Rightarrow> SessionStore \<Rightarrow> validation" where
  "Validate_read token now ss =
     (case ss_sessions ss token of
        None \<Rightarrow> TokenMissing
      | Some expiresAt \<Rightarrow> if expiresAt < now then TokenExpired else TokenLive)"

definition Validate_write :: "validation \<Rightarrow> string \<Rightarrow> time \<Rightarrow> SessionStore \<Rightarrow> bool \<times> SessionStore" where
  "Validate_write v token now ss =
     (case v of
        TokenMissing \<Rightarrow> (False, ss)
      | TokenExpired \<Rightarrow> (False, ss\<lparr>ss_sessions := (ss_sessions ss)(token := None)\<rparr>)
      | TokenLive \<Rightarrow> (True, SessionStore_put token now ss))"

lemma Validate_sections: "SessionStore_Validate token now ss = Validate_write (Validate_read token now ss) token now ss"
  by (simp add: SessionStore_Validate_def Validate_write_def Validate_read_def split: option.split)

text \<open>
  A logout between the two sections of a request of the same session is undone: the renewal puts the token back, and it is accepted for
  the whole lifetime of a session.
\<close>

theorem logout_undone:
  assumes "Validate_read token now ss = TokenLive" "later \<le> now + ss_ttl ss"
  shows "fst (SessionStore_Validate token later (snd (Validate_write (Validate_read token now ss) token now (SessionStore_Delete token ss))))"
  using assms by (simp add: Validate_write_def SessionStore_put_def SessionStore_Delete_def SessionStore_Validate_def)

end
