(* ===== verification/Wiring.thy ===== *)
theory Wiring
  imports System_Props AdminServer Sweepers
begin

text \<open>
  How main puts the parts together: \<open>proxy.New\<close>, \<open>SetMITM\<close> and the background loops of src/pkg/proxy/handler.go and userports.go, the access
  control list of src/pkg/acl/acl.go, and the program they make.  The program starts in a state from which the theorems about
  the running system hold.
\<close>

subsection \<open>The handler\<close>

definition AllowAll_Allow :: "string \<Rightarrow> bool" where "AllowAll_Allow host = True"

text \<open>
  \<open>proxy.New\<close>: a panic with a text, or the handler, with no ports and no sessions.  \<open>E0\<close> carries the library functions (lookup, transport,
  texts) that the closures of \<open>New\<close> wrap; \<open>dial\<close> is \<open>net.Dialer\<close> with a timeout and, unless nil, a resolver.
\<close>

definition proxy_New ::
  "proxy_env \<Rightarrow> (duration \<Rightarrow> Resolver option \<Rightarrow> string \<Rightarrow> string + (int \<times> int)) \<Rightarrow> Config \<Rightarrow> DB \<Rightarrow> (string \<Rightarrow> bool) \<Rightarrow> Limiter \<Rightarrow>
   string + (proxy_env \<times> Handler \<times> Ports)" where
  "proxy_New E0 dial cfg users acl rl =
     (case Resolver_New (DNSProtocol cfg) (DNSServer cfg) of
        Inl err \<Rightarrow> Inl (''dns resolver: '' @ dns_error_text (pe_quote E0) err)
      | Inr defaultResolver \<Rightarrow>
          Inr (E0\<lparr>pe_cfg := cfg, pe_default := defaultResolver, pe_acl := acl, pe_mitm := None,
                 pe_dialer := dial (ConnectDialTimeout cfg) (NetResolver defaultResolver)\<rparr>,
               \<lparr>h_db = users, h_limiter = rl, h_auth = Map.empty, h_resolvers = Map.empty\<rparr>, no_ports))"

definition SetMITM :: "(string \<Rightarrow> string \<Rightarrow> string option) option \<Rightarrow> proxy_env \<Rightarrow> proxy_env" where
  "SetMITM s E = E\<lparr>pe_mitm := s\<rparr>"

text \<open>The context value under \<open>portOwnerKey\<close>, when there is one.\<close>

definition portOwnerFromCtx :: "string option \<Rightarrow> string" where
  "portOwnerFromCtx v = (case v of Some u \<Rightarrow> u | None \<Rightarrow> [])"

subsection \<open>Background loops\<close>

record reconciler =
  rc_stop :: stop_chan
  rc_running :: bool
  rc_ports :: Ports
  rc_users :: DB

definition StartReconciler :: "reconciler \<Rightarrow> reconciler" where
  "StartReconciler s = s\<lparr>rc_stop := OpenChan, rc_running := True\<rparr>"

definition StopReconciler :: "reconciler \<Rightarrow> string + reconciler" where
  "StopReconciler s =
     (if rc_stop s \<noteq> NilChan then (case close_chan (rc_stop s) of Inl e \<Rightarrow> Inl e | Inr c \<Rightarrow> Inr (s\<lparr>rc_stop := c\<rparr>)) else Inr s)"

text \<open>A round of the loop: the ticker at a time, or (\<open>None\<close>) the stop channel, which is ready only when closed.\<close>

definition reconciler_round ::
  "Config \<Rightarrow> (time \<Rightarrow> wall_clock) \<Rightarrow> int list \<Rightarrow> time option \<Rightarrow> reconciler \<Rightarrow> reconciler" where
  "reconciler_round cfg loc order wake s =
     (if \<not> rc_running s then s
      else (case wake of
              Some now \<Rightarrow>
                (case reconcileListeners cfg loc now order (rc_ports s) (rc_users s) of (h, d) \<Rightarrow> s\<lparr>rc_ports := h, rc_users := d\<rparr>)
            | None \<Rightarrow> if rc_stop s = ClosedChan then s\<lparr>rc_running := False\<rparr> else s))"

lemma reconciler_stops:
  assumes "StopReconciler (StartReconciler s) = Inr s'"
  shows "reconciler_round cfg loc order wake (reconciler_round cfg loc order None s') = reconciler_round cfg loc order None s'"
  using assms by (auto simp: StopReconciler_def StartReconciler_def close_chan_def reconciler_round_def)

subsection \<open>The program\<close>

definition NewAdminAuth :: "string \<Rightarrow> string \<Rightarrow> AdminAuth" where
  "NewAdminAuth user bcryptHash = \<lparr>aa_user = user, aa_bcryptHash = bcryptHash\<rparr>"

text \<open>
  The part of main between the opened database and the listeners: \<open>mitm\<close> is the block page server it builds when interception is on, \<open>order\<close>
  the visiting order of the port map at \<open>now\<close>.
\<close>

definition main_program ::
  "proxy_env \<Rightarrow> (duration \<Rightarrow> Resolver option \<Rightarrow> string \<Rightarrow> string + (int \<times> int)) \<Rightarrow> (string \<Rightarrow> string \<Rightarrow> bool) \<Rightarrow> (string \<Rightarrow> string \<Rightarrow> string option) \<Rightarrow> time \<Rightarrow> int list \<Rightarrow> Config \<Rightarrow> DB \<Rightarrow>
   string + (proxy_env \<times> api_env \<times> system)" where
  "main_program E0 dial bcrypt mitm now order cfg users =
     (let adminAuth = NewAdminAuth (AdminUser cfg) (AdminPassword cfg);
          limiter = Limiter_New (AuthFailRateLimit cfg) (AuthFailWindow cfg)
      in case proxy_New E0 dial cfg users AllowAll_Allow limiter of
           Inl p \<Rightarrow> Inl p
         | Inr (E, h, ports) \<Rightarrow>
             let (A, a) = NewServer (pe_quote E0) cfg (pe_crypto E0) bcrypt (pe_loc E0) adminAuth users ports (admin_options cfg) (ForceHTTPS cfg);
                 E = (if MITMEnabled cfg then SetMITM (Some mitm) E else E)
             in case StartUserListeners cfg (pe_loc E) now order ports (a_users a) of
                  (Inl e, _, _) \<Rightarrow> Inl (''user listeners: loading port assignments: '' @ pe_errtext E e)
                | (Inr _, ports, d) \<Rightarrow> Inr (E, A, system_new (a\<lparr>a_users := d, a_ports := ports\<rparr>) (h_limiter h)))"

text \<open>The start-up pass over the ports is a reconciler pass over no listeners.\<close>

lemma start_is_reconcile:
  assumes "distinct order" "\<forall>p\<in>set order. userServers h p = None"
  shows "start_listeners cfg wanted (visit ports order) h = reconcile_start (visit (shouldRun cfg wanted ports) order) h"
  using assms
proof (induction order arbitrary: h)
  case (Cons p order)
  have st: "\<forall>q\<in>set order. userServers (startListenerLocked p u (h\<lparr>portUsers := x\<rparr>)) q = None" for u x
    using Cons.prems by (auto simp: startListenerLocked_def)
  show ?case
  proof (cases "ports p")
    case None
    then show ?thesis using Cons by (simp add: visit_def shouldRun_def)
  next
    case (Some u)
    then show ?thesis
      using Cons.IH [of h] Cons.IH [OF _ st] Cons.prems by (simp add: visit_def shouldRun_def)
  qed
qed (simp add: visit_def)

lemma boot_reconciles:
  assumes "distinct order" "sql_faults d = []"
  shows "StartUserListeners cfg loc now order no_ports d =
    (Inr (), reconcileListeners cfg loc now order no_ports d)"
proof -
  have stop: "reconcile_stop run no_ports = no_ports" for run by (simp add: reconcile_stop_def no_ports_def)
  have "start_listeners cfg w (visit ports order) no_ports = reconcile_start (visit (shouldRun cfg w ports) order) no_ports" for w ports
    by (rule start_is_reconcile [OF assms(1)]) (simp add: no_ports_def)
  then show ?thesis
    using assms(2) by (simp add: StartUserListeners_def reconcileListeners_def DB_ListPorts_def stop Let_def)
qed



end
