(* ===== verification/Metrics.thy ===== *)
theory Metrics
  imports Forward
begin

text \<open>
  The Prometheus metrics: src/pkg/metrics/metrics.go, and what one proxy request adds to them.

  The Prometheus client is a library, so the handlers yield the updates they make, in order.  Floats only carry integers and
  quotients of integers here: a duration is given in milliseconds or nanoseconds, before the division.
\<close>

datatype metric_op =
    TunnelsInc
  | TunnelsDec
  | RequestsInc "string list"
  | BlockedInc string
  | AuthFailuresInc
  | DurationObserve string int
  | BytesReadAdd int
  | BytesWrittenAdd int
  | DNSDurationObserve duration
  | DNSLookupsInc string

definition ObserveLiveBytes :: "int \<Rightarrow> int \<Rightarrow> metric_op list" where
  "ObserveLiveBytes rd written =
     (if rd > 0 then [BytesReadAdd rd] else []) @ (if written > 0 then [BytesWrittenAdd written] else [])"

definition request_labels :: "bool \<Rightarrow> Entry \<Rightarrow> string list" where
  "request_labels userLabel e =
     (if userLabel then [en_Method e, Itoa (en_Status e), if en_User e = [] then ''anonymous'' else en_User e]
      else [en_Method e, Itoa (en_Status e)])"

definition blocked_ops :: "Entry \<Rightarrow> metric_op list" where
  "blocked_ops e =
     (if en_Event e = ''dns-block'' then [BlockedInc ''dns_block'']
      else if en_Status e = 403 then [BlockedInc ''acl'']
      else if Contains (en_Error e) ''rate limited'' then [BlockedInc ''rate_limit'']
      else [])"

definition Metrics_Observe :: "bool \<Rightarrow> Entry \<Rightarrow> metric_op list" where
  "Metrics_Observe userLabel e =
     (if en_Event e = ''open'' then [TunnelsInc]
      else (if en_Event e = ''close'' then [TunnelsDec] else []) @
           [RequestsInc (request_labels userLabel e)] @
           blocked_ops e @
           (if en_Status e = 407 \<and> \<not> Contains (en_Error e) ''rate limited'' then [AuthFailuresInc] else []) @
           (if en_DurationMS e > 0 then [DurationObserve (en_Method e) (en_DurationMS e)] else []) @
           (if en_Method e \<noteq> ''CONNECT''
            then (if en_BytesRead e > 0 then [BytesReadAdd (en_BytesRead e)] else []) @
                 (if en_BytesWritten e > 0 then [BytesWrittenAdd (en_BytesWritten e)] else [])
            else []))"

definition ObserveDNS :: "duration \<Rightarrow> string \<Rightarrow> metric_op list" where
  "ObserveDNS d result = [DNSDurationObserve d, DNSLookupsInc result]"

subsection \<open>The metrics of a request\<close>

text \<open>The logger calls the observer on each access entry of the request.\<close>

definition access_entries :: "act list \<Rightarrow> Entry list" where
  "access_entries acts = concat (map (\<lambda>a. case a of LogAccess e \<Rightarrow> [e] | _ \<Rightarrow> []) acts)"

definition request_metrics :: "bool \<Rightarrow> act list \<Rightarrow> metric_op list" where
  "request_metrics ul acts = concat (map (Metrics_Observe ul) (access_entries acts))"

definition tunnels_opened :: "metric_op list \<Rightarrow> nat" where
  "tunnels_opened ops = length (filter (\<lambda>x. x = TunnelsInc) ops)"

definition tunnels_closed :: "metric_op list \<Rightarrow> nat" where
  "tunnels_closed ops = length (filter (\<lambda>x. x = TunnelsDec) ops)"

definition requests_counted :: "metric_op list \<Rightarrow> nat" where
  "requests_counted ops = length (filter (\<lambda>x. case x of RequestsInc _ \<Rightarrow> True | _ \<Rightarrow> False) ops)"

lemma access_entries_simps [simp]:
  "access_entries [] = []" "access_entries (LogAccess e # as) = e # access_entries as"
  "access_entries (ClientWrite s # as) = access_entries as" "access_entries (HTTPError s n # as) = access_entries as"
  "access_entries (ClientReply c hs # as) = access_entries as" "access_entries (ClientResponse c hdr # as) = access_entries as"
  "access_entries (DNSObserved d # as) = access_entries as" "access_entries (DialHost res s # as) = access_entries as"
  "access_entries (Relay u s # as) = access_entries as" "access_entries (BlockPage s u # as) = access_entries as"
  "access_entries (Upstream res q # as) = access_entries as" "access_entries (LogServer s t u # as) = access_entries as"
  "access_entries (as @ bs) = access_entries as @ access_entries bs"
  by (simp_all add: access_entries_def)

text \<open>Each entry moves the counts by what its event says.\<close>

definition entry_counts :: "Entry \<Rightarrow> nat \<times> nat \<times> nat" where
  "entry_counts e = (if en_Event e = ''open'' then (1, 0, 0) else if en_Event e = ''close'' then (0, 1, 1) else (0, 0, 1))"

lemma Observe_counts:
  "(tunnels_opened (Metrics_Observe ul e), tunnels_closed (Metrics_Observe ul e), requests_counted (Metrics_Observe ul e)) = entry_counts e"
  by (simp add: Metrics_Observe_def entry_counts_def blocked_ops_def tunnels_opened_def tunnels_closed_def requests_counted_def)

lemma request_metrics_counts:
  "tunnels_opened (request_metrics ul acts) = sum_list (map (\<lambda>e. fst (entry_counts e)) (access_entries acts))"
  "tunnels_closed (request_metrics ul acts) = sum_list (map (\<lambda>e. fst (snd (entry_counts e))) (access_entries acts))"
  "requests_counted (request_metrics ul acts) = sum_list (map (\<lambda>e. snd (snd (entry_counts e))) (access_entries acts))"
proof -
  have "tunnels_opened (concat (map (Metrics_Observe ul) es)) = sum_list (map (\<lambda>e. fst (entry_counts e)) es)"
    "tunnels_closed (concat (map (Metrics_Observe ul) es)) = sum_list (map (\<lambda>e. fst (snd (entry_counts e))) es)"
    "requests_counted (concat (map (Metrics_Observe ul) es)) = sum_list (map (\<lambda>e. snd (snd (entry_counts e))) es)" for es
    using Observe_counts [of ul, symmetric]
    by (induction es) (simp_all add: tunnels_opened_def tunnels_closed_def requests_counted_def)
  then show "tunnels_opened (request_metrics ul acts) = sum_list (map (\<lambda>e. fst (entry_counts e)) (access_entries acts))"
    "tunnels_closed (request_metrics ul acts) = sum_list (map (\<lambda>e. fst (snd (entry_counts e))) (access_entries acts))"
    "requests_counted (request_metrics ul acts) = sum_list (map (\<lambda>e. snd (snd (entry_counts e))) (access_entries acts))"
    by (simp_all add: request_metrics_def)
qed

text \<open>The events of the entries a request logs.\<close>

definition logged_events :: "act list \<Rightarrow> string list" where
  "logged_events acts = map en_Event (access_entries acts)"

definition single_event :: "string list \<Rightarrow> bool" where
  "single_event evs \<longleftrightarrow> (\<exists>ev. evs = [ev] \<and> ev \<noteq> ''open'' \<and> ev \<noteq> ''close'')"

definition tunnel_events :: "string list \<Rightarrow> bool" where
  "tunnel_events evs \<longleftrightarrow> single_event evs \<or> evs = [''open'', ''close'']"

lemma dial_events: "snd (classifyDialError e) \<noteq> ''open'' \<and> snd (classifyDialError e) \<noteq> ''close''"
  by (cases e) (simp_all add: classifyDialError_def Let_def)

lemma tunnel_events_intros: "ev \<noteq> ''open'' \<Longrightarrow> ev \<noteq> ''close'' \<Longrightarrow> tunnel_events [ev]" "tunnel_events [''open'', ''close'']"
  by (simp_all add: tunnel_events_def single_event_def)

lemma connectTunnel_events: "tunnel_events (logged_events (fst (connectTunnel E ck ip host u h)))"
proof -
  have "tunnel_events [snd (classifyDialError e)]" for e using dial_events [of e] by (simp add: tunnel_events_intros)
  then have c: "classifyDialError e = (st, ev) \<Longrightarrow> tunnel_events [ev]" for e st ev by (metis snd_conv)
  have "tunnel_events [[]]" by (simp add: tunnel_events_intros)
  then show ?thesis
    by (simp add: connectTunnel_def logged_events_def base_entry_def Let_def tunnel_events_intros c
        split: prod.split sum.split)
qed

text \<open>What a request may log: nothing, one entry, a tunnel, or a passthrough followed by one of these.\<close>

definition request_events :: "string list \<Rightarrow> bool" where
  "request_events evs \<longleftrightarrow> evs = [] \<or> tunnel_events evs \<or> (\<exists>evs'. evs = ''mitm_passthrough'' # evs' \<and> tunnel_events evs')"

lemma serveBlocked_events: "request_events (logged_events (fst (serveBlocked E ck ip host u reason h)))"
proof -
  let ?b = "if MITMEnabled (pe_cfg E) then pe_mitm E else None"
  have one: "request_events (logged_events acts)"
    if "access_entries acts = [e]" "en_Event e \<noteq> ''open''" "en_Event e \<noteq> ''close''" for acts e
    using that by (simp add: request_events_def tunnel_events_def single_event_def logged_events_def)
  show ?thesis
  proof (cases "?b = None \<or> \<not> Passthrough host")
    case True
    then show ?thesis unfolding serveBlocked_def Let_def
      by (cases ?b) (auto intro!: one simp: base_entry_def split: option.split)
  next
    case False
    then show ?thesis using connectTunnel_events [of E ck ip host u h] unfolding serveBlocked_def Let_def
      by (auto simp: request_events_def logged_events_def split: prod.split)
  qed
qed

lemma connect_admitted_events: "request_events (logged_events (fst (connect_admitted E ck ip host u h)))"
  using serveBlocked_events connectTunnel_events
  by (simp add: connect_admitted_def Let_def request_events_def [of "logged_events (fst (connectTunnel _ _ _ _ _ _))"])

lemma request_events_one: "ev \<noteq> ''open'' \<Longrightarrow> ev \<noteq> ''close'' \<Longrightarrow> request_events [ev]"
  by (simp add: request_events_def tunnel_events_def single_event_def)

lemma request_events_Nil: "request_events []"
  by (simp add: request_events_def)

lemma connect_retry_events: "request_events (logged_events (fst (connect_retry E salt ck r e retry h)))"
  using connect_admitted_events
  by (auto simp: connect_retry_def Let_def logged_events_def base_entry_def intro!: request_events_one
      split: option.split prod.split sum.split)

lemma connect_first_events:
  "case connect_first E salt ck hj r h of
     (acts, None, _) \<Rightarrow> request_events (logged_events acts)
   | (acts, Some _, _) \<Rightarrow> logged_events acts = []"
  by (auto simp: connect_first_def Let_def logged_events_def base_entry_def intro!: request_events_one request_events_Nil
      split: hijack.split prod.split sum.split)

lemma handleConnect_events: "request_events (logged_events (fst (handleConnect E salt ck ck2 hj others retry r h)))"
proof -
  obtain acts o1 h1 where f: "connect_first E salt ck hj r h = (acts, o1, h1)" by (cases "connect_first E salt ck hj r h") auto
  have l: "logged_events (acts @ bs) = logged_events acts @ logged_events bs" for bs by (simp add: logged_events_def)
  show ?thesis
  proof (cases o1)
    case None
    then show ?thesis using connect_first_events [of E salt ck hj r h] f by (simp add: handleConnect_def)
  next
    case (Some x)
    then have "logged_events acts = []" using connect_first_events [of E salt ck hj r h] f by simp
    then show ?thesis
      using Some f l connect_retry_events [of E salt ck2 r "projl x" retry "others h1"]
        connect_admitted_events [of E ck "clientAddr r" "hr_Host r" "projr x" h1]
      by (cases x) (simp_all add: handleConnect_def case_prod_beta)
  qed
qed

lemma handleForward_events: "request_events (logged_events (fst (handleForward E salt ck r h)))"
proof -
  have "request_events [snd (classifyDialError e)]" for e using dial_events [of e] by (simp add: request_events_one)
  then have c: "classifyDialError e = (st, ev) \<Longrightarrow> request_events [ev]" for e st ev by (metis snd_conv)
  have n: "request_events [[]]" by (simp add: request_events_one)
  show ?thesis
    by (simp add: handleForward_def logged_events_def logForwardHeaders_def base_entry_def Let_def c n
        split: prod.split sum.split)
qed

lemma ServeHTTP_events: "request_events (logged_events (fst (ServeHTTP E salt ck ck2 hj others retry r h)))"
  using handleConnect_events handleForward_events
  by (auto simp: ServeHTTP_def servePAC_def Let_def logged_events_def base_entry_def
      intro!: request_events_one request_events_Nil)

definition event_counts :: "string \<Rightarrow> nat \<times> nat \<times> nat" where
  "event_counts ev = (if ev = ''open'' then (1, 0, 0) else if ev = ''close'' then (0, 1, 1) else (0, 0, 1))"

lemma metrics_by_events:
  "tunnels_opened (request_metrics ul acts) = sum_list (map (\<lambda>ev. fst (event_counts ev)) (logged_events acts))"
  "tunnels_closed (request_metrics ul acts) = sum_list (map (\<lambda>ev. fst (snd (event_counts ev))) (logged_events acts))"
  "requests_counted (request_metrics ul acts) = sum_list (map (\<lambda>ev. snd (snd (event_counts ev))) (logged_events acts))"
  by (simp_all add: request_metrics_counts logged_events_def entry_counts_def event_counts_def comp_def)

text \<open>
  C29. The metrics of a request are consistent.  Whatever a client sends and however the request ends, the gauge of
  active tunnels is raised as often as it is lowered, at most once, and the request is counted at most once; only a
  passthrough for a paused user is counted twice.
\<close>

theorem request_metrics_balanced:
  "let acts = fst (ServeHTTP E salt ck ck2 hj others retry r h); ops = request_metrics ul acts
   in tunnels_opened ops = tunnels_closed ops \<and> tunnels_opened ops \<le> 1 \<and>
      requests_counted ops \<le> (if ''mitm_passthrough'' \<in> set (logged_events acts) then 2 else 1)"
proof -
  let ?evs = "logged_events (fst (ServeHTTP E salt ck ck2 hj others retry r h))"
  have t: "sum_list (map (\<lambda>ev. fst (event_counts ev)) evs) = sum_list (map (\<lambda>ev. fst (snd (event_counts ev))) evs) \<and>
      sum_list (map (\<lambda>ev. fst (event_counts ev)) evs) \<le> 1 \<and> sum_list (map (\<lambda>ev. snd (snd (event_counts ev))) evs) = 1"
    if "tunnel_events evs" for evs
    using that by (auto simp: tunnel_events_def single_event_def event_counts_def)
  have "request_events ?evs" by (rule ServeHTTP_events)
  then consider "?evs = []" | "tunnel_events ?evs" | evs where "?evs = ''mitm_passthrough'' # evs" "tunnel_events evs"
    unfolding request_events_def by blast
  then show ?thesis
  proof cases
    case 1
    then show ?thesis by (simp add: metrics_by_events)
  next
    case 2
    then show ?thesis using t [OF 2] by (simp add: metrics_by_events)
  next
    case 3
    then show ?thesis using t [OF 3(2)] by (simp add: metrics_by_events event_counts_def [of "''mitm_passthrough''"])
  qed
qed

end
