(* ===== verification/Counter.thy ===== *)
theory Counter
  imports Stats Metrics
begin

text \<open>
  Live byte counting as a concurrent program (src/pkg/stats/counter.go): the writers of all open connections, their flusher
  goroutines, the channel of 256 deltas and the drain goroutine with its observers.  A step is one atomic action of
  one goroutine, so a run is any interleaving.  No byte is counted twice or lost except, knowingly, to a full channel.
\<close>

subsection \<open>State\<close>

text \<open>A counting writer with the state of its stop channel and of its flusher.\<close>

record live_writer =
  lw_cw :: CountingWriter
  lw_stop :: bool
  lw_flusher :: bool

text \<open>The drain goroutine: in its main loop, in the loop after the stop, or returned.\<close>

datatype drain_phase = DrainLoop | DrainRest | DrainDone

text \<open>\<open>lv_delivered\<close> is the sequence of deltas the drain goroutine has received; \<open>lv_world\<close> what the observers change.\<close>

record 'w live =
  lv_writers :: "live_writer list"
  lv_tc :: TrafficCounter
  lv_observers :: "(int \<Rightarrow> int \<Rightarrow> 'w \<Rightarrow> 'w) list"
  lv_stopCh :: bool
  lv_phase :: drain_phase
  lv_stats :: Collector
  lv_world :: 'w
  lv_delivered :: "(int \<times> int) list"

definition live_new :: "Collector \<Rightarrow> 'w \<Rightarrow> 'w live" where
  "live_new c w = \<lparr>lv_writers = [], lv_tc = NewTrafficCounter, lv_observers = [], lv_stopCh = False, lv_phase = DrainLoop,
     lv_stats = c, lv_world = w, lv_delivered = []\<rparr>"

subsection \<open>Actions\<close>

definition TrafficCounter_AddObserver :: "(int \<Rightarrow> int \<Rightarrow> 'w \<Rightarrow> 'w) \<Rightarrow> 'w live \<Rightarrow> 'w live" where
  "TrafficCounter_AddObserver fn s = s\<lparr>lv_observers := lv_observers s @ [fn]\<rparr>"

text \<open>\<open>NewWriter\<close> with \<open>startFlusher\<close>.\<close>

definition open_writer :: "bool \<Rightarrow> 'w live \<Rightarrow> 'w live" where
  "open_writer isRead s = s\<lparr>lv_writers := lv_writers s @ [\<lparr>lw_cw = NewWriter isRead, lw_stop = False, lw_flusher = True\<rparr>]\<rparr>"

definition upd_writer :: "nat \<Rightarrow> (live_writer \<Rightarrow> live_writer) \<Rightarrow> 'w live \<Rightarrow> 'w live" where
  "upd_writer i f s = s\<lparr>lv_writers := (lv_writers s)[i := f (lv_writers s ! i)]\<rparr>"

text \<open>One \<open>flush\<close> of writer \<open>i\<close>.\<close>

definition live_flush :: "nat \<Rightarrow> 'w live \<Rightarrow> 'w live" where
  "live_flush i s =
     (case CountingWriter_flush (lw_cw (lv_writers s ! i)) (lv_tc s) of
        (cw, tc) \<Rightarrow> (upd_writer i (\<lambda>w. w\<lparr>lw_cw := cw\<rparr>) s)\<lparr>lv_tc := tc\<rparr>)"

text \<open>The two cases of the flusher's \<open>select\<close>: the ticker, and the closed stop channel after which it returns.\<close>

definition flusher_tick :: "nat \<Rightarrow> 'w live \<Rightarrow> 'w live" where
  "flusher_tick i s = (if lw_flusher (lv_writers s ! i) then live_flush i s else s)"

definition flusher_stop :: "nat \<Rightarrow> 'w live \<Rightarrow> 'w live" where
  "flusher_stop i s =
     (if lw_flusher (lv_writers s ! i) \<and> lw_stop (lv_writers s ! i)
      then upd_writer i (\<lambda>w. w\<lparr>lw_flusher := False\<rparr>) (live_flush i s) else s)"

definition CountingWriter_Close :: "nat \<Rightarrow> 'w live \<Rightarrow> 'w live" where
  "CountingWriter_Close i s = upd_writer i (\<lambda>w. w\<lparr>lw_stop := True\<rparr>) s"

text \<open>One received delta: the collector first, then every observer.\<close>

definition notify :: "(int \<Rightarrow> int \<Rightarrow> 'w \<Rightarrow> 'w) list \<Rightarrow> int \<times> int \<Rightarrow> 'w \<Rightarrow> 'w" where
  "notify obs d w = fold (\<lambda>fn. fn (fst d) (snd d)) obs w"

definition drain_receive :: "time \<Rightarrow> 'w live \<Rightarrow> 'w live" where
  "drain_receive now s =
     (case tc_ch (lv_tc s) of
        [] \<Rightarrow> s
      | d # _ \<Rightarrow>
          (case drain_step now (lv_tc s) (lv_stats s) of
             (tc, c) \<Rightarrow> s\<lparr>lv_tc := tc, lv_stats := c, lv_world := notify (lv_observers s) d (lv_world s),
                         lv_delivered := lv_delivered s @ [d]\<rparr>))"

text \<open>A round of \<open>drain\<close>: a receive, or the switch to the last loop, whose \<open>default\<close> case returns.\<close>

definition drain_round :: "time \<Rightarrow> bool \<Rightarrow> 'w live \<Rightarrow> 'w live" where
  "drain_round now sees_stop s =
     (case lv_phase s of
        DrainLoop \<Rightarrow> if sees_stop \<and> lv_stopCh s then s\<lparr>lv_phase := DrainRest\<rparr> else drain_receive now s
      | DrainRest \<Rightarrow> if tc_ch (lv_tc s) = [] then s\<lparr>lv_phase := DrainDone\<rparr> else drain_receive now s
      | DrainDone \<Rightarrow> s)"

definition TrafficCounter_Stop :: "'w live \<Rightarrow> 'w live" where
  "TrafficCounter_Stop s = s\<lparr>lv_stopCh := True\<rparr>"

subsection \<open>Runs\<close>

datatype live_event =
    LvOpen bool
  | LvWrite nat int
  | LvTick nat
  | LvClose nat
  | LvFlushStop nat
  | LvDrain time bool
  | LvStop

text \<open>An action on a writer that does not exist is no action.\<close>

fun live_step :: "live_event \<Rightarrow> 'w live \<Rightarrow> 'w live" where
  "live_step (LvOpen isRead) s = open_writer isRead s"
| "live_step (LvWrite i n) s =
     (if i < length (lv_writers s) then upd_writer i (\<lambda>w. w\<lparr>lw_cw := CountingWriter_Write n (lw_cw w)\<rparr>) s else s)"
| "live_step (LvTick i) s = (if i < length (lv_writers s) then flusher_tick i s else s)"
| "live_step (LvClose i) s = (if i < length (lv_writers s) then CountingWriter_Close i s else s)"
| "live_step (LvFlushStop i) s = (if i < length (lv_writers s) then flusher_stop i s else s)"
| "live_step (LvDrain now sees_stop) s = drain_round now sees_stop s"
| "live_step LvStop s = TrafficCounter_Stop s"

text \<open>The bytes the wrapped writers of one direction reported.\<close>

fun live_written :: "bool \<Rightarrow> live_event list \<Rightarrow> 'w live \<Rightarrow> int" where
  "live_written isRead [] s = 0"
| "live_written isRead (e # es) s =
     (case e of
        LvWrite i n \<Rightarrow> if i < length (lv_writers s) \<and> cw_isRead (lw_cw (lv_writers s ! i)) = isRead \<and> 0 < n then n else 0
      | _ \<Rightarrow> 0) + live_written isRead es (live_step e s)"

definition side :: "bool \<Rightarrow> int \<times> int \<Rightarrow> int" where "side isRead d = (if isRead then fst d else snd d)"

definition bytes_of :: "bool \<Rightarrow> (int \<times> int) list \<Rightarrow> int" where
  "bytes_of isRead ds = sum_list (map (side isRead) ds)"

definition pending_of :: "bool \<Rightarrow> live_writer list \<Rightarrow> int" where
  "pending_of isRead ws = sum_list (map (\<lambda>w. if cw_isRead (lw_cw w) = isRead then cw_pending (lw_cw w) else 0) ws)"

text \<open>Every byte is delivered, queued, dropped or pending.\<close>

definition accounted :: "bool \<Rightarrow> 'w live \<Rightarrow> int" where
  "accounted isRead s = bytes_of isRead (lv_delivered s) + bytes_of isRead (tc_ch (lv_tc s)) +
     bytes_of isRead (tc_dropped (lv_tc s)) + pending_of isRead (lv_writers s)"

subsection \<open>Conservation\<close>

lemma bytes_of_simps [simp]:
  "bytes_of r [] = 0" "bytes_of r (d # ds) = side r d + bytes_of r ds" "bytes_of r (ds @ es) = bytes_of r ds + bytes_of r es"
  by (simp_all add: bytes_of_def)

lemma pending_of_append [simp]: "pending_of r (ws @ vs) = pending_of r ws + pending_of r vs"
  by (simp add: pending_of_def)

lemma sum_list_upd: "i < length xs \<Longrightarrow> sum_list (map f (xs[i := x])) = sum_list (map f xs) - f (xs ! i) + (f x :: int)"
  by (induction xs arbitrary: i) (auto split: nat.split)

lemma pending_of_upd:
  "i < length ws \<Longrightarrow> pending_of r (ws[i := w]) = pending_of r ws - pending_of r [ws ! i] + pending_of r [w]"
  unfolding pending_of_def by (subst sum_list_upd) simp_all

lemma wrap64_mod: "wrap64 x mod 2 ^ 64 = x mod 2 ^ 64"
  by (simp add: wrap64_def mod_simps)

lemma flush_account:
  assumes "CountingWriter_flush cw tc = (cw', tc')"
  shows "bytes_of r (tc_ch tc') + bytes_of r (tc_dropped tc') =
      bytes_of r (tc_ch tc) + bytes_of r (tc_dropped tc) + (if cw_isRead cw = r then cw_pending cw else 0)"
    and "cw_pending cw' = 0" "cw_isRead cw' = cw_isRead cw" "length (tc_ch tc) \<le> liveChanSize \<Longrightarrow> length (tc_ch tc') \<le> liveChanSize"
  using assms by (auto simp: CountingWriter_flush_def Let_def side_def split: if_splits)

lemma live_flush_account:
  assumes "i < length (lv_writers s)"
  shows "accounted r (live_flush i s) = accounted r s"
proof -
  obtain cw tc where f: "CountingWriter_flush (lw_cw (lv_writers s ! i)) (lv_tc s) = (cw, tc)" by fastforce
  show ?thesis using flush_account(1) [OF f, of r] flush_account(2,3) [OF f] assms
    by (simp add: live_flush_def f accounted_def upd_writer_def pending_of_upd) (auto simp: pending_of_def split: if_splits)
qed

lemma upd_flag_account:
  assumes "\<And>w. lw_cw (f w) = lw_cw w"
  shows "accounted r (upd_writer i f s) = accounted r s"
proof (cases "i < length (lv_writers s)")
  case True
  then show ?thesis by (simp add: accounted_def upd_writer_def pending_of_upd) (simp add: pending_of_def assms)
qed (simp add: accounted_def upd_writer_def list_update_beyond)

lemma receive_account: "accounted r (drain_receive now s) = accounted r s"
  by (simp add: accounted_def drain_receive_def drain_step_def split: list.splits prod.splits)

lemma round_account: "accounted r (drain_round now b s) = accounted r s"
  using receive_account [of r now s] by (simp add: drain_round_def accounted_def split: drain_phase.splits)

lemma step_account:
  "accounted r (live_step e s) mod 2 ^ 64 = (accounted r s + live_written r [e] s) mod 2 ^ 64"
proof (cases e)
  case (LvWrite i n)
  show ?thesis
  proof (cases "i < length (lv_writers s) \<and> 0 < n")
    case True
    let ?cw = "lw_cw (lv_writers s ! i)"
    have "accounted r (live_step e s) = accounted r s +
        (if cw_isRead ?cw = r then wrap64 (cw_pending ?cw + n) - cw_pending ?cw else 0)"
      using True by (simp add: LvWrite accounted_def upd_writer_def pending_of_upd CountingWriter_Write_def) (simp add: pending_of_def)
    moreover have "(accounted r s + (wrap64 (cw_pending ?cw + n) - cw_pending ?cw)) mod 2 ^ 64 = (accounted r s + n) mod 2 ^ 64"
      using mod_diff_cong [OF mod_add_cong [OF refl wrap64_mod] refl, of "accounted r s" "cw_pending ?cw + n" "cw_pending ?cw"]
      by (simp add: algebra_simps)
    ultimately show ?thesis using True by (simp add: LvWrite)
  next
    case False
    then have "accounted r (live_step e s) = accounted r s"
      using upd_flag_account [of "\<lambda>w. w\<lparr>lw_cw := CountingWriter_Write n (lw_cw w)\<rparr>" r i s] by (auto simp: LvWrite CountingWriter_Write_def)
    then show ?thesis using False by (auto simp: LvWrite)
  qed
next
  case (LvOpen b)
  then show ?thesis by (simp add: open_writer_def accounted_def NewWriter_def) (simp add: pending_of_def)
next
  case (LvTick i)
  then show ?thesis by (simp add: flusher_tick_def live_flush_account)
next
  case (LvClose i)
  then show ?thesis by (simp add: CountingWriter_Close_def upd_flag_account)
next
  case (LvFlushStop i)
  then show ?thesis by (simp add: flusher_stop_def live_flush_account upd_flag_account)
next
  case (LvDrain now b)
  then show ?thesis by (simp add: round_account)
next
  case LvStop
  then show ?thesis by (simp add: TrafficCounter_Stop_def accounted_def)
qed

lemma written_append: "live_written r (es @ fs) s = live_written r es s + live_written r fs (fold live_step es s)"
  by (induction es arbitrary: s) simp_all

lemma run_account: "accounted r (fold live_step es s) mod 2 ^ 64 = (accounted r s + live_written r es s) mod 2 ^ 64"
proof (induction es rule: rev_induct)
  case (snoc e es)
  let ?s = "fold live_step es s"
  have "accounted r (fold live_step (es @ [e]) s) mod 2 ^ 64 = (accounted r ?s + live_written r [e] ?s) mod 2 ^ 64"
    using step_account [of r e ?s] by (simp only: fold_append fold.simps comp_apply id_apply)
  also have "\<dots> = ((accounted r s + live_written r es s) + live_written r [e] ?s) mod 2 ^ 64"
    by (rule mod_add_cong [OF snoc.IH refl])
  also have "\<dots> = (accounted r s + live_written r (es @ [e]) s) mod 2 ^ 64" by (simp only: written_append add.assoc)
  finally show ?case .
qed simp

text \<open>The observers have seen exactly the delivered deltas, once each and in order; the queue stays within the channel.\<close>

definition live_ok :: "(int \<Rightarrow> int \<Rightarrow> 'w \<Rightarrow> 'w) list \<Rightarrow> 'w \<Rightarrow> 'w live \<Rightarrow> bool" where
  "live_ok obs w s \<longleftrightarrow> lv_observers s = obs \<and> lv_world s = fold (notify obs) (lv_delivered s) w \<and>
     length (tc_ch (lv_tc s)) \<le> liveChanSize"

lemma live_ok_frame [simp]:
  "live_ok obs w (s\<lparr>lv_writers := x\<rparr>) = live_ok obs w s" "live_ok obs w (s\<lparr>lv_stopCh := y\<rparr>) = live_ok obs w s"
  "live_ok obs w (s\<lparr>lv_phase := z\<rparr>) = live_ok obs w s" "live_ok obs w (upd_writer i f s) = live_ok obs w s"
  by (simp_all add: live_ok_def upd_writer_def)

lemma live_ok_flush:
  assumes "live_ok obs w s"
  shows "live_ok obs w (live_flush i s)"
proof -
  obtain cw tc where f: "CountingWriter_flush (lw_cw (lv_writers s ! i)) (lv_tc s) = (cw, tc)" by fastforce
  show ?thesis using assms flush_account(4) [OF f] by (simp add: live_ok_def live_flush_def upd_writer_def f)
qed

lemma live_ok_receive: "live_ok obs w s \<Longrightarrow> live_ok obs w (drain_receive now s)"
  by (auto simp: live_ok_def drain_receive_def drain_step_def split: list.splits prod.splits)

lemma live_ok_step:
  assumes "live_ok obs w s"
  shows "live_ok obs w (live_step e s)"
proof (cases e)
  case (LvDrain now b)
  then show ?thesis using assms live_ok_receive [OF assms] by (simp add: drain_round_def split: drain_phase.splits)
qed (use assms live_ok_flush [OF assms] in
  \<open>auto simp: flusher_tick_def flusher_stop_def CountingWriter_Close_def open_writer_def TrafficCounter_Stop_def\<close>)

lemma live_ok_run: "live_ok obs w s \<Longrightarrow> live_ok obs w (fold live_step es s)"
  by (induction es arbitrary: s) (simp_all add: live_ok_step)

text \<open>The counter as main wires it: the observers are registered before any writer exists.\<close>

definition live_start :: "Collector \<Rightarrow> (int \<Rightarrow> int \<Rightarrow> 'w \<Rightarrow> 'w) list \<Rightarrow> 'w \<Rightarrow> 'w live" where
  "live_start c obs w = fold TrafficCounter_AddObserver obs (live_new c w)"

lemma live_start_eq: "live_start c obs w = (live_new c w)\<lparr>lv_observers := obs\<rparr>"
proof -
  have "fold TrafficCounter_AddObserver obs s = s\<lparr>lv_observers := lv_observers s @ obs\<rparr>" for s
    by (induction obs arbitrary: s) (simp_all add: TrafficCounter_AddObserver_def)
  then show ?thesis by (simp add: live_start_def live_new_def)
qed

text \<open>
  C18. No byte is lost unseen.  In any interleaving of the writers of all connections, their flushers, the drain goroutine and the stop, the
  bytes written in a direction are, modulo the width of the counters, those delivered plus those queued, dropped at a full channel and not
  yet flushed; every observer has been called for exactly the delivered deltas, once each and in order; and never more
  than 256 deltas wait.
\<close>

theorem live_bytes_conserved:
  "let s = fold live_step es (live_start c obs w)
   in (bytes_of r (lv_delivered s) + bytes_of r (tc_ch (lv_tc s)) + bytes_of r (tc_dropped (lv_tc s)) + pending_of r (lv_writers s)) mod 2 ^ 64 =
        live_written r es (live_start c obs w) mod 2 ^ 64 \<and>
      lv_world s = fold (\<lambda>(rd, wr). fold (\<lambda>fn. fn rd wr) obs) (lv_delivered s) w \<and> length (tc_ch (lv_tc s)) \<le> 256"
proof -
  let ?s = "fold live_step es (live_start c obs w)"
  have "accounted r (live_start c obs w) = 0"
    by (simp add: live_start_eq live_new_def accounted_def NewTrafficCounter_def pending_of_def)
  then have "accounted r ?s mod 2 ^ 64 = live_written r es (live_start c obs w) mod 2 ^ 64"
    using run_account [of r es "live_start c obs w"] by simp
  moreover have "live_ok obs w ?s"
    by (rule live_ok_run) (simp add: live_ok_def live_start_eq live_new_def NewTrafficCounter_def liveChanSize_def)
  moreover have "notify obs = (\<lambda>(rd, wr). fold (\<lambda>fn. fn rd wr) obs)" by (simp add: notify_def fun_eq_iff)
  ultimately show ?thesis by (simp add: accounted_def live_ok_def liveChanSize_def Let_def)
qed

subsection \<open>Delivery\<close>

text \<open>A schedule of one second: the drain goroutine empties the channel, then every flusher ticks once.\<close>

definition settle :: "time \<Rightarrow> 'w live \<Rightarrow> live_event list" where
  "settle now s = replicate (length (tc_ch (lv_tc s))) (LvDrain now False) @
     concat (map (\<lambda>i. [LvTick i, LvDrain now False]) [0..<length (lv_writers s)])"

lemma receive_loop:
  assumes "lv_phase s = DrainLoop"
  shows "let s' = fold live_step (replicate (length (tc_ch (lv_tc s))) (LvDrain now False)) s
     in lv_phase s' = DrainLoop \<and> tc_ch (lv_tc s') = [] \<and> tc_dropped (lv_tc s') = tc_dropped (lv_tc s) \<and> lv_writers s' = lv_writers s"
  using assms
proof (induction "tc_ch (lv_tc s)" arbitrary: s)
  case (Cons d ds)
  let ?s = "drain_receive now s"
  have ch: "tc_ch (lv_tc s) = d # ds" using Cons.hyps(2) by simp
  have s1: "live_step (LvDrain now False) s = ?s" using Cons.prems by (simp add: drain_round_def)
  have p: "tc_ch (lv_tc ?s) = ds" "lv_phase ?s = DrainLoop" "tc_dropped (lv_tc ?s) = tc_dropped (lv_tc s)" "lv_writers ?s = lv_writers s"
    using Cons.prems ch by (simp_all add: drain_receive_def drain_step_def split: prod.split)
  have "fold live_step (replicate (length (tc_ch (lv_tc s))) (LvDrain now False)) s =
      fold live_step (replicate (length (tc_ch (lv_tc ?s))) (LvDrain now False)) ?s"
    unfolding ch p(1) by (simp add: s1 del: live_step.simps)
  then show ?case using Cons.hyps(1) [of ?s] p by (simp add: Let_def)
qed (simp add: Let_def)

definition settled :: "nat \<Rightarrow> 'w live \<Rightarrow> bool" where
  "settled k s \<longleftrightarrow> lv_phase s = DrainLoop \<and> tc_ch (lv_tc s) = [] \<and> list_all lw_flusher (lv_writers s) \<and>
     k \<le> length (lv_writers s) \<and> list_all (\<lambda>w. cw_pending (lw_cw w) = 0) (take k (lv_writers s))"

lemma settle_one:
  assumes "settled k s" "k < length (lv_writers s)"
  shows "let s' = fold live_step [LvTick k, LvDrain now False] s
     in settled (Suc k) s' \<and> tc_dropped (lv_tc s') = tc_dropped (lv_tc s) \<and> length (lv_writers s') = length (lv_writers s)"
proof -
  obtain cw tc where f: "CountingWriter_flush (lw_cw (lv_writers s ! k)) (lv_tc s) = (cw, tc)" by fastforce
  have ch: "tc_ch (lv_tc s) = []" "lv_phase s = DrainLoop" and fl: "list_all lw_flusher (lv_writers s)"
    and z: "list_all (\<lambda>w. cw_pending (lw_cw w) = 0) (take k (lv_writers s))" using assms(1) by (simp_all add: settled_def)
  have tc: "tc_dropped tc = tc_dropped (lv_tc s)" "tc_ch tc = [] \<or> (\<exists>d. tc_ch tc = [d])" "cw_pending cw = 0"
    using f ch(1) by (auto simp: CountingWriter_flush_def Let_def liveChanSize_def split: if_splits)
  have tick: "live_step (LvTick k) s = (upd_writer k (\<lambda>w. w\<lparr>lw_cw := cw\<rparr>) s)\<lparr>lv_tc := tc\<rparr>"
    using assms(2) fl by (simp add: flusher_tick_def live_flush_def f list_all_length)
  let ?ws = "(lv_writers s)[k := (lv_writers s ! k)\<lparr>lw_cw := cw\<rparr>]"
  have run: "lv_writers (fold live_step [LvTick k, LvDrain now False] s) = ?ws \<and>
      tc_ch (lv_tc (fold live_step [LvTick k, LvDrain now False] s)) = [] \<and>
      lv_phase (fold live_step [LvTick k, LvDrain now False] s) = DrainLoop \<and>
      tc_dropped (lv_tc (fold live_step [LvTick k, LvDrain now False] s)) = tc_dropped (lv_tc s)"
    unfolding fold.simps comp_apply tick using tc(1,2) ch
    by (auto simp: drain_round_def drain_receive_def drain_step_def upd_writer_def split: prod.split)
  have "list_all lw_flusher ?ws" using fl assms(2) by (auto simp: list_all_length nth_list_update)
  moreover have "list_all (\<lambda>w. cw_pending (lw_cw w) = 0) (take (Suc k) ?ws)"
    using z assms(2) tc(3) by (auto simp: take_Suc_conv_app_nth list_all_length nth_append)
  ultimately show ?thesis using run assms(2) by (simp add: settled_def Let_def)
qed

lemma settle_all:
  assumes "settled 0 s" "n \<le> length (lv_writers s)"
  shows "let s' = fold live_step (concat (map (\<lambda>i. [LvTick i, LvDrain now False]) [0..<n])) s
     in settled n s' \<and> tc_dropped (lv_tc s') = tc_dropped (lv_tc s) \<and> length (lv_writers s') = length (lv_writers s)"
  using assms(2)
proof (induction n)
  case 0
  then show ?case using assms(1) by (simp add: Let_def)
next
  case (Suc n)
  let ?s = "fold live_step (concat (map (\<lambda>i. [LvTick i, LvDrain now False]) [0..<n])) s"
  have IH: "settled n ?s" "tc_dropped (lv_tc ?s) = tc_dropped (lv_tc s)" "length (lv_writers ?s) = length (lv_writers s)"
    using Suc by (simp_all add: Let_def)
  have "fold live_step (concat (map (\<lambda>i. [LvTick i, LvDrain now False]) [0..<Suc n])) s = fold live_step [LvTick n, LvDrain now False] ?s"
    by (simp del: live_step.simps)
  then show ?case using settle_one [OF IH(1), of now] IH Suc.prems by (simp add: Let_def)
qed

lemma pending_of_zero: "list_all (\<lambda>w. cw_pending (lw_cw w) = 0) ws \<Longrightarrow> pending_of r ws = 0"
  by (induction ws) (simp_all add: pending_of_def)

lemma no_writes: "\<forall>e\<in>set es. \<forall>i n. e \<noteq> LvWrite i n \<Longrightarrow> live_written r es s = 0"
  by (induction es arbitrary: s) (auto split: live_event.splits)

lemma settle_writes: "live_written r (settle now s) t = 0"
  by (rule no_writes) (auto simp: settle_def)


text \<open>A connection that sends 100 bytes and receives 7 and 35, with the metrics as the only observer.\<close>

definition ex_live :: "live_event list" where
  "ex_live = [LvOpen True, LvOpen False, LvWrite 0 100, LvWrite 1 7, LvTick 0, LvWrite 1 35]"

definition ex_live_observers :: "(int \<Rightarrow> int \<Rightarrow> metric_op list \<Rightarrow> metric_op list) list" where
  "ex_live_observers = [\<lambda>rd wr ops. ops @ ObserveLiveBytes rd wr]"


end
