(* ===== verification/Tunnel.thy ===== *)
theory Tunnel
  imports Counter "HOL-Library.Sublist"
begin

text \<open>
  The relay of an open CONNECT tunnel (\<open>connectTunnel\<close> of src/pkg/proxy/connect.go, from the two counting writers on): one goroutine per direction
  copies, closes its counter and half-closes the peer, while a third waits for both and logs the close entry.  A step is one atomic action of one of them, or of
  the rest of the live byte counting of \<open>Counter\<close>, so that a run is any interleaving, other tunnels included.
\<close>

subsection \<open>State\<close>

text \<open>Where the goroutine of a direction is: in \<open>io.Copy\<close>, before closing the counter, before the half-close, or returned.\<close>

datatype copy_pc = AtCopy | AtClose | AtHalfClose | AtEnd

text \<open>
  A direction: the index of its counting writer, the bytes read from the source, the bytes the peer's connection took,
  whether a write failed or the goroutine panicked, and whether the peer's write half was shut down.
\<close>

record direction =
  td_writer :: nat
  td_pc :: copy_pc
  td_received :: string
  td_sent :: string
  td_failed :: bool
  td_panicked :: bool
  td_fin :: bool

text \<open>\<open>tn_closed\<close> has \<open>BytesRead\<close> and \<open>BytesWritten\<close> of the close entry once it is logged.\<close>

record 'w tunnel =
  tn_live :: "'w live"
  tn_up :: direction
  tn_down :: direction
  tn_errors :: "string list"
  tn_closed :: "(int \<times> int) option"

definition direction_new :: "nat \<Rightarrow> direction" where
  "direction_new i = \<lparr>td_writer = i, td_pc = AtCopy, td_received = [], td_sent = [], td_failed = False, td_panicked = False, td_fin = False\<rparr>"

text \<open>\<open>readCounter\<close> counts what goes to the target, \<open>writeCounter\<close> what goes to the client.\<close>

definition tunnel_new :: "'w live \<Rightarrow> 'w tunnel" where
  "tunnel_new L = \<lparr>tn_live = open_writer False (open_writer True L), tn_up = direction_new (length (lv_writers L)),
     tn_down = direction_new (Suc (length (lv_writers L))), tn_errors = [], tn_closed = None\<rparr>"

definition tn_dir :: "bool \<Rightarrow> 'w tunnel \<Rightarrow> direction" where "tn_dir up s = (if up then tn_up s else tn_down s)"

definition tn_put :: "bool \<Rightarrow> direction \<Rightarrow> 'w tunnel \<Rightarrow> 'w tunnel" where
  "tn_put up d s = (if up then s\<lparr>tn_up := d\<rparr> else s\<lparr>tn_down := d\<rparr>)"

subsection \<open>Actions\<close>

text \<open>
  A round of \<open>io.Copy\<close>: \<open>chunk\<close> was read, the peer took its first \<open>took\<close> bytes; a write error, a short write or
  the end of the source (\<open>\<not> again\<close>, end of file or an error) ends the copy.
\<close>

definition copy_round :: "bool \<Rightarrow> string \<Rightarrow> nat \<Rightarrow> bool \<Rightarrow> bool \<Rightarrow> 'w tunnel \<Rightarrow> 'w tunnel" where
  "copy_round up chunk took werr again s =
     (let d = tn_dir up s
      in if chunk = [] then tn_put up (d\<lparr>td_pc := (if again then AtCopy else AtClose)\<rparr>) s
         else let part = take took chunk; failed = (werr \<or> took < length chunk)
              in tn_put up (d\<lparr>td_received := td_received d @ chunk, td_sent := td_sent d @ part, td_failed := failed,
                   td_pc := (if failed \<or> \<not> again then AtClose else AtCopy)\<rparr>)
                 (s\<lparr>tn_live := live_step (LvWrite (td_writer d) (int (length part))) (tn_live s)\<rparr>))"

definition close_counter :: "bool \<Rightarrow> 'w tunnel \<Rightarrow> 'w tunnel" where
  "close_counter up s =
     (let d = tn_dir up s
      in tn_put up (d\<lparr>td_pc := AtHalfClose\<rparr>) (s\<lparr>tn_live := live_step (LvClose (td_writer d)) (tn_live s)\<rparr>))"

text \<open>\<open>supported\<close>: the connection has a \<open>CloseWrite\<close>.\<close>

definition halfCloseWrite :: "bool \<Rightarrow> direction \<Rightarrow> direction" where
  "halfCloseWrite supported d = (if supported then d\<lparr>td_fin := True\<rparr> else d)"

definition half_close :: "(bool \<Rightarrow> bool) \<Rightarrow> bool \<Rightarrow> 'w tunnel \<Rightarrow> 'w tunnel" where
  "half_close cwr up s = tn_put up ((halfCloseWrite (cwr up) (tn_dir up s))\<lparr>td_pc := AtEnd\<rparr>) s"

text \<open>A recovered panic: an error line, and the goroutine is done.\<close>

definition tunnel_panic :: "string \<Rightarrow> string \<Rightarrow> bool \<Rightarrow> string \<Rightarrow> 'w tunnel \<Rightarrow> 'w tunnel" where
  "tunnel_panic host user up v s =
     tn_put up ((tn_dir up s)\<lparr>td_pc := AtEnd, td_panicked := True\<rparr>)
       (s\<lparr>tn_errors := tn_errors s @ [''panic in tunnel '' @ (if up then ''read'' else ''write'') @ '' goroutine (host='' @ host @ '' user='' @ user @ ''): '' @ v]\<rparr>)"

definition tn_total :: "bool \<Rightarrow> 'w tunnel \<Rightarrow> int" where
  "tn_total up s = CountingWriter_Total (lw_cw (lv_writers (tn_live s) ! td_writer (tn_dir up s)))"

text \<open>After \<open>wg.Wait\<close>: the close entry.\<close>

definition tunnel_close :: "'w tunnel \<Rightarrow> 'w tunnel" where
  "tunnel_close s = s\<lparr>tn_closed := Some (tn_total True s, tn_total False s)\<rparr>"

text \<open>The two writers belong to the tunnel: nobody else writes to them or closes them.\<close>

fun foreign :: "nat set \<Rightarrow> live_event \<Rightarrow> bool" where
  "foreign own (LvWrite i n) \<longleftrightarrow> i \<notin> own"
| "foreign own (LvClose i) \<longleftrightarrow> i \<notin> own"
| "foreign own e \<longleftrightarrow> True"

inductive tunnel_step :: "(bool \<Rightarrow> bool) \<Rightarrow> string \<Rightarrow> string \<Rightarrow> 'w tunnel \<Rightarrow> 'w tunnel \<Rightarrow> bool" for cwr host user where
  step_copy: "td_pc (tn_dir up s) = AtCopy \<Longrightarrow> tunnel_step cwr host user s (copy_round up chunk took werr again s)"
| step_counter: "td_pc (tn_dir up s) = AtClose \<Longrightarrow> tunnel_step cwr host user s (close_counter up s)"
| step_half: "td_pc (tn_dir up s) = AtHalfClose \<Longrightarrow> tunnel_step cwr host user s (half_close cwr up s)"
| step_panic: "td_pc (tn_dir up s) \<noteq> AtEnd \<Longrightarrow> tunnel_step cwr host user s (tunnel_panic host user up v s)"
| step_close: "td_pc (tn_up s) = AtEnd \<Longrightarrow> td_pc (tn_down s) = AtEnd \<Longrightarrow> tn_closed s = None \<Longrightarrow> tunnel_step cwr host user s (tunnel_close s)"
| step_live: "foreign {td_writer (tn_up s), td_writer (tn_down s)} e \<Longrightarrow> tunnel_step cwr host user s (s\<lparr>tn_live := live_step e (tn_live s)\<rparr>)"

subsection \<open>The counters\<close>

definition total_of :: "nat \<Rightarrow> 'w live \<Rightarrow> int" where "total_of i L = cw_total (lw_cw (lv_writers L ! i))"

lemma upd_total:
  assumes "i < length (lv_writers L)" "k = i \<Longrightarrow> cw_total (lw_cw (f (lv_writers L ! i))) = total_of i L"
  shows "total_of i (upd_writer k f L) = total_of i L"
  using assms by (cases "k = i") (simp_all add: total_of_def upd_writer_def)

lemma upd_length [simp]: "length (lv_writers (upd_writer k f L)) = length (lv_writers L)"
  by (simp add: upd_writer_def)

lemma flush_total:
  assumes "i < length (lv_writers L)"
  shows "total_of i (live_flush k L) = total_of i L"
proof -
  obtain cw tc where f: "CountingWriter_flush (lw_cw (lv_writers L ! k)) (lv_tc L) = (cw, tc)" by fastforce
  then have "cw_total cw = total_of k L" by (auto simp: CountingWriter_flush_def total_of_def Let_def split: if_splits)
  then have "total_of i (upd_writer k (\<lambda>w. w\<lparr>lw_cw := cw\<rparr>) L) = total_of i L" using assms by (intro upd_total) auto
  then show ?thesis by (simp add: live_flush_def f) (simp add: total_of_def)
qed

lemma flush_length [simp]: "length (lv_writers (live_flush k L)) = length (lv_writers L)"
  by (simp add: live_flush_def split: prod.split)

lemma receive_writers: "lv_writers (drain_round now b L) = lv_writers L"
  by (auto simp: drain_round_def drain_receive_def drain_step_def split: drain_phase.splits list.splits prod.splits)

lemma live_total:
  assumes "i < length (lv_writers L)" "foreign own e" "i \<in> own"
  shows "total_of i (live_step e L) = total_of i L"
proof (cases e)
  case (LvWrite k n)
  then show ?thesis using assms by (auto intro!: upd_total)
next
  case (LvOpen b)
  then show ?thesis using assms(1) by (simp add: total_of_def open_writer_def nth_append)
next
  case (LvTick k)
  then show ?thesis using flush_total [OF assms(1)] by (simp add: flusher_tick_def)
next
  case (LvClose k)
  then show ?thesis using assms(1) by (auto simp: CountingWriter_Close_def total_of_def intro!: upd_total [unfolded total_of_def])
next
  case (LvFlushStop k)
  have "total_of i (upd_writer k (\<lambda>w. w\<lparr>lw_flusher := False\<rparr>) (live_flush k L)) = total_of i (live_flush k L)"
    by (rule upd_total) (simp_all add: assms(1) total_of_def)
  then show ?thesis using flush_total [OF assms(1)] by (simp add: LvFlushStop flusher_stop_def)
qed (simp_all add: total_of_def receive_writers TrafficCounter_Stop_def)

lemma live_length: "length (lv_writers L) \<le> length (lv_writers (live_step e L))"
  by (cases e) (simp_all add: open_writer_def flusher_tick_def flusher_stop_def CountingWriter_Close_def receive_writers TrafficCounter_Stop_def)

lemma write_total:
  assumes "i < length (lv_writers L)" "total_of i L = wrap64 m"
  shows "total_of i (live_step (LvWrite i (int n)) L) = wrap64 (m + int n)"
  using assms by (auto simp: total_of_def upd_writer_def CountingWriter_Write_def wrap64_def mod_simps algebra_simps)

lemma write_total_other: "k \<noteq> i \<Longrightarrow> k < length (lv_writers L) \<Longrightarrow> total_of k (live_step (LvWrite i n) L) = total_of k L"
  by (auto intro!: upd_total)

subsection \<open>The invariant\<close>

text \<open>
  A direction relays a prefix of what it read, all of it unless a write failed, and its counter has counted just that; the
  peer is half-closed by a goroutine that returns, and by no other.
\<close>

definition relays :: "direction \<Rightarrow> bool" where
  "relays d \<longleftrightarrow> prefix (td_sent d) (td_received d) \<and> (\<not> td_failed d \<longrightarrow> td_sent d = td_received d)"

definition dir_ok :: "bool \<Rightarrow> 'w live \<Rightarrow> direction \<Rightarrow> bool" where
  "dir_ok supported L d \<longleftrightarrow> td_writer d < length (lv_writers L) \<and> total_of (td_writer d) L = wrap64 (int (length (td_sent d))) \<and> relays d \<and>
     (td_failed d \<longrightarrow> td_pc d \<noteq> AtCopy) \<and> (td_fin d \<longrightarrow> td_pc d = AtEnd) \<and> (td_pc d = AtEnd \<and> \<not> td_panicked d \<and> supported \<longrightarrow> td_fin d)"

definition tunnel_ok :: "(bool \<Rightarrow> bool) \<Rightarrow> 'w tunnel \<Rightarrow> bool" where
  "tunnel_ok cwr s \<longleftrightarrow> td_writer (tn_dir True s) \<noteq> td_writer (tn_dir False s) \<and> (\<forall>up. dir_ok (cwr up) (tn_live s) (tn_dir up s)) \<and>
     (\<forall>rd wr. tn_closed s = Some (rd, wr) \<longrightarrow> (\<forall>up. td_pc (tn_dir up s) = AtEnd) \<and>
        rd = wrap64 (int (length (td_sent (tn_dir True s)))) \<and> wr = wrap64 (int (length (td_sent (tn_dir False s)))))"

lemma tn_simps [simp]:
  "tn_dir v (tn_put up d s) = (if v = up then d else tn_dir v s)" "tn_live (tn_put up d s) = tn_live s"
  "tn_closed (tn_put up d s) = tn_closed s" "tn_dir v (s\<lparr>tn_live := L\<rparr>) = tn_dir v s" "tn_dir v (s\<lparr>tn_errors := x\<rparr>) = tn_dir v s"
  "tn_dir v (s\<lparr>tn_closed := y\<rparr>) = tn_dir v s"
  by (simp_all add: tn_dir_def tn_put_def)

lemma tunnel_ok_new: "tunnel_ok cwr (tunnel_new L)"
  by (auto simp: tunnel_ok_def tunnel_new_def tn_dir_def dir_ok_def relays_def direction_new_def open_writer_def total_of_def NewWriter_def nth_append
    wrap64_def)

text \<open>A step of one goroutine leaves the other direction alone.\<close>

lemma put_ok:
  assumes "tunnel_ok cwr s" "td_pc (tn_dir up s) \<noteq> AtEnd" "td_writer d = td_writer (tn_dir up s)"
    and "dir_ok (cwr up) (tn_live t) d" "\<And>v. v \<noteq> up \<Longrightarrow> dir_ok (cwr v) (tn_live t) (tn_dir v s)"
    and "\<And>v. tn_dir v t = tn_dir v s" "tn_closed t = tn_closed s"
  shows "tunnel_ok cwr (tn_put up d t)"
proof -
  have "tn_closed s = None"
    using assms(1,2) unfolding tunnel_ok_def by (cases "tn_closed s") auto
  then show ?thesis using assms by (auto simp: tunnel_ok_def)
qed

lemma dir_ok_foreign:
  assumes "dir_ok b L d" "foreign own e" "td_writer d \<in> own"
  shows "dir_ok b (live_step e L) d"
  using assms live_total [OF _ assms(2,3), of L] live_length [of L e] by (auto simp: dir_ok_def)

lemma other_kept:
  assumes "tunnel_ok cwr s" "v \<noteq> up" "e = LvWrite (td_writer (tn_dir up s)) n \<or> e = LvClose (td_writer (tn_dir up s))"
  shows "dir_ok (cwr v) (live_step e (tn_live s)) (tn_dir v s)"
proof (rule dir_ok_foreign)
  have "td_writer (tn_dir v s) \<noteq> td_writer (tn_dir up s)" using assms(1,2) by (cases v; cases up) (auto simp: tunnel_ok_def)
  then show "foreign {td_writer (tn_dir v s)} e" using assms(3) by auto
qed (use assms(1) in \<open>auto simp: tunnel_ok_def\<close>)

lemma ok_copy:
  assumes "tunnel_ok cwr s" "td_pc (tn_dir up s) = AtCopy"
  shows "tunnel_ok cwr (copy_round up chunk took werr again s)"
proof -
  let ?d = "tn_dir up s" and ?L = "live_step (LvWrite (td_writer (tn_dir up s)) (int (length (take took chunk)))) (tn_live s)"
  have d: "dir_ok (cwr up) (tn_live s) ?d" and other: "\<And>v. v \<noteq> up \<Longrightarrow> dir_ok (cwr v) (tn_live s) (tn_dir v s)"
    using assms(1) by (auto simp: tunnel_ok_def)
  have w: "td_writer ?d < length (lv_writers (tn_live s))" "total_of (td_writer ?d) (tn_live s) = wrap64 (int (length (td_sent ?d)))"
    and st: "td_sent ?d = td_received ?d" "\<not> td_failed ?d" "\<not> td_fin ?d"
    using d assms(2) by (auto simp: dir_ok_def relays_def)
  have len: "td_writer ?d < length (lv_writers ?L)" using w(1) live_length by (rule less_le_trans)
  show ?thesis
  proof (cases "chunk = []")
    case True
    show ?thesis unfolding copy_round_def Let_def if_P [OF True]
      by (rule put_ok [OF assms(1), of up]) (use assms(2) d other st in \<open>auto simp: dir_ok_def relays_def\<close>)
  next
    case False
    have "dir_ok (cwr up) ?L (?d\<lparr>td_received := td_received ?d @ chunk, td_sent := td_sent ?d @ take took chunk, td_failed := f,
        td_pc := (if f \<or> \<not> again then AtClose else AtCopy)\<rparr>)" if "f \<longleftrightarrow> werr \<or> took < length chunk" for f
      unfolding dir_ok_def relays_def using len write_total [OF w] st that by (auto simp: take_is_prefix)
    note new = this [OF refl]
    show ?thesis unfolding copy_round_def Let_def if_not_P [OF False]
      by (rule put_ok [OF assms(1), of up]) (use new other_kept [OF assms(1)] assms(2) in \<open>simp_all del: live_step.simps\<close>)
  qed
qed

lemma ok_other_actions:
  assumes "tunnel_ok cwr s"
  shows "td_pc (tn_dir up s) = AtClose \<Longrightarrow> tunnel_ok cwr (close_counter up s)"
    "td_pc (tn_dir up s) = AtHalfClose \<Longrightarrow> tunnel_ok cwr (half_close cwr up s)"
    "td_pc (tn_dir up s) \<noteq> AtEnd \<Longrightarrow> tunnel_ok cwr (tunnel_panic host user up v s)"
proof -
  let ?d = "tn_dir up s" and ?L = "live_step (LvClose (td_writer (tn_dir up s))) (tn_live s)"
  have d: "dir_ok (cwr up) (tn_live s) ?d" and other: "\<And>v. v \<noteq> up \<Longrightarrow> dir_ok (cwr v) (tn_live s) (tn_dir v s)"
    using assms by (auto simp: tunnel_ok_def)
  then have w: "td_writer ?d < length (lv_writers (tn_live s))" by (simp add: dir_ok_def)
  have L: "total_of (td_writer ?d) ?L = total_of (td_writer ?d) (tn_live s)"
    using w by (auto simp: CountingWriter_Close_def total_of_def intro!: upd_total [unfolded total_of_def])
  show "tunnel_ok cwr (close_counter up s)" if "td_pc ?d = AtClose"
    unfolding close_counter_def Let_def
    by (rule put_ok [OF assms, of up]) (use that d L other_kept [OF assms] live_length [of "tn_live s"] in
      \<open>auto simp: dir_ok_def relays_def simp del: live_step.simps intro: less_le_trans\<close>)
  show "tunnel_ok cwr (half_close cwr up s)" if "td_pc ?d = AtHalfClose"
    unfolding half_close_def by (rule put_ok [OF assms]) (use that d other in \<open>auto simp: dir_ok_def relays_def halfCloseWrite_def\<close>)
  show "tunnel_ok cwr (tunnel_panic host user up v s)" if "td_pc ?d \<noteq> AtEnd"
    unfolding tunnel_panic_def by (rule put_ok [OF assms that]) (use that d other in \<open>auto simp: dir_ok_def relays_def\<close>)
qed

lemma tunnel_ok_step:
  assumes "tunnel_step cwr host user s s'" "tunnel_ok cwr s"
  shows "tunnel_ok cwr s'"
  using assms
proof cases
  case step_close
  have "tn_total up s = wrap64 (int (length (td_sent (tn_dir up s))))" for up
    using assms(2) by (simp add: tunnel_ok_def dir_ok_def tn_total_def CountingWriter_Total_def total_of_def)
  moreover have "td_pc (tn_dir up s) = AtEnd" for up using step_close by (simp add: tn_dir_def)
  ultimately show ?thesis using assms(2) step_close(1) by (simp add: tunnel_ok_def tunnel_close_def)
next
  case (step_live e)
  have "dir_ok (cwr up) (live_step e (tn_live s)) (tn_dir up s)" for up
    by (rule dir_ok_foreign [OF _ step_live(2)]) (use assms(2) in \<open>auto simp: tunnel_ok_def tn_dir_def\<close>)
  then show ?thesis using assms(2) step_live(1) by (simp add: tunnel_ok_def)
qed (use ok_copy [OF assms(2)] ok_other_actions [OF assms(2)] in auto)

lemma tunnel_ok_run: "(tunnel_step cwr host user)\<^sup>*\<^sup>* (tunnel_new L) s \<Longrightarrow> tunnel_ok cwr s"
  by (induction rule: rtranclp_induct) (auto intro: tunnel_ok_new tunnel_ok_step)

subsection \<open>The relay is exact, and ends\<close>

text \<open>How far the goroutines are from the close entry.\<close>

fun pc_rank :: "copy_pc \<Rightarrow> nat" where
  "pc_rank AtCopy = 3"
| "pc_rank AtClose = 2"
| "pc_rank AtHalfClose = 1"
| "pc_rank AtEnd = 0"

definition close_rank :: "'w tunnel \<Rightarrow> nat" where
  "close_rank s = pc_rank (td_pc (tn_dir True s)) + pc_rank (td_pc (tn_dir False s)) + (if tn_closed s = None then 1 else 0)"

definition past_copy :: "'w tunnel \<Rightarrow> bool" where
  "past_copy s \<longleftrightarrow> (\<forall>up. td_pc (tn_dir up s) \<noteq> AtCopy)"

text \<open>A direction that has not returned can take a step that brings the close entry nearer, and so can the waiting goroutine.\<close>

lemma next_action:
  assumes "past_copy s" "td_pc (tn_dir up s) \<noteq> AtEnd"
  shows "\<exists>s'. tunnel_step cwr host user s s' \<and> past_copy s' \<and> close_rank s' < close_rank s"
proof (cases "td_pc (tn_dir up s)")
  case AtClose
  then have "tunnel_step cwr host user s (close_counter up s)" by (rule step_counter)
  moreover have "past_copy (close_counter up s)" "close_rank (close_counter up s) < close_rank s"
    using assms(1) AtClose by (cases up; simp add: past_copy_def close_counter_def close_rank_def Let_def)+
  ultimately show ?thesis by blast
next
  case AtHalfClose
  then have "tunnel_step cwr host user s (half_close cwr up s)" by (rule step_half)
  moreover have "past_copy (half_close cwr up s)" "close_rank (half_close cwr up s) < close_rank s"
    using assms(1) AtHalfClose by (cases up; simp add: past_copy_def half_close_def close_rank_def)+
  ultimately show ?thesis by blast
qed (use assms in \<open>auto simp: past_copy_def\<close>)

lemma tunnel_finishes:
  assumes "past_copy s"
  shows "\<exists>s'. (tunnel_step cwr host user)\<^sup>*\<^sup>* s s' \<and> tn_closed s' \<noteq> None"
  using assms
proof (induction "close_rank s" arbitrary: s rule: less_induct)
  case less
  show ?case
  proof (cases "\<exists>up. td_pc (tn_dir up s) \<noteq> AtEnd")
    case True
    then obtain s' where s': "tunnel_step cwr host user s s'" "past_copy s'" "close_rank s' < close_rank s"
      using next_action [OF less.prems] by blast
    from less.hyps [OF s'(3,2)] show ?thesis using s'(1) by (blast intro: converse_rtranclp_into_rtranclp)
  next
    case False
    then have e: "td_pc (tn_up s) = AtEnd" "td_pc (tn_down s) = AtEnd" by (metis tn_dir_def)+
    show ?thesis
    proof (cases "tn_closed s")
      case None
      have "tn_closed (tunnel_close s) \<noteq> None" by (simp add: tunnel_close_def)
      then show ?thesis using step_close [OF e None] by blast
    qed blast
  qed
qed

text \<open>
  C19. A tunnel relays exactly, and ends.  In any interleaving of the two copying goroutines with each other, with panics in them and with the counting of all other
  connections: what a peer received is a prefix of what the other side sent, and all of it unless a write to the peer failed; the
  peer's connection is half-closed only when the goroutine is done with it, and always, where it can be, unless the goroutine panicked; the close
  entry comes after both directions are done and reports the bytes the peers took (as 64-bit numbers); and once both copies have ended, the
  close entry is reached by the remaining actions.
\<close>

theorem tunnel_relays:
  assumes "(tunnel_step cwr host user)\<^sup>*\<^sup>* (tunnel_new L) s"
  shows "prefix (td_sent (tn_dir up s)) (td_received (tn_dir up s)) \<and>
    (\<not> td_failed (tn_dir up s) \<longrightarrow> td_sent (tn_dir up s) = td_received (tn_dir up s)) \<and>
    (td_fin (tn_dir up s) \<longrightarrow> td_pc (tn_dir up s) = AtEnd) \<and>
    (td_pc (tn_dir up s) = AtEnd \<and> \<not> td_panicked (tn_dir up s) \<and> cwr up \<longrightarrow> td_fin (tn_dir up s)) \<and>
    (\<forall>rd wr. tn_closed s = Some (rd, wr) \<longrightarrow> td_pc (tn_dir up s) = AtEnd \<and>
       rd = wrap64 (int (length (td_sent (tn_dir True s)))) \<and> wr = wrap64 (int (length (td_sent (tn_dir False s))))) \<and>
    (td_pc (tn_up s) \<noteq> AtCopy \<and> td_pc (tn_down s) \<noteq> AtCopy \<longrightarrow> (\<exists>s'. (tunnel_step cwr host user)\<^sup>*\<^sup>* s s' \<and> tn_closed s' \<noteq> None))"
proof -
  have ok: "tunnel_ok cwr s" by (rule tunnel_ok_run [OF assms])
  then have d: "dir_ok (cwr up) (tn_live s) (tn_dir up s)" by (simp add: tunnel_ok_def)
  have "past_copy s" if "td_pc (tn_up s) \<noteq> AtCopy \<and> td_pc (tn_down s) \<noteq> AtCopy" using that by (simp add: past_copy_def tn_dir_def)
  then show ?thesis using d ok tunnel_finishes [of s cwr host user] unfolding dir_ok_def relays_def tunnel_ok_def by blast
qed

text \<open>A client that sends two bytes and closes, a target that answers three and closes.\<close>

definition ex_half :: "unit tunnel" where
  "ex_half = half_close (\<lambda>_. True) True (close_counter True (copy_round True ''hi'' 2 False False (tunnel_new (live_start NewCollector [] ()))))"

definition ex_tunnel :: "unit tunnel" where
  "ex_tunnel = half_close (\<lambda>_. True) False (close_counter False (copy_round False ''abc'' 3 False False ex_half))"

lemma direction_run:
  assumes "td_pc (tn_dir up s) = AtCopy" "\<not> again" "chunk \<noteq> []"
  shows "(tunnel_step cwr host user)\<^sup>*\<^sup>* s (half_close cwr up (close_counter up (copy_round up chunk took werr again s)))"
proof -
  let ?s1 = "copy_round up chunk took werr again s"
  have "td_pc (tn_dir up ?s1) = AtClose" using assms(2,3) by (simp add: copy_round_def Let_def)
  then have "tunnel_step cwr host user ?s1 (close_counter up ?s1)" by (rule step_counter)
  moreover have "tunnel_step cwr host user (close_counter up ?s1) (half_close cwr up (close_counter up ?s1))"
    by (rule step_half) (simp add: close_counter_def Let_def)
  ultimately show ?thesis using step_copy [OF assms(1)] by (meson converse_rtranclp_into_rtranclp rtranclp.rtrancl_refl)
qed

lemmas tunnel_eval = half_close_def close_counter_def copy_round_def halfCloseWrite_def tunnel_new_def direction_new_def tn_dir_def tn_put_def Let_def

lemma ex_half_down: "tn_down ex_half = direction_new 1" "tn_closed ex_half = None" "td_pc (tn_up ex_half) = AtEnd"
  "td_sent (tn_up ex_half) = ''hi''" "\<not> td_panicked (tn_up ex_half)"
  by (simp_all add: ex_half_def tunnel_eval live_start_eq live_new_def)

theorem tunnel_relays_witness:
  "\<exists>s. (tunnel_step (\<lambda>_. True) ''host'' ''kid'')\<^sup>*\<^sup>* (tunnel_new (live_start NewCollector [] ())) s \<and> tn_closed s = Some (2, 3) \<and>
     td_sent (tn_dir True s) = ''hi'' \<and> td_fin (tn_dir True s)"
proof -
  have e: "td_pc (tn_up ex_tunnel) = AtEnd" "td_pc (tn_down ex_tunnel) = AtEnd" "tn_closed ex_tunnel = None"
    "td_sent (tn_dir True ex_tunnel) = ''hi''" "td_sent (tn_dir False ex_tunnel) = ''abc''" "\<not> td_panicked (tn_dir True ex_tunnel)"
    using ex_half_down by (simp_all add: ex_tunnel_def tunnel_eval)
  have "td_pc (tn_dir False ex_half) = AtCopy" using ex_half_down(1) by (simp add: tn_dir_def direction_new_def)
  then have "(tunnel_step (\<lambda>_. True) ''host'' ''kid'')\<^sup>*\<^sup>* ex_half ex_tunnel" unfolding ex_tunnel_def by (rule direction_run) simp_all
  moreover have "(tunnel_step (\<lambda>_. True) ''host'' ''kid'')\<^sup>*\<^sup>* (tunnel_new (live_start NewCollector [] ())) ex_half"
    unfolding ex_half_def by (rule direction_run) (simp_all add: tunnel_new_def tn_dir_def direction_new_def)
  ultimately have ex_tunnel_run: "(tunnel_step (\<lambda>_. True) ''host'' ''kid'')\<^sup>*\<^sup>* (tunnel_new (live_start NewCollector [] ())) ex_tunnel"
    by (rule rtranclp_trans [rotated])
  let ?s = "tunnel_close ex_tunnel"
  have run: "(tunnel_step (\<lambda>_. True) ''host'' ''kid'')\<^sup>*\<^sup>* (tunnel_new (live_start NewCollector [] ())) ?s"
    using ex_tunnel_run step_close [OF e(1-3)] by (rule rtranclp.rtrancl_into_rtrancl)
  have "td_sent (tn_dir v ?s) = td_sent (tn_dir v ex_tunnel)" "td_pc (tn_dir True ?s) = AtEnd" "\<not> td_panicked (tn_dir True ?s)" for v
    using e(1,6) by (simp_all add: tunnel_close_def tn_dir_def)
  moreover obtain rd wr where "tn_closed ?s = Some (rd, wr)" by (auto simp: tunnel_close_def)
  ultimately show ?thesis using tunnel_relays [OF run, of True] run e(4,5) by (auto simp: wrap64_def intro!: exI [of _ ?s])
qed

end
