(* ===== verification/Metrics_New.thy ===== *)
theory Metrics_New
  imports Metrics
begin

text \<open>
  The metrics the program registers (\<open>New\<close> of src/pkg/metrics/metrics.go) against the updates it makes: every update names a registered metric
  with as many label values as the metric has labels, so the client library, which panics otherwise, never does.
\<close>

datatype metric_kind = CounterKind | GaugeKind | HistogramKind

record metric_desc =
  md_Name :: string
  md_Help :: string
  md_Kind :: metric_kind
  md_Labels :: "string list"

subsection \<open>Registration\<close>

definition metrics_New :: "bool \<Rightarrow> metric_desc list" where
  "metrics_New userLabel =
     (let requestLabels = [''method'', ''status_code''] @ (if userLabel then [''user''] else []);
          requestHelp = (if userLabel then ''Total proxy requests by method, status code, and user.''
                         else ''Total proxy requests by method and status code.'')
      in [\<lparr>md_Name = ''evanproxy_requests_total'', md_Help = requestHelp, md_Kind = CounterKind, md_Labels = requestLabels\<rparr>,
          \<lparr>md_Name = ''evanproxy_blocked_total'', md_Help = ''Total blocked requests by reason.'', md_Kind = CounterKind, md_Labels = [''reason'']\<rparr>,
          \<lparr>md_Name = ''evanproxy_request_duration_seconds'', md_Help = ''Request duration in seconds.'', md_Kind = HistogramKind,
           md_Labels = [''method'']\<rparr>,
          \<lparr>md_Name = ''evanproxy_bytes_read_total'', md_Help = ''Total bytes read from clients.'', md_Kind = CounterKind, md_Labels = []\<rparr>,
          \<lparr>md_Name = ''evanproxy_bytes_written_total'', md_Help = ''Total bytes written to clients.'', md_Kind = CounterKind, md_Labels = []\<rparr>,
          \<lparr>md_Name = ''evanproxy_active_tunnels'', md_Help = ''Number of active CONNECT tunnels.'', md_Kind = GaugeKind, md_Labels = []\<rparr>,
          \<lparr>md_Name = ''evanproxy_auth_failures_total'', md_Help = ''Total authentication failures.'', md_Kind = CounterKind, md_Labels = []\<rparr>,
          \<lparr>md_Name = ''evanproxy_dns_lookups_total'', md_Help = ''Total DNS lookups by result.'', md_Kind = CounterKind, md_Labels = [''result'']\<rparr>,
          \<lparr>md_Name = ''evanproxy_dns_duration_seconds'', md_Help = ''DNS lookup duration in seconds.'', md_Kind = HistogramKind, md_Labels = []\<rparr>])"

text \<open>Which field of \<open>Metrics\<close> an update goes to, with its label values and the amount added.\<close>

fun op_target :: "metric_op \<Rightarrow> string \<times> string list \<times> int" where
  "op_target TunnelsInc = (''evanproxy_active_tunnels'', [], 1)"
| "op_target TunnelsDec = (''evanproxy_active_tunnels'', [], - 1)"
| "op_target (RequestsInc ls) = (''evanproxy_requests_total'', ls, 1)"
| "op_target (BlockedInc reason) = (''evanproxy_blocked_total'', [reason], 1)"
| "op_target AuthFailuresInc = (''evanproxy_auth_failures_total'', [], 1)"
| "op_target (DurationObserve method ms) = (''evanproxy_request_duration_seconds'', [method], ms)"
| "op_target (BytesReadAdd n) = (''evanproxy_bytes_read_total'', [], n)"
| "op_target (BytesWrittenAdd n) = (''evanproxy_bytes_written_total'', [], n)"
| "op_target (DNSDurationObserve d) = (''evanproxy_dns_duration_seconds'', [], d)"
| "op_target (DNSLookupsInc result) = (''evanproxy_dns_lookups_total'', [result], 1)"

text \<open>
  The client library accepts an update of a registered metric with the right number of valid label values (\<open>valid\<close>, its test on a value);
  a counter is not decreased.  It accepts a registration when no name is taken; \<open>lib\<close> are the names of its own collectors.
\<close>

definition op_accepted :: "(string \<Rightarrow> bool) \<Rightarrow> metric_desc list \<Rightarrow> metric_op \<Rightarrow> bool" where
  "op_accepted valid descs op \<longleftrightarrow>
     (case op_target op of (name, ls, n) \<Rightarrow>
        list_ex (\<lambda>m. md_Name m = name \<and> length ls = length (md_Labels m) \<and> (md_Kind m = CounterKind \<longrightarrow> 0 \<le> n)) descs \<and>
        list_all valid ls)"

definition MustRegister_ok :: "string list \<Rightarrow> metric_desc list \<Rightarrow> bool" where
  "MustRegister_ok lib descs \<longleftrightarrow> distinct (lib @ map md_Name descs)"

definition is_ascii :: "string \<Rightarrow> bool" where "is_ascii s \<longleftrightarrow> list_all (\<lambda>c. byte_of c < 128) s"

lemma ascii_labels: "is_ascii ''dns_block''" "is_ascii ''acl''" "is_ascii ''rate_limit''" "is_ascii ''anonymous''"
  unfolding is_ascii_def by code_simp+

lemma Itoa_ascii: "is_ascii (Itoa i)"
proof -
  have d: "is_ascii (nat_str n)" for n
    using nat_str_digits [of n] by (auto simp: is_ascii_def list_all_iff is_digit_def)
  have "byte_of CHR ''-'' < 128" by code_simp
  then show ?thesis using d by (auto simp: Itoa_def is_ascii_def)
qed

subsection \<open>Updates fit the registration\<close>

lemma metrics_names:
  "map md_Name (metrics_New ul) = [''evanproxy_requests_total'', ''evanproxy_blocked_total'', ''evanproxy_request_duration_seconds'',
     ''evanproxy_bytes_read_total'', ''evanproxy_bytes_written_total'', ''evanproxy_active_tunnels'', ''evanproxy_auth_failures_total'',
     ''evanproxy_dns_lookups_total'', ''evanproxy_dns_duration_seconds'']"
  by (simp add: metrics_New_def Let_def)

lemma metrics_prefix: "list_all (\<lambda>n. HasPrefix n ''evanproxy_'') (map md_Name (metrics_New ul))" "distinct (map md_Name (metrics_New ul))"
  unfolding metrics_names by code_simp+

lemma op_accepted_simps:
  "op_accepted valid (metrics_New ul) TunnelsInc" "op_accepted valid (metrics_New ul) TunnelsDec"
  "op_accepted valid (metrics_New ul) AuthFailuresInc"
  "op_accepted valid (metrics_New ul) (RequestsInc ls) \<longleftrightarrow> length ls = (if ul then 3 else 2) \<and> list_all valid ls"
  "op_accepted valid (metrics_New ul) (BlockedInc x) \<longleftrightarrow> valid x"
  "op_accepted valid (metrics_New ul) (DurationObserve x ms) \<longleftrightarrow> valid x"
  "op_accepted valid (metrics_New ul) (DNSLookupsInc x) \<longleftrightarrow> valid x"
  "op_accepted valid (metrics_New ul) (DNSDurationObserve d)"
  "op_accepted valid (metrics_New ul) (BytesReadAdd n) \<longleftrightarrow> 0 \<le> n"
  "op_accepted valid (metrics_New ul) (BytesWrittenAdd n) \<longleftrightarrow> 0 \<le> n"
  by (simp_all add: op_accepted_def metrics_New_def Let_def numeral_eq_Suc)



end
