(* ===== verification/LogFanout.thy ===== *)
theory LogFanout
  imports Logging
begin

text \<open>
  The rest of src/pkg/logging: the UDP backend (jsonudp.go), the formatted calls and \<open>Close\<close> of the logger (logger.go), and \<open>Close\<close> of the
  batching backend (jsonhttp.go).  Every backend of a logger gets every message, in the order of the calls, whatever the others do.
\<close>

subsection \<open>The UDP backend\<close>

record JSONUDPBackend =
  ju_sent :: "string list"
  ju_open :: bool

text \<open>\<open>resolve\<close> and \<open>dial\<close> are \<open>net.ResolveUDPAddr\<close> and \<open>net.DialUDP\<close>.\<close>

definition NewJSONUDPBackend :: "(string \<Rightarrow> string + string) \<Rightarrow> (string \<Rightarrow> string option) \<Rightarrow> string \<Rightarrow> string + JSONUDPBackend" where
  "NewJSONUDPBackend resolve dial addr =
     (case resolve addr of
        Inl err \<Rightarrow> Inl err
      | Inr raddr \<Rightarrow> (case dial raddr of Some err \<Rightarrow> Inl err | None \<Rightarrow> Inr \<lparr>ju_sent = [], ju_open = True\<rparr>))"

text \<open>A message that cannot be encoded is dropped, and so is one that the connection does not take.\<close>

definition JSONUDPBackend_Log :: "(Message \<Rightarrow> string option) \<Rightarrow> Message \<Rightarrow> JSONUDPBackend \<Rightarrow> JSONUDPBackend" where
  "JSONUDPBackend_Log json msg b =
     (case json msg of
        None \<Rightarrow> b
      | Some data \<Rightarrow> if ju_open b then b\<lparr>ju_sent := ju_sent b @ [data]\<rparr> else b)"

definition JSONUDPBackend_Close :: "JSONUDPBackend \<Rightarrow> JSONUDPBackend" where
  "JSONUDPBackend_Close b = b\<lparr>ju_open := False\<rparr>"

subsection \<open>Formatted calls, and closing\<close>

text \<open>The text is what \<open>fmt.Sprintf\<close> made of the format and its arguments.\<close>

definition Infof :: "'w Logger \<Rightarrow> time \<Rightarrow> string \<Rightarrow> string \<Rightarrow> 'w \<Rightarrow> 'w" where
  "Infof l now component txt w = ServerLog l now ''info'' component txt w"

definition Errorf :: "'w Logger \<Rightarrow> time \<Rightarrow> string \<Rightarrow> string \<Rightarrow> 'w \<Rightarrow> 'w" where
  "Errorf l now component txt w = ServerLog l now ''error'' component txt w"

text \<open>\<open>Fatalf\<close> also gives the exit status of the process.\<close>

definition Fatalf :: "'w Logger \<Rightarrow> time \<Rightarrow> string \<Rightarrow> string \<Rightarrow> 'w \<Rightarrow> 'w \<times> nat" where
  "Fatalf l now component txt w = (ServerLog l now ''error'' component txt w, 1)"

definition Logger_Close :: "('w \<Rightarrow> 'w) list \<Rightarrow> 'w \<Rightarrow> 'w" where
  "Logger_Close closes w = fold (\<lambda>c. c) closes w"

text \<open>
  \<open>Close\<close> of the batching backend: closing the stop channel, which panics when it is closed already, and the last round it waits for.
\<close>

definition JSONHTTPBackend_Close :: "flush_result \<Rightarrow> JSONHTTPBackend \<Rightarrow> string + JSONHTTPBackend" where
  "JSONHTTPBackend_Close res b =
     (if jh_done b then Inl ''close of closed channel'' else Inr (jh_run_step WakeStop res b))"

subsection \<open>Every backend gets everything\<close>

datatype log_call = CallLog Entry | CallInfof time string string | CallErrorf time string string

fun do_call :: "'w Logger \<Rightarrow> log_call \<Rightarrow> 'w \<Rightarrow> 'w" where
  "do_call l (CallLog e) w = Logger_Log l e w"
| "do_call l (CallInfof now c txt) w = Infof l now c txt w"
| "do_call l (CallErrorf now c txt) w = Errorf l now c txt w"

fun call_message :: "log_call \<Rightarrow> Message" where
  "call_message (CallLog e) = AccessMsg e"
| "call_message (CallInfof now c txt) = ServerMsg \<lparr>sm_Timestamp = now, sm_Level = ''info'', sm_Component = c, sm_Text = txt\<rparr>"
| "call_message (CallErrorf now c txt) = ServerMsg \<lparr>sm_Timestamp = now, sm_Level = ''error'', sm_Component = c, sm_Text = txt\<rparr>"

text \<open>The state of a logger's backends, one component each: backend \<open>i\<close> works on the \<open>i\<close>th.\<close>

definition on_backend :: "(Message \<Rightarrow> 'b \<Rightarrow> 'b) \<Rightarrow> nat \<Rightarrow> Message \<Rightarrow> 'b list \<Rightarrow> 'b list" where
  "on_backend f i msg bs = bs[i := f msg (bs ! i)]"

definition logger_over :: "(Message \<Rightarrow> 'b \<Rightarrow> 'b) list \<Rightarrow> 'b list Logger" where
  "logger_over fs = Logger_New (map (\<lambda>i. on_backend (fs ! i) i) [0..<length fs])"

lemma backends_upto:
  assumes "length bs = length fs" "n \<le> length fs"
  shows "fold (\<lambda>b. b msg) (map (\<lambda>i. on_backend (fs ! i) i) [0..<n]) bs = map (\<lambda>i. (fs ! i) msg (bs ! i)) [0..<n] @ drop n bs"
  using assms(2)
proof (induction n)
  case (Suc n)
  then have IH: "fold (\<lambda>b. b msg) (map (\<lambda>i. on_backend (fs ! i) i) [0..<n]) bs = map (\<lambda>i. (fs ! i) msg (bs ! i)) [0..<n] @ drop n bs"
    by simp
  have d: "drop n bs = bs ! n # drop (Suc n) bs" using Suc.prems assms(1) by (simp add: Cons_nth_drop_Suc)
  have "fold (\<lambda>b. b msg) (map (\<lambda>i. on_backend (fs ! i) i) [0..<Suc n]) bs =
      on_backend (fs ! n) n msg (map (\<lambda>i. (fs ! i) msg (bs ! i)) [0..<n] @ drop n bs)" by (simp add: IH)
  also have "\<dots> = map (\<lambda>i. (fs ! i) msg (bs ! i)) [0..<Suc n] @ drop (Suc n) bs"
    by (simp add: d on_backend_def list_update_append nth_append)
  finally show ?case .
qed simp

lemma call_all:
  assumes "length bs = length fs"
  shows "do_call (logger_over fs) c bs = map2 (\<lambda>f b. f (call_message c) b) fs bs"
proof -
  have "fold (\<lambda>b. b msg) (map (\<lambda>i. on_backend (fs ! i) i) [0..<length fs]) bs = map2 (\<lambda>f b. f msg b) fs bs" for msg
    using backends_upto [OF assms le_refl, of msg] assms by (auto intro!: nth_equalityI)
  then show ?thesis
    by (cases c) (simp_all add: Logger_Log_def Infof_def Errorf_def ServerLog_def logger_over_def Logger_New_def Let_def)
qed

lemma fanout_complete:
  assumes "length bs = length fs"
  shows "fold (do_call (logger_over fs)) cs bs = map2 (\<lambda>f b. fold (\<lambda>c. f (call_message c)) cs b) fs bs"
  using assms
proof (induction cs arbitrary: bs)
  case Nil
  then show ?case by (auto intro!: nth_equalityI)
next
  case (Cons c cs)
  let ?bs = "map2 (\<lambda>f b. f (call_message c) b) fs bs"
  have "fold (do_call (logger_over fs)) (c # cs) bs = fold (do_call (logger_over fs)) cs ?bs"
    using call_all [OF Cons.prems] by simp
  also have "\<dots> = map2 (\<lambda>f b. fold (\<lambda>c. f (call_message c)) cs b) fs ?bs" using Cons by simp
  also have "\<dots> = map2 (\<lambda>f b. fold (\<lambda>c. f (call_message c)) (c # cs) b) fs bs"
    using Cons.prems by (auto intro!: nth_equalityI)
  finally show ?case .
qed

text \<open>What an open UDP backend has sent after a sequence of calls.\<close>

lemma udp_sends:
  "ju_open b \<Longrightarrow> fold (\<lambda>c. JSONUDPBackend_Log json (call_message c)) cs b =
     b\<lparr>ju_sent := ju_sent b @ List.map_filter (\<lambda>c. json (call_message c)) cs\<rparr>"
  by (induction cs arbitrary: b) (simp_all add: JSONUDPBackend_Log_def List.map_filter_simps split: option.split)

text \<open>Closing the batching backend takes what is left, so that every message logged before is in a batch.\<close>

lemma close_takes_all:
  assumes "JSONHTTPBackend_Close res (fold jh_step es (NewJSONHTTPBackend n)) = Inr b"
  shows "jh_taken b = jh_logged es \<and> jh_buf b = [] \<and> jh_done b"
proof -
  let ?b = "fold jh_step es (NewJSONHTTPBackend n)"
  have b: "\<not> jh_done ?b" "b = jh_run_step WakeStop res ?b" using assms by (auto simp: JSONHTTPBackend_Close_def split: if_splits)
  then have e: "jh_buf b = []" "jh_done b" using jh_taken_flush(2) by (simp_all add: jh_run_step_def)
  have "jh_taken (NewJSONHTTPBackend n) = []" "jh_buf (NewJSONHTTPBackend n) = []" by (simp_all add: jh_taken_def NewJSONHTTPBackend_def)
  then show ?thesis using jh_run_step_content [of WakeStop res ?b] jh_run_content [of es "NewJSONHTTPBackend n"] b(2) e by simp
qed

end
