(* ===== verification/BlockPage.thy ===== *)
theory BlockPage
  imports MitmCA Downtime
begin

text \<open>
  The block page and the loop that serves it on an intercepted connection: src/pkg/mitm/hijack.go and
  blockpage.go.

  The page template is cut at its two actions; the text before the first one (with the embedded photo) is
  the argument \<open>page_head\<close>, which BlockPage_Text gives.  The values of the actions are escaped as html/template does in text
  context.  What the client does is a list of \<open>exchange\<close>s, one per round of the loop: whether the deadline could be
  set, what \<open>http.ReadRequest\<close> returned, whether the response could be written, and the clock.
\<close>

subsection \<open>The page\<close>

definition html_escape_char :: "char \<Rightarrow> string" where
  "html_escape_char c =
     (let b = byte_of c
      in if b = 0 then map char_of [239, 191, 189 :: nat] else if b = 34 then ''&#34;'' else if b = 38 then ''&amp;''
         else if b = 39 then ''&#39;'' else if b = 43 then ''&#43;'' else if b = 60 then ''&lt;''
         else if b = 62 then ''&gt;'' else [c])"

definition html_escape :: "string \<Rightarrow> string" where
  "html_escape s = concat (map html_escape_char s)"

text \<open>The layout \<open>3:04 PM\<close>.\<close>

definition format_kitchen :: "wall_clock \<Rightarrow> string" where
  "format_kitchen w =
     (let h = Hour w mod 12; h = (if h = 0 then 12 else h)
      in nat_str (nat h) @ '':'' @ (if Minute w < 10 then ''0'' else []) @ nat_str (nat (Minute w)) @
         (if Hour w \<ge> 12 then '' PM'' else '' AM''))"

definition displayHost :: "string \<Rightarrow> string" where
  "displayHost host = (let h = normalizeHost host in if h \<noteq> [] then h else host)"

definition page_middle :: string where
  "page_middle = ''</span> is off-limits while your internet is paused.</p>'' @ [LF] @
     ''  <p class='' @ [DQ] @ ''paused'' @ [DQ] @ ''>Paused at ''"

definition page_tail :: string where
  "page_tail = ''</p>'' @ [LF] @ ''</main>'' @ [LF] @ ''</body>'' @ [LF] @ ''</html>'' @ [LF]"

definition RenderBlockPage :: "string \<Rightarrow> string \<Rightarrow> wall_clock \<Rightarrow> string" where
  "RenderBlockPage page_head host at =
     page_head @ html_escape (displayHost host) @ page_middle @ html_escape (format_kitchen at) @ page_tail"

subsection \<open>Requests and responses\<close>

record page_request =
  pr_Method :: string
  pr_ProtoMajor :: nat
  pr_ProtoMinor :: nat
  pr_Connection :: string

record page_response =
  pg_StatusCode :: nat
  pg_Header :: "(string \<times> string) list"
  pg_ContentLength :: nat
  pg_Close :: bool
  pg_Body :: string

definition newBlockPageResponse :: "string \<Rightarrow> page_request \<Rightarrow> string \<Rightarrow> wall_clock \<Rightarrow> bool \<Rightarrow> page_response" where
  "newBlockPageResponse page_head req host at keepAlive =
     (let body = RenderBlockPage page_head host at
      in \<lparr>pg_StatusCode = 200,
          pg_Header = [(''Content-Type'', ''text/html; charset=utf-8''), (''Cache-Control'', ''no-store'')],
          pg_ContentLength = length body, pg_Close = (\<not> keepAlive),
          pg_Body = (if pr_Method req = ''HEAD'' then [] else body)\<rparr>)"

definition hasToken :: "string \<Rightarrow> string \<Rightarrow> bool" where
  "hasToken header token = list_ex (\<lambda>v. EqualFold (TrimSpace v) token) (Split (CHR '','') header)"

definition ProtoAtLeast :: "page_request \<Rightarrow> nat \<Rightarrow> nat \<Rightarrow> bool" where
  "ProtoAtLeast r major minor \<longleftrightarrow>
     pr_ProtoMajor r > major \<or> (pr_ProtoMajor r = major \<and> pr_ProtoMinor r \<ge> minor)"

subsection \<open>The loop\<close>

record ServerOptions =
  so_HandshakeTimeout :: duration
  so_IdleTimeout :: duration
  so_MaxRequests :: int

definition so_withDefaults :: "ServerOptions \<Rightarrow> ServerOptions" where
  "so_withDefaults s =
     (let s = (if so_HandshakeTimeout s \<le> 0 then s\<lparr>so_HandshakeTimeout := 10 * second\<rparr> else s);
          s = (if so_IdleTimeout s \<le> 0 then s\<lparr>so_IdleTimeout := 30 * second\<rparr> else s)
      in if so_MaxRequests s \<le> 0 then s\<lparr>so_MaxRequests := 32\<rparr> else s)"

datatype read_outcome = ReadRequest page_request | ReadEOF | ReadUnexpectedEOF | ReadTimeout string | ReadError string

record exchange =
  ex_deadline_ok :: bool
  ex_read :: read_outcome
  ex_write_ok :: bool
  ex_clock :: wall_clock

datatype page_error =
  HandshakeDeadline | TLSHandshake | RequestDeadline | ReadingRequest string | WritingPage

text \<open>
  The rounds \<open>i, i + 1, \<dots>\<close> of \<open>serve\<close>: the responses sent and the returned error, \<open>Inr ()\<close> for nil.
  When the list of exchanges ends, the client has hung up.
\<close>

function serve_from ::
  "string \<Rightarrow> ServerOptions \<Rightarrow> string \<Rightarrow> int \<Rightarrow> exchange list \<Rightarrow> page_response list \<times> (page_error + unit)" where
  "serve_from page_head so host i xs =
     (if i < so_MaxRequests so then
        (case xs of
           [] \<Rightarrow> ([], Inr ())
         | x # xs \<Rightarrow>
             if \<not> ex_deadline_ok x then ([], Inl RequestDeadline)
             else (case ex_read x of
                     ReadEOF \<Rightarrow> ([], Inr ())
                   | ReadUnexpectedEOF \<Rightarrow> ([], Inr ())
                   | ReadTimeout e \<Rightarrow> ([], if i > 0 then Inr () else Inl (ReadingRequest e))
                   | ReadError e \<Rightarrow> ([], Inl (ReadingRequest e))
                   | ReadRequest req \<Rightarrow>
                       let keepAlive = (i < so_MaxRequests so - 1 \<and> ProtoAtLeast req 1 1 \<and>
                                        \<not> hasToken (pr_Connection req) ''close'');
                           resp = newBlockPageResponse page_head req host (ex_clock x) keepAlive
                       in if \<not> ex_write_ok x then ([], Inl WritingPage)
                          else if \<not> keepAlive then ([resp], Inr ())
                          else let (rs, r) = serve_from page_head so host (i + 1) xs in (resp # rs, r)))
      else ([], Inr ()))"
  by pat_completeness auto
termination by (relation "measure (\<lambda>(_, so, _, i, _). nat (so_MaxRequests so - i))") auto

declare serve_from.simps [simp del]

definition page_serve ::
  "string \<Rightarrow> ServerOptions \<Rightarrow> string \<Rightarrow> exchange list \<Rightarrow> page_response list \<times> (page_error + unit)" where
  "page_serve page_head so host xs = serve_from page_head so host 0 xs"

text \<open>
  The whole service on one hijacked connection.  \<open>hello\<close> is the server name of the ClientHello, or
  None if the client sends none that completes a handshake; the certificate comes from the authority.
\<close>

definition ServeBlockPage ::
  "pki \<Rightarrow> string \<Rightarrow> ServerOptions \<Rightarrow> bool \<Rightarrow> string option \<Rightarrow> nat option \<Rightarrow> time \<Rightarrow> string \<Rightarrow> exchange list \<Rightarrow> CA \<Rightarrow>
   page_response list \<times> (page_error + unit) \<times> CA" where
  "ServeBlockPage P page_head so deadline_ok hello serial now host xs c =
     (if \<not> deadline_ok then ([], Inl HandshakeDeadline, c)
      else (case hello of
              None \<Rightarrow> ([], Inl TLSHandshake, c)
            | Some serverName \<Rightarrow>
                (case GetCertificateFor P host serial now serverName c of
                   (Inl e, c) \<Rightarrow> ([], Inl TLSHandshake, c)
                 | (Inr cert, c) \<Rightarrow>
                     (case page_serve page_head so host xs of (rs, r) \<Rightarrow> (rs, r, c)))))"

subsection \<open>Bounds of the loop\<close>

text \<open>What a sequence of at most \<open>n\<close> responses to a client looks like.\<close>

definition page_for :: "string \<Rightarrow> string \<Rightarrow> page_response \<Rightarrow> bool" where
  "page_for head host p \<longleftrightarrow> pg_StatusCode p = 200 \<and>
     (\<exists>at. pg_ContentLength p = length (RenderBlockPage head host at) \<and>
        pg_Body p \<in> {[], RenderBlockPage head host at})"

fun page_seq :: "string \<Rightarrow> string \<Rightarrow> nat \<Rightarrow> page_response list \<Rightarrow> bool" where
  "page_seq head host n [] = True"
| "page_seq head host 0 (p # ps) = False"
| "page_seq head host (Suc n) (p # ps) =
     (page_for head host p \<and> (if pg_Close p then ps = [] else 0 < n \<and> page_seq head host n ps))"

lemma page_for_new: "page_for head host (newBlockPageResponse head req host at k)"
  "pg_Close (newBlockPageResponse head req host at k) = (\<not> k)"
  by (auto simp: page_for_def newBlockPageResponse_def Let_def)

lemma serve_from_seq: "page_seq head host (nat (so_MaxRequests so - i)) (fst (serve_from head so host i xs))"
proof (induction head so host i xs rule: serve_from.induct)
  case (1 head so host i xs)
  show ?case
  proof (cases "i < so_MaxRequests so \<and> xs \<noteq> [] \<and> ex_deadline_ok (hd xs)")
    case False
    then show ?thesis by (subst serve_from.simps) (auto split: list.splits)
  next
    case True
    then obtain x ys where x: "xs = x # ys" "ex_deadline_ok x" "i < so_MaxRequests so" by (cases xs) auto
    then have n: "nat (so_MaxRequests so - i) = Suc (nat (so_MaxRequests so - (i + 1)))" by simp
    show ?thesis
    proof (cases "ex_read x")
      case (ReadRequest req)
      let ?k = "i < so_MaxRequests so - 1 \<and> ProtoAtLeast req 1 1 \<and> \<not> hasToken (pr_Connection req) ''close''"
      have IH: "page_seq head host (nat (so_MaxRequests so - (i + 1))) (fst (serve_from head so host (i + 1) ys))"
        if "ex_write_ok x" ?k
        using that x ReadRequest by (intro 1 [OF x(3,1) _ ReadRequest refl refl]) auto
      show ?thesis unfolding n
        using IH x ReadRequest
        by (simp add: serve_from.simps [of head so host i "x # ys"] Let_def case_prod_beta page_for_new)
    qed (use x in \<open>simp_all add: serve_from.simps [of head so host i "x # ys"]\<close>)
  qed
qed

lemma page_seq_bounds:
  assumes "page_seq head host n ps"
  shows "length ps \<le> n" "\<forall>p\<in>set ps. page_for head host p" "\<forall>p\<in>set (butlast ps). \<not> pg_Close p"
    "length ps = n \<Longrightarrow> ps \<noteq> [] \<Longrightarrow> pg_Close (last ps)"
  using assms by (induction head host n ps rule: page_seq.induct) (auto split: if_splits)

text \<open>
  C27. The block page service ends.  However the client behaves, it is sent at most
  \<open>MaxRequests\<close> pages (32 by default), every one a 200 with the page for the
  host that was asked for, each but the last one keeps the connection open, and the last one allowed
  announces the close.
\<close>

theorem block_page_bounded:
  "let so' = so_withDefaults so; ps = fst (page_serve head so' host xs)
   in 0 < so_MaxRequests so' \<and> int (length ps) \<le> so_MaxRequests so' \<and> (\<forall>p\<in>set ps. page_for head host p) \<and>
      (\<forall>p\<in>set (butlast ps). \<not> pg_Close p) \<and>
      (int (length ps) = so_MaxRequests so' \<longrightarrow> pg_Close (last ps))"
proof -
  have pos: "0 < so_MaxRequests (so_withDefaults so)" by (simp add: so_withDefaults_def Let_def)
  note b = page_seq_bounds [OF serve_from_seq [where i = 0 and so = "so_withDefaults so" and head = head and host = host and xs = xs]]
  have len: "length ps = nat m" "ps \<noteq> []" if "int (length ps) = m" "0 < m" for ps :: "page_response list" and m
    using that by auto
  have "pg_Close (last (fst (serve_from head (so_withDefaults so) host 0 xs)))"
    if "int (length (fst (serve_from head (so_withDefaults so) host 0 xs))) = so_MaxRequests (so_withDefaults so)"
    by (rule b(4)) (use len [OF that pos] in simp_all)
  then show ?thesis unfolding Let_def page_serve_def using pos b(1-3) by (auto simp: le_nat_iff)
qed

theorem block_page_bounded_witness:
  "let ps = fst (page_serve [] (so_withDefaults \<lparr>so_HandshakeTimeout = 0, so_IdleTimeout = 0, so_MaxRequests = 1\<rparr>) ''a.com:443''
      [\<lparr>ex_deadline_ok = True, ex_read = ReadRequest \<lparr>pr_Method = ''GET'', pr_ProtoMajor = 1, pr_ProtoMinor = 1, pr_Connection = []\<rparr>,
        ex_write_ok = True, ex_clock = \<lparr>Weekday = 0, Hour = 15, Minute = 4\<rparr>\<rparr>])
   in length ps = 1 \<and> pg_Close (last ps)"
proof -
  let ?so = "\<lparr>so_HandshakeTimeout = 0, so_IdleTimeout = 0, so_MaxRequests = 1\<rparr>"
  let ?xs = "[\<lparr>ex_deadline_ok = True, ex_read = ReadRequest \<lparr>pr_Method = ''GET'', pr_ProtoMajor = 1, pr_ProtoMinor = 1, pr_Connection = []\<rparr>,
        ex_write_ok = True, ex_clock = \<lparr>Weekday = 0, Hour = 15, Minute = 4\<rparr>\<rparr>]"
  have "length (fst (page_serve [] (so_withDefaults ?so) ''a.com:443'' ?xs)) = 1"
    by (simp add: page_serve_def serve_from.simps so_withDefaults_def Let_def)
  then show ?thesis using block_page_bounded [of ?so "[]" "''a.com:443''" ?xs] by (simp add: Let_def so_withDefaults_def)
qed

subsection \<open>Escaped text has no markup\<close>

text \<open>The characters that delimit markup: angle brackets and the two quotes.\<close>

definition is_markup :: "char \<Rightarrow> bool" where
  "is_markup c \<longleftrightarrow> byte_of c = 60 \<or> byte_of c = 62 \<or> byte_of c = 34 \<or> byte_of c = 39"

lemma html_escape_safe: "filter is_markup (html_escape s) = []"
proof -
  have "list_all (\<lambda>d. \<not> is_markup d) (html_escape_char c)" for c
    by (simp add: html_escape_char_def Let_def is_markup_def)
  then show ?thesis by (auto simp: html_escape_def filter_empty_conv list_all_iff)
qed

end
