(* ===== verification/BlockPage_Text.thy ===== *)
theory BlockPage_Text
  imports BlockPage Base64
begin

text \<open>
  The block page in full: the template of src/pkg/mitm/blockpage.go with the photo embedded in it.
\<close>

subsection \<open>The template\<close>

text \<open>The lines of the template up to the photo, and what follows it up to the first action.\<close>

definition template_lines :: "string list" where
  "template_lines =
     [''<!DOCTYPE html>'',
      ''<html lang='' @ [DQ] @ ''en'' @ [DQ] @ ''>'',
      ''<head>'',
      ''<meta charset='' @ [DQ] @ ''utf-8'' @ [DQ] @ ''>'',
      ''<meta name='' @ [DQ] @ ''viewport'' @ [DQ] @ '' content='' @ [DQ] @ ''width=device-width, initial-scale=1'' @ [DQ] @ ''>'',
      ''<title>Pancho says no</title>'',
      ''<link rel='' @ [DQ] @ ''icon'' @ [DQ] @ '' href='' @ [DQ] @ ''data:image/svg+xml,%3Csvg xmlns='' @ [SQ] @ ''http://www.w3.org/2000/svg'' @ [SQ] @ '' viewBox='' @ [SQ] @ ''0 0 32 32'' @ [SQ] @ ''%3E%3Cg fill='' @ [SQ] @ ''%235c3a1e'' @ [SQ] @ ''%3E%3Cellipse cx='' @ [SQ] @ ''16'' @ [SQ] @ '' cy='' @ [SQ] @ ''22'' @ [SQ] @ '' rx='' @ [SQ] @ ''9'' @ [SQ] @ '' ry='' @ [SQ] @ ''7'' @ [SQ] @ ''/%3E%3Cellipse cx='' @ [SQ] @ ''6'' @ [SQ] @ '' cy='' @ [SQ] @ ''14'' @ [SQ] @ '' rx='' @ [SQ] @ ''4'' @ [SQ] @ '' ry='' @ [SQ] @ ''5'' @ [SQ] @ ''/%3E%3Cellipse cx='' @ [SQ] @ ''12'' @ [SQ] @ '' cy='' @ [SQ] @ ''8'' @ [SQ] @ '' rx='' @ [SQ] @ ''4'' @ [SQ] @ '' ry='' @ [SQ] @ ''5'' @ [SQ] @ ''/%3E%3Cellipse cx='' @ [SQ] @ ''20'' @ [SQ] @ '' cy='' @ [SQ] @ ''8'' @ [SQ] @ '' rx='' @ [SQ] @ ''4'' @ [SQ] @ '' ry='' @ [SQ] @ ''5'' @ [SQ] @ ''/%3E%3Cellipse cx='' @ [SQ] @ ''26'' @ [SQ] @ '' cy='' @ [SQ] @ ''14'' @ [SQ] @ '' rx='' @ [SQ] @ ''4'' @ [SQ] @ '' ry='' @ [SQ] @ ''5'' @ [SQ] @ ''/%3E%3C/g%3E%3C/svg%3E'' @ [DQ] @ ''>'',
      ''<style>'',
      ''  html { -webkit-text-size-adjust: 100%; }'',
      ''  body {'',
      ''    margin: 0;'',
      ''    min-height: 100vh;'',
      ''    display: flex;'',
      ''    align-items: center;'',
      ''    justify-content: center;'',
      ''    background: #faf5ec;'',
      ''    color: #5c3a1e;'',
      ''    font-family: -apple-system, BlinkMacSystemFont, '' @ [DQ] @ ''Segoe UI'' @ [DQ] @ '', Roboto, Helvetica, Arial, sans-serif;'',
      ''    text-align: center;'',
      ''  }'',
      ''  main { padding: 2rem 1.5rem 3rem; max-width: 30rem; }'',
      ''  img { width: 100%; max-width: 20rem; height: auto; border-radius: 1rem; }'',
      ''  h1 { margin: 1.75rem 0 1rem; font-size: 2rem; font-weight: 600; letter-spacing: -0.01em; }'',
      ''  p { margin: 0; font-size: 1.125rem; line-height: 1.6; }'',
      ''  .host { font-family: ui-monospace, SFMono-Regular, Menlo, Consolas, monospace; word-break: break-all; }'',
      ''  .paused { margin-top: 2rem; font-size: 0.9375rem; opacity: 0.65; }'',
      ''</style>'',
      ''</head>'',
      ''<body>'',
      ''<main>'']"

definition template_rest :: "string list" where
  "template_rest =
     [[DQ] @ '' alt='' @ [DQ] @ ''Pancho, tilting his head'' @ [DQ] @ ''>'',
      ''  <h1>Pancho says no.</h1>'']"

definition block_page_head :: "string \<Rightarrow> string" where
  "block_page_head photo =
     concat (map (\<lambda>l. l @ [LF]) template_lines) @ ''  <img src='' @ [DQ] @
     ''data:image/jpeg;base64,'' @ StdEncoding_EncodeToString photo @
     concat (map (\<lambda>l. l @ [LF]) template_rest) @ ''  <p><span class='' @ [DQ] @ ''host'' @ [DQ] @ ''>''"

definition block_page :: "string \<Rightarrow> string \<Rightarrow> wall_clock \<Rightarrow> string" where
  "block_page photo host at = RenderBlockPage (block_page_head photo) host at"

subsection \<open>The page cannot be injected into\<close>

lemma base64_no_markup: "filter is_markup (StdEncoding_EncodeToString s) = []"
proof -
  have al: "list_all (\<lambda>c. \<not> is_markup c) std_alphabet" and pad: "filter is_markup ''=='' = []" "filter is_markup ''='' = []" by code_simp+
  have "filter is_markup (raw_encode std_alphabet s) = []"
    unfolding filter_empty_conv using al std_clean by (simp only: list_all_iff) blast
  then show ?thesis unfolding StdEncoding_EncodeToString_def pad_encode_def filter_append
    using pad by (simp only: if_distrib [where f = "filter is_markup"] filter.simps append.simps if_cancel)
qed

text \<open>
  C39. The page cannot be injected into.  The markup of the served page, its angle brackets and quotes in order, is the same whatever host the client put into
  its CONNECT request, whatever the photo is and whenever it is served.
\<close>

theorem page_markup_fixed:
  "filter is_markup (block_page photo host at) = filter is_markup (block_page photo' host' at')"
  by (simp only: block_page_def RenderBlockPage_def block_page_head_def filter_append html_escape_safe base64_no_markup append_Nil)

end
