(* ===== verification/MitmCA_Props.thy ===== *)
theory MitmCA_Props
  imports MitmCA
begin

text \<open>
  What the certificate authority guarantees: every leaf it serves is for the requested name, valid now
  and, as long as handshakes and rotations do not overlap, signed by the current CA.  With overlapping
  ones (\<open>ca_step\<close>) the name is still right, but a leaf of the retired CA can be left in the cache.
\<close>

subsection \<open>What a leaf is for\<close>

definition leaf_names :: "string \<Rightarrow> tls_cert \<Rightarrow> bool" where
  "leaf_names name cert \<longleftrightarrow>
     (case tc_Leaf cert of
        None \<Rightarrow> False
      | Some l \<Rightarrow> lt_CommonName l = name \<and>
          (case ParseIP name of
             None \<Rightarrow> lt_DNSNames l = [name] \<and> lt_IPAddresses l = []
           | Some ip \<Rightarrow> lt_DNSNames l = [] \<and> lt_IPAddresses l = [ip]))"

definition leaf_valid :: "time \<Rightarrow> tls_cert \<Rightarrow> bool" where
  "leaf_valid now cert \<longleftrightarrow>
     (case tc_Leaf cert of None \<Rightarrow> False | Some l \<Rightarrow> lt_NotBefore l \<le> now \<and> now < lt_NotAfter l)"

definition leaf_begun :: "time \<Rightarrow> tls_cert \<Rightarrow> bool" where
  "leaf_begun now cert \<longleftrightarrow> (case tc_Leaf cert of None \<Rightarrow> False | Some l \<Rightarrow> lt_NotBefore l \<le> now)"

text \<open>The chain ends in the given CA certificate and the leaf was signed with the given key.\<close>

definition leaf_signed :: "pki \<Rightarrow> x509_cert \<Rightarrow> signer \<Rightarrow> tls_cert \<Rightarrow> bool" where
  "leaf_signed P cert key leaf \<longleftrightarrow>
     (\<exists>der l. tc_Certificate leaf = [der, xc_Raw cert] \<and> tc_Leaf leaf = Some l \<and>
        pk_CreateCertificate P l cert (sg_Public (tc_PrivateKey leaf)) key = Some der)"

lemma noSNI_no_ip: "ParseIP noSNIHost = None"
  by code_simp

lemma leafIdentity_isIP: "leafIdentity sni target = (name, isIP) \<Longrightarrow> isIP \<longleftrightarrow> ParseIP name \<noteq> None"
  by (auto simp: leafIdentity_def Let_def noSNI_no_ip split: if_splits)

lemma sign_leaf_ok:
  assumes "sign_leaf P name isIP serial now ttl caCert caKey leafKey = Inr leaf" "isIP \<longleftrightarrow> ParseIP name \<noteq> None"
  shows "leaf_names name leaf" "leaf_begun now leaf" "leaf_signed P caCert caKey leaf"
    "0 < ttl \<Longrightarrow> leaf_valid now leaf"
  using assms
  by (auto simp: sign_leaf_def Let_def leaf_names_def leaf_begun_def leaf_signed_def leaf_valid_def
      leafTemplate_def leafBackdate_def duration_defs split: option.splits)

lemma mint_ok:
  assumes "mint P serial now name isIP c = Inr (leaf, gen)" "isIP \<longleftrightarrow> ParseIP name \<noteq> None"
  shows "leaf_names name leaf" "leaf_begun now leaf" "leaf_signed P (ca_cert c) (ca_key c) leaf"
    "0 < mo_LeafTTL (ca_opts c) \<Longrightarrow> leaf_valid now leaf" "gen = ca_gen c"
proof -
  obtain sn where s: "sign_leaf P name isIP sn now (mo_LeafTTL (ca_opts c)) (ca_cert c) (ca_key c) (ca_leafKey c) = Inr leaf"
    and g: "gen = ca_gen c"
    using assms(1) by (auto simp: mint_def split: option.splits sum.splits)
  show "leaf_names name leaf" "leaf_begun now leaf" "leaf_signed P (ca_cert c) (ca_key c) leaf"
    "0 < mo_LeafTTL (ca_opts c) \<Longrightarrow> leaf_valid now leaf" "gen = ca_gen c"
    using sign_leaf_ok [OF s assms(2)] g by auto
qed

lemma leaf_fresh_valid: "leaf_begun now cert \<Longrightarrow> leafFresh now cert \<Longrightarrow> leaf_valid now cert"
  by (auto simp: leaf_begun_def leafFresh_def leaf_valid_def leafRenewBefore_def duration_defs split: option.splits)

lemma leaf_begun_mono: "leaf_begun t cert \<Longrightarrow> t \<le> t' \<Longrightarrow> leaf_begun t' cert"
  by (auto simp: leaf_begun_def split: option.splits)

subsection \<open>One handshake at a time\<close>

text \<open>The invariant of the authority at time \<open>now\<close>.\<close>

definition leaf_good :: "pki \<Rightarrow> CA \<Rightarrow> time \<Rightarrow> string \<Rightarrow> tls_cert \<Rightarrow> bool" where
  "leaf_good P c now name cert \<longleftrightarrow>
     leaf_names name cert \<and> leaf_begun now cert \<and> leaf_signed P (ca_cert c) (ca_key c) cert"

definition ca_ok :: "pki \<Rightarrow> time \<Rightarrow> CA \<Rightarrow> bool" where
  "ca_ok P now c \<longleftrightarrow>
     lru.holds (leaf_good P c now) (ca_cache c) \<and> 0 < mo_LeafTTL (ca_opts c) \<and>
     xc_IsCA (ca_cert c) \<and> xc_KeyUsage (ca_cert c) AND KeyUsageCertSign \<noteq> 0 \<and>
     publicKeysEqual P (sg_Public (ca_key c)) (xc_PublicKey (ca_cert c)) \<and> ca_certDER c = xc_Raw (ca_cert c)"

lemma holds_mono: "lru.holds Q c \<Longrightarrow> (\<And>k v. Q k v \<Longrightarrow> R k v) \<Longrightarrow> lru.holds R c"
  by (auto simp: lru.holds_def)

lemma leaf_good_cong: "ca_cert c' = ca_cert c \<Longrightarrow> ca_key c' = ca_key c \<Longrightarrow> leaf_good P c' = leaf_good P c"
  by (simp add: leaf_good_def fun_eq_iff)

lemma ca_ok_mono: "ca_ok P now c \<Longrightarrow> now \<le> now' \<Longrightarrow> ca_ok P now' c"
  unfolding ca_ok_def by (auto elim!: holds_mono simp: leaf_good_def intro: leaf_begun_mono)

lemma ca_ok_cache:
  assumes "ca_ok P now c" "lru.holds (leaf_good P c now) cache"
  shows "ca_ok P now (c\<lparr>ca_cache := cache\<rparr>)"
  using assms leaf_good_cong [of "c\<lparr>ca_cache := cache\<rparr>" c P] by (simp add: ca_ok_def)

lemma lookup_ok:
  assumes "ca_ok P now c" "cert_lookup now name c = (hit, c')"
  shows "ca_ok P now c'" "c' = c\<lparr>ca_cache := ca_cache c'\<rparr>"
    "hit = Some cert \<Longrightarrow> leaf_good P c now name cert \<and> leaf_valid now cert"
proof -
  let ?cache = "snd (certCache_get name (ca_cache c))"
  have h: "lru.holds (leaf_good P c now) (ca_cache c)" using assms(1) by (simp add: ca_ok_def)
  have c': "c' = c\<lparr>ca_cache := ?cache\<rparr>"
    and hit: "hit = Some cert \<Longrightarrow> fst (certCache_get name (ca_cache c)) = Some cert \<and> leafFresh now cert" for cert
    using assms(2) by (auto simp: cert_lookup_def Let_def case_prod_beta split: option.splits if_splits)
  show "ca_ok P now c'" unfolding c' by (rule ca_ok_cache [OF assms(1) lru.holds_get [OF h]])
  show "c' = c\<lparr>ca_cache := ca_cache c'\<rparr>" by (simp add: c')
  show "leaf_good P c now name cert \<and> leaf_valid now cert" if "hit = Some cert"
    using hit [OF that] lru.holds_hit [OF h] leaf_fresh_valid by (auto simp: leaf_good_def)
qed

lemma store_ok: "ca_ok P now c \<Longrightarrow> leaf_good P c now name cert \<Longrightarrow> ca_ok P now (cert_store name cert c)"
  unfolding cert_store_def by (rule ca_ok_cache) (auto simp: ca_ok_def intro: lru.holds_put)

lemma certFor_ok:
  assumes "ca_ok P now c" "certFor P serial now sni target c = (r, c')"
  shows "ca_ok P now c' \<and> ca_cert c' = ca_cert c \<and> ca_key c' = ca_key c \<and>
    (case r of Inr cert \<Rightarrow> leaf_names (fst (leafIdentity sni target)) cert \<and> leaf_valid now cert \<and>
       leaf_signed P (ca_cert c) (ca_key c) cert
     | Inl e \<Rightarrow> e \<in> {GeneratingSerial, SigningLeaf (fst (leafIdentity sni target))})"
proof -
  obtain name isIP where id: "leafIdentity sni target = (name, isIP)" by (cases "leafIdentity sni target")
  obtain hit c1 where l: "cert_lookup now name c = (hit, c1)" by (cases "cert_lookup now name c")
  note lk = lookup_ok [OF assms(1) l]
  have same: "ca_cert c1 = ca_cert c" "ca_key c1 = ca_key c" "ca_opts c1 = ca_opts c"
    by (subst lk(2), simp)+
  show ?thesis
  proof (cases hit)
    case (Some cert)
    then show ?thesis using assms(2) lk(1) lk(3) [OF Some] same by (auto simp: certFor_def id l leaf_good_def)
  next
    case None
    show ?thesis
    proof (cases "mint P serial now name isIP c1")
      case (Inl e)
      then have "e \<in> {GeneratingSerial, SigningLeaf name}"
        by (auto simp: mint_def sign_leaf_def Let_def split: option.splits)
      then show ?thesis using Inl None assms(2) lk(1) same by (auto simp: certFor_def id l)
    next
      case (Inr x)
      then obtain cert gen where m: "mint P serial now name isIP c1 = Inr (cert, gen)" by (cases x) auto
      note mk = mint_ok [OF m leafIdentity_isIP [OF id]]
      have "0 < mo_LeafTTL (ca_opts c1)" using lk(1) by (simp add: ca_ok_def)
      moreover have "ca_ok P now (cert_store name cert c1)"
        using store_ok [OF lk(1)] mk by (simp add: leaf_good_def)
      ultimately show ?thesis using None assms(2) same m mk
        by (auto simp: certFor_def id l cert_store_def)
    qed
  qed
qed

lemma Rotate_ok:
  assumes "ca_ok P now c"
  shows "ca_ok P now (snd (Rotate P cert key c))"
proof (cases "Rotate_check P cert key")
  case (Inr x)
  then obtain ct k where x: "Rotate_check P cert key = Inr (ct, k)" by (cases x) auto
  then have "xc_IsCA ct \<and> xc_KeyUsage ct AND KeyUsageCertSign \<noteq> 0 \<and> publicKeysEqual P (sg_Public k) (xc_PublicKey ct)"
    by (auto simp: Rotate_check_def split: option.splits if_splits)
  moreover have "lru.holds Q (certCache_purge (ca_cache c))" for Q
    using assms lru.holds_purge by (auto simp: ca_ok_def)
  ultimately show ?thesis using assms x by (simp add: Rotate_def Rotate_purge_def Rotate_swap_def ca_ok_def)
qed (simp add: Rotate_def assms)

lemma NewCA_ok:
  assumes "NewCA P heap leafKey cert key opts = Inr c"
  shows "ca_ok P now c"
proof -
  have "cache_look (newCertCache m heap) k = None" for m k
    by (simp add: cache_look_def cache_entries_def newCertCache_def Let_def)
  then have "lru.holds Q (newCertCache m heap)" for Q m
    using wf_new by (auto simp: lru.holds_def)
  moreover have "0 < mo_LeafTTL (withDefaults opts)"
    by (simp add: withDefaults_def Let_def DefaultLeafTTL_def duration_defs)
  ultimately show ?thesis using assms by (auto simp: NewCA_def ca_ok_def Let_def split: option.splits if_splits)
qed

datatype ca_event = Handshake time "nat option" string string | RotateTo time "x509_cert option" "signer option"

fun ca_time :: "ca_event \<Rightarrow> time" where
  "ca_time (Handshake t _ _ _) = t"
| "ca_time (RotateTo t _ _) = t"

fun ca_run :: "pki \<Rightarrow> ca_event list \<Rightarrow> CA \<Rightarrow> CA" where
  "ca_run P [] c = c"
| "ca_run P (Handshake t serial sni target # es) c = ca_run P es (snd (certFor P serial t sni target c))"
| "ca_run P (RotateTo t cert key # es) c = ca_run P es (snd (Rotate P cert key c))"

lemma ca_run_ok:
  assumes "ca_ok P t c" "sorted_wrt (\<le>) (t # map ca_time es)" "\<forall>e\<in>set es. ca_time e \<le> now" "t \<le> now"
  shows "ca_ok P now (ca_run P es c)"
  using assms
proof (induction es arbitrary: c t)
  case Nil
  then show ?case by (simp add: ca_ok_mono)
next
  case (Cons e es)
  have "ca_ok P (ca_time e) c" using Cons.prems by (auto intro: ca_ok_mono)
  then have "ca_ok P (ca_time e) (ca_run P [e] c)"
    by (cases e) (auto simp: Rotate_ok dest: certFor_ok [OF _ prod.collapse [symmetric]])
  moreover have "ca_run P (e # es) c = ca_run P es (ca_run P [e] c)" by (cases e) simp_all
  ultimately show ?case using Cons.IH [of "ca_time e" "ca_run P [e] c"] Cons.prems by auto
qed


subsection \<open>Overlapping handshakes and rotations\<close>

text \<open>
  The progress of one handshake through \<open>certFor\<close>, between its accesses to shared state: before the
  minting, before the generation check, before the insertion, served.
\<close>

datatype handshake =
  HsIdle | HsMint string bool | HsCheck string tls_cert "64 word" | HsStore string tls_cert | HsServed string tls_cert

record ca_sys =
  sy_ca :: CA
  sy_hs :: "nat \<Rightarrow> handshake"
  sy_purge :: bool

inductive ca_step :: "pki \<Rightarrow> ca_sys \<Rightarrow> ca_sys \<Rightarrow> bool" for P where
  hs_lookup: "sy_hs s i = HsIdle \<Longrightarrow> leafIdentity sni target = (name, isIP) \<Longrightarrow>
    cert_lookup now name (sy_ca s) = (hit, c) \<Longrightarrow>
    ca_step P s (s\<lparr>sy_ca := c, sy_hs := (sy_hs s)(i :=
      (case hit of Some cert \<Rightarrow> HsServed name cert | None \<Rightarrow> HsMint name isIP))\<rparr>)"
| hs_mint: "sy_hs s i = HsMint name isIP \<Longrightarrow> mint P serial now name isIP (sy_ca s) = r \<Longrightarrow>
    ca_step P s (s\<lparr>sy_hs := (sy_hs s)(i :=
      (case r of Inl e \<Rightarrow> HsIdle | Inr (cert, gen) \<Rightarrow> HsCheck name cert gen))\<rparr>)"
| hs_check: "sy_hs s i = HsCheck name cert gen \<Longrightarrow>
    ca_step P s (s\<lparr>sy_hs := (sy_hs s)(i :=
      (if ca_gen (sy_ca s) = gen then HsStore name cert else HsServed name cert))\<rparr>)"
| hs_store: "sy_hs s i = HsStore name cert \<Longrightarrow>
    ca_step P s (s\<lparr>sy_ca := cert_store name cert (sy_ca s), sy_hs := (sy_hs s)(i := HsServed name cert)\<rparr>)"
| hs_done: "sy_hs s i = HsServed name cert \<Longrightarrow> ca_step P s (s\<lparr>sy_hs := (sy_hs s)(i := HsIdle)\<rparr>)"
| rotate_swap: "\<not> sy_purge s \<Longrightarrow> Rotate_check P cert key = Inr (cert', key') \<Longrightarrow>
    ca_step P s (s\<lparr>sy_ca := Rotate_swap cert' key' (sy_ca s), sy_purge := True\<rparr>)"
| rotate_purge: "sy_purge s \<Longrightarrow> ca_step P s (s\<lparr>sy_ca := Rotate_purge (sy_ca s), sy_purge := False\<rparr>)"

definition ca_init :: "CA \<Rightarrow> ca_sys" where
  "ca_init c = \<lparr>sy_ca = c, sy_hs = (\<lambda>_. HsIdle), sy_purge = False\<rparr>"

fun hs_ok :: "handshake \<Rightarrow> bool" where
  "hs_ok HsIdle = True"
| "hs_ok (HsMint name isIP) = (isIP \<longleftrightarrow> ParseIP name \<noteq> None)"
| "hs_ok (HsCheck name cert gen) = leaf_names name cert"
| "hs_ok (HsStore name cert) = leaf_names name cert"
| "hs_ok (HsServed name cert) = leaf_names name cert"

definition sy_ok :: "ca_sys \<Rightarrow> bool" where
  "sy_ok s \<longleftrightarrow> lru.holds leaf_names (ca_cache (sy_ca s)) \<and> (\<forall>i. hs_ok (sy_hs s i))"

lemma lookup_names:
  assumes "cert_lookup now name c = (hit, c')" "lru.holds leaf_names (ca_cache c)"
  shows "lru.holds leaf_names (ca_cache c')" "hit = Some cert \<Longrightarrow> leaf_names name cert"
  using assms lru.holds_get [OF assms(2)] lru.holds_hit [OF assms(2)]
  by (auto simp: cert_lookup_def Let_def case_prod_beta split: option.splits if_splits)

lemma sy_ok_step:
  assumes "ca_step P s s'" "sy_ok s"
  shows "sy_ok s'"
  using assms
proof (induction rule: ca_step.induct)
  case (hs_lookup s i sni target name isIP now hit c)
  then show ?case using lookup_names [OF hs_lookup(3)] leafIdentity_isIP [OF hs_lookup(2)]
    by (cases hit) (auto simp: sy_ok_def)
next
  case (hs_mint s i name isIP serial now r)
  have "hs_ok (HsMint name isIP)" using hs_mint(1,3) by (metis sy_ok_def)
  then have "leaf_names name cert" if "r = Inr (cert, gen)" for cert gen
    using mint_ok(1) [of P serial now name isIP "sy_ca s" cert gen] hs_mint(2) that by simp
  then show ?case using hs_mint(3) by (auto simp: sy_ok_def split: sum.splits)
next
  case (hs_check s i name cert gen)
  then have "hs_ok (HsCheck name cert gen)" by (metis sy_ok_def)
  then show ?case using hs_check(2) by (simp add: sy_ok_def)
next
  case (hs_store s i name cert)
  then have "hs_ok (HsStore name cert)" by (metis sy_ok_def)
  then show ?case using hs_store(2) lru.holds_put [of leaf_names "ca_cache (sy_ca s)" name cert]
    by (simp add: sy_ok_def cert_store_def)
next
  case (rotate_purge s)
  then show ?case using lru.holds_purge [of leaf_names "ca_cache (sy_ca s)" leaf_names]
    by (simp add: sy_ok_def Rotate_purge_def)
qed (simp_all add: sy_ok_def Rotate_swap_def)

text \<open>
  C26. The right name under any interleaving.  Whatever handshakes and rotations overlap, a
  handshake is served a leaf for the name it resolved to, and the cache holds under each name only
  leaves for it.
\<close>

theorem interleaved_leaf_names:
  assumes "NewCA P heap leafKey cert key opts = Inr c" "(ca_step P)\<^sup>*\<^sup>* (ca_init c) s"
  shows "(sy_hs s i = HsServed name leaf \<longrightarrow> leaf_names name leaf) \<and>
    (fst (cert_lookup now name (sy_ca s)) = Some leaf \<longrightarrow> leaf_names name leaf)"
proof -
  have "lru.holds (leaf_good P c 0) (ca_cache c)" using NewCA_ok [OF assms(1)] by (auto simp: ca_ok_def)
  then have "sy_ok (ca_init c)" by (auto simp: sy_ok_def ca_init_def leaf_good_def elim: holds_mono)
  with assms(2) have ok: "sy_ok s" by (induction rule: rtranclp_induct) (auto intro: sy_ok_step)
  then have "hs_ok (sy_hs s i)" "lru.holds leaf_names (ca_cache (sy_ca s))" by (simp_all add: sy_ok_def)
  then show ?thesis using lookup_names(2) [OF prod.collapse [symmetric]] by auto
qed

subsection \<open>Instances\<close>

definition ex_pki :: pki where
  "ex_pki = \<lparr>pk_Equal = (\<lambda>a b. Some (a = b)),
     pk_CreateCertificate = (\<lambda>l ca pub key. Some (lt_CommonName l @ sg_key key)),
     pk_PemDecode = (\<lambda>_. None), pk_ParseCertificate = (\<lambda>_. None), pk_ParseECPrivateKey = (\<lambda>_. KeyParseError),
     pk_ParsePKCS8PrivateKey = (\<lambda>_. KeyParseError), pk_ParsePKCS1PrivateKey = (\<lambda>_. KeyParseError)\<rparr>"

definition ex_ca_cert :: "string \<Rightarrow> x509_cert" where
  "ex_ca_cert n = \<lparr>xc_Raw = n, xc_IsCA = True, xc_KeyUsage = 32, xc_PublicKey = n, xc_CommonName = n\<rparr>"

definition ex_signer :: "string \<Rightarrow> signer" where "ex_signer n = \<lparr>sg_key = n, sg_Public = n\<rparr>"

definition ex_ca :: CA where
  "ex_ca = \<lparr>ca_cert = ex_ca_cert ''old'', ca_certDER = ''old'', ca_key = ex_signer ''old'', ca_gen = 0,
     ca_leafKey = ex_signer ''leaf'',
     ca_cache = newCertCache 1000 (\<lambda>_. \<lparr>ce_key = [], ce_cert = \<lparr>tc_Certificate = [], tc_PrivateKey = ex_signer [], tc_Leaf = None\<rparr>\<rparr>),
     ca_opts = \<lparr>mo_LeafTTL = DefaultLeafTTL, mo_CacheSize = 1000\<rparr>\<rparr>"

lemma ex_NewCA:
  "NewCA ex_pki (\<lambda>_. \<lparr>ce_key = [], ce_cert = \<lparr>tc_Certificate = [], tc_PrivateKey = ex_signer [], tc_Leaf = None\<rparr>\<rparr>)
     (Some (ex_signer ''leaf'')) (Some (ex_ca_cert ''old'')) (Some (ex_signer ''old''))
     \<lparr>mo_LeafTTL = 0, mo_CacheSize = 0\<rparr> = Inr ex_ca"
  by (simp add: NewCA_def ex_ca_cert_def KeyUsageCertSign_def publicKeysEqual_def ex_pki_def ex_signer_def
      withDefaults_def DefaultCacheSize_def Let_def ex_ca_def)

lemma ex_identity: "leafIdentity ''a.com'' [] = (''a.com'', False)"
  by code_simp

definition ex_leaf :: tls_cert where
  "ex_leaf = \<lparr>tc_Certificate = [''a.comold'', ''old''], tc_PrivateKey = ex_signer ''leaf'',
     tc_Leaf = Some (leafTemplate ''a.com'' False 1 0 DefaultLeafTTL)\<rparr>"

definition ex_missed :: CA where
  "ex_missed = ex_ca\<lparr>ca_cache := (ca_cache ex_ca)\<lparr>cc_misses := 1\<rparr>\<rparr>"

definition ex_rotated :: CA where
  "ex_rotated = Rotate_purge (Rotate_swap (ex_ca_cert ''new'') (ex_signer ''new'') ex_missed)"

lemma ex_lookup: "cert_lookup 0 ''a.com'' ex_ca = (None, ex_missed)"
  by (simp add: cert_lookup_def certCache_get_def ex_ca_def ex_missed_def newCertCache_def)

lemma ex_mint: "mint ex_pki (Some 1) 0 ''a.com'' False ex_missed = Inr (ex_leaf, 0)"
  by (simp add: mint_def sign_leaf_def ex_missed_def ex_ca_def ex_pki_def leafTemplate_def ex_signer_def
      ex_ca_cert_def ex_leaf_def Let_def)

lemma ex_rotate_check:
  "Rotate_check ex_pki (Some (ex_ca_cert ''new'')) (Some (ex_signer ''new'')) = Inr (ex_ca_cert ''new'', ex_signer ''new'')"
  by (simp add: Rotate_check_def ex_ca_cert_def ex_signer_def KeyUsageCertSign_def publicKeysEqual_def ex_pki_def)

lemma ex_stale_hit: "fst (cert_lookup 0 ''a.com'' (cert_store ''a.com'' ex_leaf ex_rotated)) = Some ex_leaf"
proof -
  have "wf_cache (ca_cache ex_rotated)"
    by (simp add: ex_rotated_def Rotate_purge_def Rotate_swap_def ex_missed_def ex_ca_def wf_cache_def
        wf_links_def certCache_purge_def newCertCache_def)
  then have "fst (certCache_get ''a.com'' (certCache_put ''a.com'' ex_leaf (ca_cache ex_rotated))) = Some ex_leaf"
    using lru.get_result lru.put_same lru.wf_ops(2) by metis
  moreover have "leafFresh 0 ex_leaf"
    by (simp add: leafFresh_def ex_leaf_def leafTemplate_def leafRenewBefore_def DefaultLeafTTL_def duration_defs)
  ultimately show ?thesis by (simp add: cert_lookup_def cert_store_def Let_def case_prod_beta)
qed

definition ex_sy :: "CA \<Rightarrow> handshake \<Rightarrow> bool \<Rightarrow> ca_sys" where
  "ex_sy c h b = \<lparr>sy_ca = c, sy_hs = (\<lambda>_. HsIdle)(0 := h), sy_purge = b\<rparr>"

lemma ex_race_run:
  "(ca_step ex_pki)\<^sup>*\<^sup>* (ca_init ex_ca) (ex_sy (cert_store ''a.com'' ex_leaf ex_rotated) HsIdle False)"
proof -
  let ?swap = "Rotate_swap (ex_ca_cert ''new'') (ex_signer ''new'')"
  have a: "ca_init ex_ca = ex_sy ex_ca HsIdle False" by (auto simp: ca_init_def ex_sy_def)
  have b: "ca_step ex_pki (ex_sy ex_ca HsIdle False) (ex_sy ex_missed (HsMint ''a.com'' False) False)"
    using hs_lookup [of "ex_sy ex_ca HsIdle False" 0, OF _ ex_identity, of 0 None ex_missed ex_pki] ex_lookup
    by (simp add: ex_sy_def)
  have c: "ca_step ex_pki (ex_sy ex_missed (HsMint ''a.com'' False) False) (ex_sy ex_missed (HsCheck ''a.com'' ex_leaf 0) False)"
    using hs_mint [of "ex_sy ex_missed (HsMint ''a.com'' False) False" 0 "''a.com''" False ex_pki "Some 1" 0] ex_mint
    by (simp add: ex_sy_def)
  have d: "ca_step ex_pki (ex_sy ex_missed (HsCheck ''a.com'' ex_leaf 0) False) (ex_sy ex_missed (HsStore ''a.com'' ex_leaf) False)"
    using hs_check [of "ex_sy ex_missed (HsCheck ''a.com'' ex_leaf 0) False" 0 "''a.com''" ex_leaf 0 ex_pki]
    by (simp add: ex_sy_def ex_missed_def ex_ca_def)
  have e: "ca_step ex_pki (ex_sy ex_missed (HsStore ''a.com'' ex_leaf) False)
      (ex_sy (?swap ex_missed) (HsStore ''a.com'' ex_leaf) True)"
    using rotate_swap [of "ex_sy ex_missed (HsStore ''a.com'' ex_leaf) False", OF _ ex_rotate_check]
    by (simp add: ex_sy_def)
  have f: "ca_step ex_pki (ex_sy (?swap ex_missed) (HsStore ''a.com'' ex_leaf) True)
      (ex_sy ex_rotated (HsStore ''a.com'' ex_leaf) False)"
    using rotate_purge [of "ex_sy (?swap ex_missed) (HsStore ''a.com'' ex_leaf) True" ex_pki]
    by (simp add: ex_sy_def ex_rotated_def)
  have g: "ca_step ex_pki (ex_sy ex_rotated (HsStore ''a.com'' ex_leaf) False)
      (ex_sy (cert_store ''a.com'' ex_leaf ex_rotated) (HsServed ''a.com'' ex_leaf) False)"
    using hs_store [of "ex_sy ex_rotated (HsStore ''a.com'' ex_leaf) False" 0 "''a.com''" ex_leaf ex_pki]
    by (simp add: ex_sy_def)
  have h: "ca_step ex_pki (ex_sy (cert_store ''a.com'' ex_leaf ex_rotated) (HsServed ''a.com'' ex_leaf) False)
      (ex_sy (cert_store ''a.com'' ex_leaf ex_rotated) HsIdle False)"
    using hs_done [of "ex_sy (cert_store ''a.com'' ex_leaf ex_rotated) (HsServed ''a.com'' ex_leaf) False" 0 "''a.com''" ex_leaf ex_pki]
    by (simp add: ex_sy_def)
  note steps = converse_rtranclp_into_rtranclp [where r = "ca_step ex_pki"]
  show ?thesis unfolding a
    by (rule steps [OF b steps [OF c steps [OF d steps [OF e steps [OF f steps [OF g r_into_rtranclp [where r = "ca_step ex_pki", OF h]]]]]]])
qed

text \<open>
  A rotation can leave a leaf of the retired CA behind.  The generation check and the insertion of \<open>certFor\<close>
  are two critical sections: a rotation that fits between them purges the cache before the old leaf
  enters it, and every later handshake for this name is served the old chain, with nothing
  in flight any more.
\<close>

theorem rotation_leaves_stale_leaf:
  "\<exists>s leaf. (ca_step ex_pki)\<^sup>*\<^sup>* (ca_init ex_ca) s \<and> (\<forall>i. sy_hs s i = HsIdle) \<and> \<not> sy_purge s \<and>
     fst (certFor ex_pki serial 0 ''a.com'' [] (sy_ca s)) = Inr leaf \<and>
     last (tc_Certificate leaf) \<noteq> xc_Raw (ca_cert (sy_ca s)) \<and> ca_cert (sy_ca s) = ex_ca_cert ''new''"
proof -
  let ?s = "ex_sy (cert_store ''a.com'' ex_leaf ex_rotated) HsIdle False"
  obtain c where "cert_lookup 0 ''a.com'' (cert_store ''a.com'' ex_leaf ex_rotated) = (Some ex_leaf, c)"
    using ex_stale_hit by (metis prod.collapse)
  then have "fst (certFor ex_pki serial 0 ''a.com'' [] (sy_ca ?s)) = Inr ex_leaf"
    by (simp add: certFor_def ex_identity ex_sy_def)
  moreover have "ca_cert (sy_ca ?s) = ex_ca_cert ''new''"
    by (simp add: ex_sy_def cert_store_def ex_rotated_def Rotate_purge_def Rotate_swap_def)
  moreover have "\<forall>i. sy_hs ?s i = HsIdle" "\<not> sy_purge ?s" by (simp_all add: ex_sy_def)
  ultimately show ?thesis using ex_race_run by (intro exI conjI) (auto simp: ex_leaf_def ex_ca_cert_def)
qed


theorem interleaved_leaf_names_witness:
  "leaf_names ''a.com'' ex_leaf"
  using interleaved_leaf_names [OF ex_NewCA ex_race_run, where name = "''a.com''" and leaf = ex_leaf and now = 0] ex_stale_hit
  by (simp add: ex_sy_def)

end
