(* ===== verification/Dns_Props.thy ===== *)
theory Dns_Props
  imports Proxy
begin

text \<open>
  The DNS filter of a user, from the stored server address to the tunnel: src/pkg/proxy/handler.go and connect.go with
  src/pkg/dns/resolver.go.
\<close>

definition v4_prefix :: "nat list" where "v4_prefix = replicate 10 0 @ [255, 255]"

lemma To4_prefix: "length v4 = 4 \<Longrightarrow> To4 (v4_prefix @ v4) = Some v4" "length v4 = 4 \<Longrightarrow> To4 v4 = Some v4"
  by (simp_all add: To4_def v4_prefix_def)

lemma To4_SomeD:
  assumes "To4 ip = Some v4"
  shows "length v4 = 4" "ip = v4 \<or> ip = v4_prefix @ v4"
proof -
  consider "length ip = 4" "v4 = ip" | "length ip = 16" "take 12 ip = v4_prefix" "v4 = drop 12 ip"
    using assms by (auto simp: To4_def v4_prefix_def split: if_splits)
  then show "length v4 = 4" "ip = v4 \<or> ip = v4_prefix @ v4"
    by (cases; simp; metis append_take_drop_id)+
qed

lemma v4_contains: "length v4 = 4 \<Longrightarrow> hd v4 < 256 \<Longrightarrow> To4 ip = Some v4 \<Longrightarrow> IPNet_Contains loopbackNet ip \<longleftrightarrow> hd v4 = 127"
proof -
  assume a: "length v4 = 4" "hd v4 < 256" "To4 ip = Some v4"
  have n: "networkNumberAndMask loopbackNet = ([127, 0, 0, 0], [255, 0, 0, 0])" by code_simp
  obtain x y z w where v: "v4 = [x, y, z, w]" using a(1) by (auto simp: length_Suc_conv numeral_eq_Suc)
  have "x AND 255 = x" using a(2) v take_bit_nat_eq_self [of x 8] by (simp add: take_bit_eq_mask mask_eq_exp_minus_1)
  moreover have "[0..<length [x, y, z, w]] = [0, 1, 2, 3]" by (simp add: upt_rec)
  ultimately show ?thesis using a v by (simp only: IPNet_Contains_def n Let_def prod.case option.case) auto
qed

lemma isDNSBlocked_sinkhole:
  assumes "wf_ip ip"
  shows "isDNSBlocked ip \<longleftrightarrow> sinkhole ip"
proof (cases "To4 ip")
  case (Some v4)
  note d = To4_SomeD [OF Some]
  have "hd v4 \<in> set ip" using d by (cases v4) auto
  then have lt: "hd v4 < 256" using assms by (auto simp: wf_ip_def list_all_iff)
  have z: "IP_Equal ip IPv4zero \<longleftrightarrow> v4 = [0, 0, 0, 0]" using d(2)
  proof
    assume "ip = v4"
    then show ?thesis using d(1) by (auto simp: IP_Equal_def IPv4zero_def)
  next
    assume "ip = v4_prefix @ v4"
    then show ?thesis using d(1) by (simp add: IP_Equal_def IPv4zero_def v4_prefix_def)
  qed
  have l: "ip \<noteq> replicate 15 0 @ [1]" using d by (auto simp: v4_prefix_def eval_nat_numeral)
  have "(\<exists>w. length w = 4 \<and> (ip = w \<or> ip = replicate 10 0 @ [255, 255] @ w) \<and> Q w) \<longleftrightarrow> Q v4" for Q
  proof
    assume "\<exists>w. length w = 4 \<and> (ip = w \<or> ip = replicate 10 0 @ [255, 255] @ w) \<and> Q w"
    then obtain w where w: "length w = 4" "ip = w \<or> ip = v4_prefix @ w" "Q w" by (auto simp: v4_prefix_def)
    then have "To4 ip = Some w" using To4_prefix by auto
    then show "Q v4" using Some w by simp
  qed (use d in \<open>auto simp: v4_prefix_def\<close>)
  then have "sinkhole ip \<longleftrightarrow> hd v4 = 127 \<or> v4 = [0, 0, 0, 0]" using l by (simp only: sinkhole_def) simp
  then show ?thesis using z v4_contains [OF d(1) lt Some] by (auto simp: isDNSBlocked_def IsLoopback_def Some)
next
  case None
  then have len: "length ip = 16" using assms by (auto simp: To4_def wf_ip_def)
  have n: "\<not> (length w = 4 \<and> (ip = w \<or> ip = v4_prefix @ w))" for w using None To4_prefix by auto
  have "\<not> IP_Equal ip IPv4zero"
    using n [of "[0, 0, 0, 0]"] len by (auto simp: IP_Equal_def IPv4zero_def v4_prefix_def)
  moreover have "\<not> IPNet_Contains loopbackNet ip"
  proof -
    have "networkNumberAndMask loopbackNet = ([127, 0, 0, 0], [255, 0, 0, 0])" by code_simp
    then show ?thesis using None len by (simp add: IPNet_Contains_def)
  qed
  moreover have "IP_Equal ip (replicate 15 0 @ [1]) \<longleftrightarrow> ip = replicate 15 0 @ [1]" using len by (simp add: IP_Equal_def)
  ultimately show ?thesis using n None by (auto simp: isDNSBlocked_def IsLoopback_def sinkhole_def v4_prefix_def)
qed

subsection \<open>The tunnel of a filtered user\<close>

lemma ctxWithUserDNS_own:
  assumes "DB_GetDNS u (h_db h) = (server, protocol)" "server \<noteq> []" "CHR '':'' \<notin> set protocol"
    and "cache_ok (h_resolvers h)" "Resolver_New protocol server = Inr res"
  shows "fst (ctxWithUserDNS u h) = Some res"
  using GetOrCreate_ok(1) [OF assms(4,3), of server] assms(1,2,5)
  by (auto simp: ctxWithUserDNS_def Let_def split: prod.splits sum.splits)

text \<open>
  C21. A user's DNS filter is enforced.  For a user with a DNS server of their own, whatever resolvers other users have
  had cached, a CONNECT to a host name is resolved by that server: if the first address is 0.0.0.0, in 127.0.0.0/8 or ::1, the client gets
  status 523, the block is logged and counted, and no connection is opened; otherwise that address is dialled, and a tunnel to
  the host is relayed if and only if that succeeds.
\<close>

theorem dns_filter_enforced:
  assumes user: "DB_GetDNS u (h_db h) = (server, protocol)" "server \<noteq> []" "CHR '':'' \<notin> set protocol"
      "Resolver_New protocol server = Inr res"
    and cache: "h_resolvers h = resolver_cache reqs" "\<forall>(p, s)\<in>set reqs. CHR '':'' \<notin> set p"
    and host: "SplitHostPort host = Some (name, port)" "ParseIP name = None" "pe_acl E host"
    and answer: "pe_lookup E res name = Inr (ip # ips)" "wf_ip ip"
  shows "let acts = fst (connectTunnel E ck cip host u h)
    in DialHost res host \<in> set acts \<and>
       (if sinkhole ip
        then DNSObserved DNSBlocked \<in> set acts \<and> ClientWrite (raw_gateway 523) \<in> set acts \<and>
             list_all (\<lambda>a. case a of LogAccess e \<Rightarrow> en_Event e = ''dns-block'' \<and> en_Status e = 523 | Relay _ _ \<Rightarrow> False | _ \<Rightarrow> True) acts
        else Relay u host \<in> set acts \<longleftrightarrow> (\<exists>c. pe_dialer E (JoinHostPort (pe_ip_string E ip) port) = Inr c))"
proof -
  have "cache_ok (h_resolvers h)" using resolver_cache_ok [OF cache(2)] cache(1) by simp
  then obtain h1 where c: "ctxWithUserDNS u h = (Some res, h1)"
    using ctxWithUserDNS_own [OF user(1,2,3) _ user(4)] by (metis prod.collapse)
  show ?thesis
  proof (cases "sinkhole ip")
    case True
    then have "dialWithBlockCheck (pe_lookup E res) (pe_dialer E) (pe_ip_string E) host = (Inl (DialDNSBlocked name ip), DNSBlocked)"
      using host answer isDNSBlocked_sinkhole by (simp add: dialWithBlockCheck_def)
    then show ?thesis using True host(3)
      by (simp add: connectTunnel_def c resolverFromCtx_def Let_def classifyDialError_def)
  next
    case False
    then have "dialWithBlockCheck (pe_lookup E res) (pe_dialer E) (pe_ip_string E) host =
        ((case pe_dialer E (JoinHostPort (pe_ip_string E ip) port) of Inl e \<Rightarrow> Inl (DialError e) | Inr c \<Rightarrow> Inr c), DNSSuccess)"
      using host answer isDNSBlocked_sinkhole by (simp add: dialWithBlockCheck_def)
    then show ?thesis using False host(3)
      by (auto simp: connectTunnel_def c resolverFromCtx_def Let_def split: sum.split prod.split)
  qed
qed

definition ex_filtered :: Handler where
  "ex_filtered = \<lparr>h_db = ex_disk\<lparr>dnsCache := [''kid'' \<mapsto> \<lparr>dns_Server = ''9.9.9.9'', dns_Protocol = ''tls''\<rparr>]\<rparr>,
     h_limiter = Limiter_New 5 minute, h_auth = Map.empty, h_resolvers = resolver_cache [(''plain'', ''1.1.1.1:53'')]\<rparr>"

definition ex_filter_env :: proxy_env where
  "ex_filter_env = \<lparr>pe_cfg = config_from_env ex_duration ex_env, pe_crypto = ex_crypto,
     pe_loc = (\<lambda>_. \<lparr>Weekday = 1, Hour = 2, Minute = 3\<rparr>), pe_default = ResDefault, pe_acl = (\<lambda>_. True), pe_mitm = None,
     pe_lookup = (\<lambda>_ _. Inr [[127, 0, 0, 3]]), pe_dialer = (\<lambda>_. Inr (10, 20)), pe_ip_string = (\<lambda>_. ''127.0.0.3''),
     pe_roundtrip = (\<lambda>_ _. Inl (DialError ''x'')), pe_keys = (\<lambda>_. []),
     pe_errtext = (\<lambda>_. ''error''), pe_dialtext = (\<lambda>_. ''error''), pe_quote = (\<lambda>s. s)\<rparr>"

theorem dns_filter_enforced_witness:
  "ClientWrite (raw_gateway 523) \<in> set (fst (connectTunnel ex_filter_env \<lparr>ck_start = 0, ck_now = 1, ck_end = 2\<rparr> ''10.0.0.1''
      ''ads.example:443'' ''kid'' ex_filtered))"
proof -
  have u: "DB_GetDNS ''kid'' (h_db ex_filtered) = (''9.9.9.9'', ''tls'')" by (simp add: DB_GetDNS_def ex_filtered_def)
  have r: "Resolver_New ''tls'' ''9.9.9.9'' = Inr (ResTLS ''9.9.9.9:853'' ''9.9.9.9'')" by code_simp
  have s: "SplitHostPort ''ads.example:443'' = Some (''ads.example'', ''443'')" "ParseIP ''ads.example'' = None" by code_simp+
  have k: "sinkhole [127, 0, 0, 3]" "wf_ip [127, 0, 0, 3]" by (simp_all add: sinkhole_def wf_ip_def exI [of _ "[127, 0, 0, 3]"])
  show ?thesis
    using dns_filter_enforced [OF u _ _ r _ _ s, of "[(''plain'', ''1.1.1.1:53'')]" ex_filter_env "[127, 0, 0, 3]" "[]"
      "\<lparr>ck_start = 0, ck_now = 1, ck_end = 2\<rparr>" "''10.0.0.1''"] k
    by (simp add: ex_filtered_def ex_filter_env_def Let_def)
qed

end
