(* ===== verification/UserDB_Race.thy ===== *)
theory UserDB_Race
  imports UserDB_Props
begin

text \<open>
  The database operations at the granularity of their locks.  \<open>DB_Check\<close> and \<open>DB_SetEnabled\<close> (src/pkg/userdb/userdb.go) run a query or statement first and
  update a cache afterwards, under a lock of the cache alone; the other theories treat each operation as one step.  Here the
  sections are separate, their composition is the operation, and the theorems show what an operation in between does.
\<close>

subsection \<open>The sections of \<open>Check\<close>\<close>

definition Check_query :: "string \<Rightarrow> DB \<Rightarrow> (db_error + string) \<times> DB" where
  "Check_query user d =
     (case sql_fault d of
        (True, d) \<Rightarrow> (Inl (ErrSql ''querying user''), d)
      | (False, d) \<Rightarrow>
          (case find_user user d of None \<Rightarrow> (Inl (ErrUnknownUser user), d) | Some r \<Rightarrow> (Inr (row_password_hash r), d)))"

definition Check_rehash :: "crypto \<Rightarrow> string option \<Rightarrow> string \<Rightarrow> string \<Rightarrow> string \<Rightarrow> DB \<Rightarrow> DB" where
  "Check_rehash cr salt user pass storedHash d =
     (if needsRehash storedHash
      then (case hashPassword (c_idkey cr) salt pass of
              Some newHash \<Rightarrow> snd (sql_update_user user (\<lambda>r. r\<lparr>row_password_hash := newHash\<rparr>) d)
            | None \<Rightarrow> d)
      else d)"

definition Check_cache :: "string \<Rightarrow> string \<Rightarrow> time \<Rightarrow> DB \<Rightarrow> DB" where
  "Check_cache user passSHA now d =
     d\<lparr>auth_cache := (auth_cache d)(user \<mapsto> \<lparr>passwordSHA256 = passSHA, validUntil = now + cacheTTL\<rparr>)\<rparr>"

lemma Check_db_sections:
  "DB_Check_db cr salt now user pass passSHA d =
     (case Check_query user d of
        (Inl e, d) \<Rightarrow> (Inl e, d)
      | (Inr storedHash, d) \<Rightarrow>
          if \<not> verifyPassword (c_idkey cr) pass storedHash then (Inl (ErrWrongPassword user), d)
          else (Inr user, Check_cache user passSHA now (Check_rehash cr salt user pass storedHash d)))"
proof -
  obtain f d' where f: "sql_fault d = (f, d')" by fastforce
  show ?thesis
  proof (cases f)
    case True
    then show ?thesis by (simp add: DB_Check_db_def Check_query_def f)
  next
    case False
    then show ?thesis
      by (simp add: DB_Check_db_def Check_query_def f Check_cache_def Check_rehash_def Let_def split: option.split)
  qed
qed

lemma cached_check:
  assumes "parseBasicAuth header = Some (u, pw)" "header \<noteq> []" "t < now + cacheTTL"
  shows "fst (DB_Check cr salt t header (Check_cache u (c_sha256 cr pw) now d)) = Inr u"
  using assms by (simp add: DB_Check_def Check_cache_def)

text \<open>
  A password change that falls between the query of a check with the old password and its end (the check computes an argon2 key in the
  meantime) is not effective: the old password is accepted from the cache, and if the old hash had outdated parameters, the row
  again holds a hash of the old password.
\<close>

theorem stale_check_restores_password:
  assumes "Check_query u d = (Inr h, d0)" "verifyPassword (c_idkey cr) old h"
    and "DB_ChangePassword cr salt u new d0 = (Inr (), d1)" "sql_faults d1 = []"
    and "d2 = Check_cache u (c_sha256 cr old) now (Check_rehash cr salt' u old h d1)"
    and "parseBasicAuth header = Some (u, old)" "header \<noteq> []" "t < now + cacheTTL"
  shows "fst (DB_Check cr salt'' t header d2) = Inr u"
    and "needsRehash h \<Longrightarrow> hashPassword (c_idkey cr) salt' old = Some h' \<Longrightarrow>
      \<forall>r\<in>set (users_tbl d2). row_username r = u \<longrightarrow> row_password_hash r = h'"
proof -
  show "fst (DB_Check cr salt'' t header d2) = Inr u" unfolding assms(5) by (rule cached_check) (use assms(6-8) in simp_all)
  show "\<forall>r\<in>set (users_tbl d2). row_username r = u \<longrightarrow> row_password_hash r = h'"
    if "needsRehash h" "hashPassword (c_idkey cr) salt' old = Some h'"
  proof -
    have "users_tbl d2 = map (\<lambda>r. if row_username r = u then r\<lparr>row_password_hash := h'\<rparr> else r) (users_tbl d1)"
      unfolding assms(5) Check_cache_def Check_rehash_def using that assms(4) by (simp add: sql_update_user_def sql_fault_def)
    note tbl = this
    show ?thesis
    proof (intro ballI impI)
      fix r
      assume r: "r \<in> set (users_tbl d2)" "row_username r = u"
      then obtain x where "r = (if row_username x = u then x\<lparr>row_password_hash := h'\<rparr> else x)" unfolding tbl set_map by blast
      then show "row_password_hash r = h'" using r(2) by (simp split: if_splits)
    qed
  qed
qed

text \<open>Likewise a deletion: the cache readmits the deleted user until the entry expires.\<close>

theorem stale_check_admits_deleted:
  assumes "Check_query u d = (Inr h, d0)" "verifyPassword (c_idkey cr) pw h" "DB_Delete u d0 = (Inr (), d1)"
    and "parseBasicAuth header = Some (u, pw)" "header \<noteq> []" "t < now + cacheTTL" "\<not> needsRehash h"
  shows "let d2 = Check_cache u (c_sha256 cr pw) now (Check_rehash cr salt u pw h d1)
    in find_user u d2 = None \<and> fst (DB_Check cr salt' t header d2) = Inr u"
proof -
  have "find_user u d1 = None"
    using assms(3) by (auto simp: DB_Delete_def find_user_def find_None_iff Let_def split: prod.splits bool.splits if_splits)
  then show ?thesis using cached_check [OF assms(4-6), of cr salt'] assms(7) by (simp add: Check_rehash_def Check_cache_def find_user_def)
qed

subsection \<open>The sections of \<open>SetEnabled\<close>\<close>

definition SetEnabled_exec :: "string \<Rightarrow> bool \<Rightarrow> DB \<Rightarrow> (db_error + unit) \<times> DB" where
  "SetEnabled_exec u enabled d =
     (let val = (if enabled then 1 else 0)
      in case sql_update_user u (\<lambda>r. r\<lparr>row_enabled := val\<rparr>) d of
        (None, d) \<Rightarrow> (Inl (ErrSql ''updating enabled''), d)
      | (Some n, d) \<Rightarrow> if n = 0 then (Inl (ErrUnknownUser u), d) else (Inr (), d))"

definition SetEnabled_cache :: "string \<Rightarrow> bool \<Rightarrow> DB \<Rightarrow> DB" where
  "SetEnabled_cache u enabled d = d\<lparr>enabledCache := (enabledCache d)(u \<mapsto> enabled)\<rparr>"

lemma SetEnabled_sections:
  "DB_SetEnabled u enabled d =
     (case SetEnabled_exec u enabled d of (Inl e, d) \<Rightarrow> (Inl e, d) | (Inr _, d) \<Rightarrow> (Inr (), SetEnabled_cache u enabled d))"
  by (simp add: DB_SetEnabled_def SetEnabled_exec_def SetEnabled_cache_def Let_def split: prod.split option.split)

text \<open>
  Two requests that set the flag differently may write the table in one order and the cache in the other: then the proxy lets a
  user through whom the table, and after a restart everyone, has as disabled.
\<close>

theorem enabled_race:
  assumes "find_user u d = Some r" "sql_faults d = []"
  shows "\<exists>d1 d2. SetEnabled_exec u True d = (Inr (), d1) \<and> SetEnabled_exec u False d1 = (Inr (), d2) \<and>
    (let d' = SetEnabled_cache u True (SetEnabled_cache u False d2)
     in DB_IsEnabled u d' \<and> (\<forall>x\<in>set (users_tbl d'). row_username x = u \<longrightarrow> row_enabled x = 0))"
proof -
  let ?s = "\<lambda>v rs. map (\<lambda>r. if row_username r = u then r\<lparr>row_enabled := v\<rparr> else r) rs"
  have exec: "SetEnabled_exec u b e = (Inr (), e\<lparr>users_tbl := ?s (if b then 1 else 0) (users_tbl e)\<rparr>)"
    if "u \<in> row_username ` set (users_tbl e)" "sql_faults e = []" for b e
    using that by (auto simp: SetEnabled_exec_def sql_update_user_def sql_fault_def filter_empty_conv)
  have names: "row_username ` set (?s v rs) = row_username ` set rs" for v rs
    unfolding set_map image_image by (rule image_cong [OF refl]) simp
  have u: "u \<in> row_username ` set (users_tbl d)" using assms(1) by (auto simp: find_user_def find_Some_iff)
  have zero: "row_enabled x = 0" if x: "x \<in> set (?s 0 rs)" "row_username x = u" for x rs
  proof -
    obtain y where "x = (if row_username y = u then y\<lparr>row_enabled := 0\<rparr> else y)" using x(1) unfolding set_map by blast
    then show ?thesis using x(2) by (simp split: if_splits)
  qed
  define d1 where "d1 = d\<lparr>users_tbl := ?s 1 (users_tbl d)\<rparr>"
  define d2 where "d2 = d1\<lparr>users_tbl := ?s 0 (users_tbl d1)\<rparr>"
  have "SetEnabled_exec u True d = (Inr (), d1)" using exec [OF u assms(2), of True] by (simp add: d1_def)
  moreover have "u \<in> row_username ` set (users_tbl d1)" "sql_faults d1 = []" using u names [of 1 "users_tbl d"] assms(2) by (simp_all only: d1_def) simp_all
  from exec [OF this, of False] have "SetEnabled_exec u False d1 = (Inr (), d2)" by (simp add: d2_def)
  moreover have "users_tbl d2 = ?s 0 (users_tbl d1)" by (simp add: d2_def)
  ultimately show ?thesis using zero [of _ "users_tbl d1"] by (simp add: SetEnabled_cache_def DB_IsEnabled_def Let_def del: set_map)
qed

end
