(* ===== verification/Spec2Isabelle.thy ===== *)
theory Spec2Isabelle
  imports Wiring Tunnel Metrics_New LogFanout BlockPage_Text MitmCA_Props Dns_Props UserDB_Race
begin

text \<open>
  \<^bold>\<open>evan-proxy\<close> is a parental-control HTTP proxy.  Each child has a user account, a dedicated proxy port and a schedule of
  downtimes; a parent manages them through an admin web API, from a browser session or a paired device.  While a user is
  paused the proxy refuses requests or, with TLS interception enabled, answers them with a block page under a forged
  certificate.  This library models the Go code under src/pkg and src/cmd and proves what keeps a child on the right side of
  these rules and the parent's account safe.

  \<^bold>\<open>How the parts interact.\<close>  \<open>main\<close> (theory \<open>Startup\<close>) loads the configuration (\<open>Config\<close>), opens the user database
  (\<open>UserDB\<close>, with \<open>Password\<close> and \<open>Downtime\<close>), wires the logger (\<open>Logging\<close>) to the statistics (\<open>Stats\<close>) and metrics
  (\<open>Metrics\<close>), and starts the listeners (\<open>UserPorts\<close>) and the admin server (\<open>AdminApi\<close>).  A proxy request
  (\<open>Proxy\<close>, \<open>Forward\<close>) is rate limited (\<open>Ratelimit\<close>), authenticated against the database or a session of its address, checked for a
  pause, resolved (\<open>Dns\<close>) and relayed; a paused CONNECT goes to the block page (\<open>BlockPage\<close>), whose certificates come from the
  authority (\<open>MitmCA\<close>) and its cache (\<open>CertCache\<close>), unless the host is on the bypass list (\<open>Bypass\<close>).  Admin requests change the database and the
  listeners; a reconciler brings the listeners back in line with the schedule.  An admitted CONNECT becomes a tunnel (\<open>Tunnel\<close>), whose bytes are
  counted while they flow (\<open>Counter\<close>).  \<open>System\<close> puts the proxy, the admin server and the listeners over one database, and \<open>Wiring\<close> shows that main starts it.

  \<^bold>\<open>Foundations.\<close>
  \<^item> \<open>Prelude\<close>: time and durations in nanoseconds, wrapping 64-bit arithmetic, Go's string functions, list lemmas and the
    library's fact collections.  \<open>Strconv\<close>, \<open>Base64\<close>, \<open>Utf8\<close>: what the code uses of strconv, encoding/base64 and rune conversion.
  \<^item> \<open>GoNet\<close>: IP addresses, CIDR ranges and host:port pairs of package net; \<open>clientIP\<close> of admin/clientip.go (the address used for
    rate limiting cannot be influenced by header entries a client prepends) and \<open>isLoopbackListen\<close> of main.go.

  \<^bold>\<open>User database\<close> (userdb/userdb.go, downtime.go, devicetokens.go).
  \<^item> \<open>Downtime\<close>: schedules; validation accepts exactly the well-formed, overlap-free ones.
  \<^item> \<open>Password\<close>: argon2 hash strings and basic credentials, both round trips.
  \<^item> \<open>UserDB\<close>: the record \<open>DB\<close> has the users table, the six in-memory caches and the outcomes of future SQL statements, so that
    every statement may fail; there is one definition per method.  \<open>UserDB_Inv\<close> has the coherence invariant of caches and table and, in the
    locale \<open>user_setter\<close>, its preservation by the nine row updates; \<open>UserDB_Run\<close> extends it to every operation and run; \<open>UserDB_Props\<close> has
    the theorems: coherence, restart, soundness of the credential check, password change, port assignment and the downtime decision.
    An operation is one step there; \<open>UserDB_Race\<close> splits the credential check and \<open>SetEnabled\<close> at their locks and shows what a concurrent operation can undo.
  \<^item> \<open>DeviceTokens\<close>: the life of a paired device's token.

  \<^bold>\<open>Guards.\<close>
  \<^item> \<open>Ratelimit\<close> (ratelimit.go, admin/globalcounter.go): the locale \<open>sliding_window\<close> has the contract of both limiters: the answer
    depends on the recorded failures alone.
  \<^item> \<open>Sweepers\<close>: the background loops and \<open>Stop\<close> methods of limiter, session store, code store, statistics and proxy sessions; the locale \<open>sweeper\<close>, interpreted on all
    five, says that their clients cannot tell whether a sweep has run.  It also has the two critical sections of a session's validation.
  \<^item> \<open>Sessions\<close> (admin/session.go, enroll.go): the locale \<open>expiring_store\<close> has the contract of both stores; sessions slide, codes
    are single-use.

  \<^bold>\<open>Admin server\<close> (admin/api.go, devices.go, cookie.go, server.go, auth/admin.go; proxy/userports.go).
  \<^item> \<open>UserPorts\<close>: the maps of ports to users and servers, and each operation on them; \<open>AdminApi\<close>: the handlers and the routing table.
  \<^item> \<open>Listeners\<close>, \<open>Admin_Props\<close>: a step relation of admin requests, reconciler passes, failed binds and proxy logins; in every reachable state
    each bound port serves the user the database assigns it, and a reconciler pass is exact.
  \<^item> \<open>Admin_Auth\<close>: every non-public path needs a session or token, device management a session; logins are bounded and issue
    protected sessions; a code pairs one device.
  \<^item> \<open>AdminServer\<close>: \<open>NewServer\<close>, the outer handler and the access log of demo builds; a new server stays sealed until the administrator logs in.

  \<^bold>\<open>Proxy\<close> (proxy/handler.go, connect.go, forward.go).
  \<^item> \<open>Proxy\<close>, \<open>Forward\<close>: a handler yields its effects in program order and the next state.  The two halves of a challenged CONNECT are
    separate, since other requests run while it waits for the retry.
  \<^item> \<open>Proxy_Run\<close>, \<open>Proxy_Props\<close>: over any interleaving of these sections, session sweeps and database changes, every admission is
    backed by a password from the same address, a paused user reaches nothing but the bypass list, and forwarded
    requests carry neither credentials nor the client's address.
  \<^item> \<open>Tunnel\<close>: the relay of an open tunnel as two copying goroutines and a waiting one, in a step relation with the counters of all other connections:
    the bytes arrive in order, the end of each direction is passed on, and the close entry reports what was relayed.  In \<open>Proxy\<close> that pair of totals is what
    \<open>pe_dialer\<close> gives for an opened connection.
  \<^item> \<open>Dns\<close>, \<open>Dns_Props\<close> (dns/resolver.go, doh.go, the dialer of handler.go): the resolver cache is transparent; a tunnel of a user with a
    DNS server of their own is resolved by it, and a name it sinks is refused without a connection.
    A lookup over HTTPS collects the answers of both its queries.
  \<^item> \<open>Pac\<close> (pac/pac.go): the generated file, read as JavaScript, says what was configured.

  \<^bold>\<open>The whole program\<close> (cmd/evan-proxy/main.go, acl/acl.go).
  \<^item> \<open>Admin_DB\<close>: the locale \<open>db_inv\<close> lifts an invariant of the database from its operations to every admin handler; it is interpreted on coherence and
    on the form of user names.  \<open>System\<close>: one state, a step relation of admin requests, reconciler passes, failed binds, proxy requests on bound ports,
    retries and sweeps, and its invariant.  \<open>System_Props\<close>: traffic is authorised and reaches nothing in a downtime, a pause and a deletion answered with 200 take
    effect on everything that follows, and an open session outlives a password change.  User names with a colon are excluded: they cannot be used in basic
    credentials.
  \<^item> \<open>Startup\<close>: the steps of main, their failures and the shutdown.  \<open>Wiring\<close>: \<open>proxy.New\<close>, the reconciler loop and the program main builds; it satisfies the
    premises of the theorems about the system.

  \<^bold>\<open>Interception\<close> (mitm/).
  \<^item> \<open>CertCache\<close>: the linked list and map refine an association list in order of use (locale \<open>leaf_cache\<close>).  \<open>MitmCA\<close>, \<open>MitmCA_Props\<close>:
    leaves are for the right name, valid and signed by the CA in force; the same for the name under every interleaving of
    handshakes and rotations, as a step relation at the granularity of the locks.  \<open>Bypass\<close>: the patterns denote five
    domains.  \<open>BlockPage\<close>, \<open>BlockPage_Text\<close>: the loop ends; the page in full, whose markup does not depend on the client.

  \<^bold>\<open>Observation\<close> (logging/, stats/, metrics/).
  \<^item> \<open>Logging\<close>: fan-out, console lines and the batching backend, which takes every message once and in order.  \<open>Stats\<close>: the ring
    of buckets read as a queue, rankings, the log stream.  \<open>Metrics\<close>: what each request adds.
  \<^item> \<open>LogFanout\<close>: the UDP backend, the formatted calls and closing; every backend gets every message.  \<open>Counter\<close>: writers, flushers, the channel and the drain goroutine
    as one concurrent program that loses no byte unseen.  \<open>Metrics_New\<close>: the metrics as registered; every update fits its registration.

  \<^bold>\<open>Conventions.\<close>  Errors are values of a sum type, one constructor per error the code makes.  Time, randomness, SQL faults, network results and
  cryptography are arguments; what a theorem needs of them is a named hypothesis (\<open>argon_ok\<close>: derived keys have the requested length).
  A Go map is a function to options, and a range over it visits a list argument.  Goroutines and critical sections are events of a run, so a
  theorem over all event lists or runs covers their interleavings.  No definition uses fuel: the loops are structural, or end by a
  measure (the port search by the rest of the range, eviction by the list, the block page by its request bound).

  \<^bold>\<open>Not modelled.\<close>  Sockets, TLS and HTTP framing, the SQLite engine, JSON encoding, argon2, bcrypt, SHA-256, X.509 and the codec of DNS messages are outside the
  repository and parameters here; so are the bytes of the embedded photo.  The upstream transport is an input of a forwarded request, without its pool of idle
  connections.  The semaphore around argon2, \<open>Close\<close> of the database and the contents of the dashboard's static files have no logic to state.  The storage of the
  Prometheus registry and its HTTP handler belong to the library; what it requires of names, labels and values is stated.
\<close>

end
